theory Spec2Isabelle
  imports
    Main
    "HOL-Library.AList"
    "HOL-Library.Char_ord"
    "HOL-Library.List_Lexorder"
    "HOL-Library.Multiset"
    "HOL-Library.Sublist"
begin

section \<open>Python values used by the permit query layer\<close>

text \<open>
  Strings are byte strings (\<open>char list\<close>), compared as Python compares \<open>str\<close>: code point by
  code point, a proper prefix being smaller. An exception is a value; \<open>Inl e\<close> is "raised e".
  The string carried by an exception is its message (\<open>str(e)\<close>; for a KeyError, the key).
  The exceptions of the gateway are ServiceError, whatever their class. The messages of
  the exceptions that the standard library raises follow CPython 3.12; they are shown for
  strings without quote characters, and no stated property depends on them.
\<close>

datatype exn =
    ValueError string
  | OverflowError string
  | KeyError string
  | ServiceError string

fun str_of_exn :: "exn \<Rightarrow> string" where
  "str_of_exn (ValueError m) = m"
| "str_of_exn (OverflowError m) = m"
| "str_of_exn (KeyError k) = [CHR 39] @ k @ [CHR 39]"
| "str_of_exn (ServiceError m) = m"

fun is_ValueError :: "exn \<Rightarrow> bool" where
  "is_ValueError (ValueError m) = True"
| "is_ValueError e = False"

text \<open>Truthiness of an optional string and of an optional integer (\<open>if x:\<close>).\<close>

fun truthy_str :: "string option \<Rightarrow> bool" where
  "truthy_str None = False"
| "truthy_str (Some s) = (s \<noteq> [])"

fun truthy_int :: "int option \<Rightarrow> bool" where
  "truthy_int None = False"
| "truthy_int (Some n) = (n \<noteq> 0)"

subsection \<open>Decimal rendering and reading\<close>

definition digit_char :: "nat \<Rightarrow> char" where
  "digit_char d = char_of (48 + d)"

fun str_nat :: "nat \<Rightarrow> string" where
  "str_nat n = (if n < 10 then [digit_char n] else str_nat (n div 10) @ [digit_char (n mod 10)])"

declare str_nat.simps [simp del]

definition str_int :: "int \<Rightarrow> string" where
  "str_int i = (if i < 0 then CHR ''-'' # str_nat (nat (- i)) else str_nat (nat i))"

text \<open>\<open>'%0wd' % n\<close> for a natural number: left padding with zeros up to width w.\<close>

definition zfill :: "nat \<Rightarrow> nat \<Rightarrow> string" where
  "zfill w n = replicate (w - length (str_nat n)) CHR ''0'' @ str_nat n"

definition is_digit :: "char \<Rightarrow> bool" where
  "is_digit c = (CHR ''0'' \<le> c \<and> c \<le> CHR ''9'')"

definition digit_val :: "char \<Rightarrow> int" where
  "digit_val c = int (of_char c) - 48"

definition int_of_digits :: "string \<Rightarrow> int" where
  "int_of_digits s = foldl (\<lambda>acc c. 10 * acc + digit_val c) 0 s"

section \<open>The datetime library: proleptic Gregorian dates\<close>

text \<open>
  The functions of this section follow the standard library's \<open>datetime\<close> module
  (\<open>_is_leap\<close>, \<open>_days_before_year\<close>, \<open>_days_in_month\<close>, \<open>_days_before_month\<close>,
  \<open>_ymd2ord\<close>, \<open>_ord2ymd\<close>), which the permit code uses through \<open>datetime.now\<close>,
  \<open>strptime\<close>, \<open>strftime\<close>, \<open>timedelta\<close> and subtraction.
\<close>

record datetime =
  year :: int
  month :: int
  day :: int
  hour :: int
  minute :: int
  second :: int
  microsecond :: int

definition is_leap :: "int \<Rightarrow> bool" where
  "is_leap y = (y mod 4 = 0 \<and> (y mod 100 \<noteq> 0 \<or> y mod 400 = 0))"

definition days_before_year :: "int \<Rightarrow> int" where
  "days_before_year y = (let y1 = y - 1 in y1 * 365 + y1 div 4 - y1 div 100 + y1 div 400)"

definition DAYS_IN_MONTH :: "int list" where
  "DAYS_IN_MONTH = [-1, 31, 28, 31, 30, 31, 30, 31, 31, 30, 31, 30, 31]"

definition DAYS_BEFORE_MONTH :: "int list" where
  "DAYS_BEFORE_MONTH = [-1, 0, 31, 59, 90, 120, 151, 181, 212, 243, 273, 304, 334]"

definition days_in_month :: "int \<Rightarrow> int \<Rightarrow> int" where
  "days_in_month y m = (if m = 2 \<and> is_leap y then 29 else DAYS_IN_MONTH ! nat m)"

definition days_before_month :: "int \<Rightarrow> int \<Rightarrow> int" where
  "days_before_month y m = DAYS_BEFORE_MONTH ! nat m + (if m > 2 \<and> is_leap y then 1 else 0)"

definition ymd2ord :: "int \<Rightarrow> int \<Rightarrow> int \<Rightarrow> int" where
  "ymd2ord y m d = days_before_year y + days_before_month y m + d"

definition MAXORDINAL :: int where
  "MAXORDINAL = 3652059"

definition ord2ymd :: "int \<Rightarrow> int \<times> int \<times> int" where
  "ord2ymd n0 =
    (let n = n0 - 1;
         n400 = n div 146097; n = n mod 146097;
         n100 = n div 36524; n = n mod 36524;
         n4 = n div 1461; n = n mod 1461;
         n1 = n div 365; n = n mod 365;
         y = n400 * 400 + 1 + n100 * 100 + n4 * 4 + n1
     in if n1 = 4 \<or> n100 = 4 then (y - 1, 12, 31)
        else
          let leapyear = (n1 = 3 \<and> (n4 \<noteq> 24 \<or> n100 = 3));
              m = (n + 50) div 32;
              preceding = DAYS_BEFORE_MONTH ! nat m + (if m > 2 \<and> leapyear then 1 else 0)
          in if preceding > n
             then (let m' = m - 1;
                       preceding' = preceding -
                         (DAYS_IN_MONTH ! nat m' + (if m' = 2 \<and> leapyear then 1 else 0))
                   in (y, m', n - preceding' + 1))
             else (y, m, n - preceding + 1))"

text \<open>A date is valid when the \<open>date\<close> constructor accepts it (\<open>_check_date_fields\<close>).\<close>

definition valid_date :: "int \<Rightarrow> int \<Rightarrow> int \<Rightarrow> bool" where
  "valid_date y m d =
     (1 \<le> y \<and> y \<le> 9999 \<and> 1 \<le> m \<and> m \<le> 12 \<and> 1 \<le> d \<and> d \<le> days_in_month y m)"

definition midnight :: "int \<Rightarrow> int \<Rightarrow> int \<Rightarrow> datetime" where
  "midnight y m d =
     \<lparr>year = y, month = m, day = d, hour = 0, minute = 0, second = 0, microsecond = 0\<rparr>"

definition toordinal :: "datetime \<Rightarrow> int" where
  "toordinal t = ymd2ord (year t) (month t) (day t)"

text \<open>
  \<open>t + timedelta(days=n)\<close>: the \<open>timedelta\<close> constructor refuses more than 999999999 days,
  and the sum refuses a date outside years 1 to 9999; both raise OverflowError.
\<close>

definition add_days :: "datetime \<Rightarrow> int \<Rightarrow> exn + datetime" where
  "add_days t n =
     (if \<bar>n\<bar> > 999999999
      then Inl (OverflowError (''days='' @ str_int n @ ''; must have magnitude <= 999999999''))
      else let ord = toordinal t + n
           in if 0 < ord \<and> ord \<le> MAXORDINAL
              then (case ord2ymd ord of (y, m, d) \<Rightarrow> Inr (t\<lparr>year := y, month := m, day := d\<rparr>))
              else Inl (OverflowError ''date value out of range''))"

text \<open>
  \<open>(a - b).days\<close>: a \<open>timedelta\<close> is normalised so that its seconds and microseconds are not
  negative; its \<open>days\<close> is the floor of the difference in days.
\<close>

definition to_microseconds :: "datetime \<Rightarrow> int" where
  "to_microseconds t =
     ((toordinal t * 86400 + hour t * 3600 + minute t * 60 + second t) * 1000000)
       + microsecond t"

definition days_between :: "datetime \<Rightarrow> datetime \<Rightarrow> int" where
  "days_between a b = (to_microseconds a - to_microseconds b) div 86400000000"

text \<open>
  \<open>t.strftime("%Y-%m-%d")\<close> hands the format to the C library, whose \<open>%Y\<close> writes the year
  without padding (year 985 gives \<open>985-06-25\<close>); month and day are written with two digits.
\<close>

definition strftime_ymd :: "datetime \<Rightarrow> string" where
  "strftime_ymd t =
     str_nat (nat (year t)) @ ''-'' @ zfill 2 (nat (month t)) @ ''-'' @ zfill 2 (nat (day t))"

text \<open>
  \<open>t.isoformat()\<close> is \<open>"%04d-%02d-%02dT%02d:%02d:%02d"\<close>; the fraction is printed only when
  the microsecond is not zero.
\<close>

definition isoformat :: "datetime \<Rightarrow> string" where
  "isoformat t =
     zfill 4 (nat (year t)) @ ''-'' @ zfill 2 (nat (month t)) @ ''-'' @ zfill 2 (nat (day t))
       @ ''T'' @ zfill 2 (nat (hour t)) @ '':'' @ zfill 2 (nat (minute t)) @ '':''
       @ zfill 2 (nat (second t))
       @ (if microsecond t = 0 then [] else ''.'' @ zfill 6 (nat (microsecond t)))"

subsection \<open>strptime with the format %Y-%m-%d\<close>

text \<open>
  \<open>datetime.strptime(s, "%Y-%m-%d")\<close> matches the regular expression
  \<open>(\d\d\d\d)-(1[0-2]|0[1-9]|[1-9])-(3[01]|[12]\d|0[1-9]|[1-9]| [1-9])\<close> at the start of
  \<open>s\<close>, the alternatives tried from left to right; it raises ValueError when there is no
  match, when text remains after the match, and when the numbers are not a date. The
  leading zero of month and day is optional, that of the year is not.
\<close>

definition py_repr :: "string \<Rightarrow> string" where
  "py_repr s = [CHR 39] @ s @ [CHR 39]"

fun match_month :: "string \<Rightarrow> (string \<times> string) option" where
  "match_month (a # b # rest) =
     (if a = CHR ''1'' \<and> b \<in> set ''012'' \<and> (case rest of c # _ \<Rightarrow> c = CHR ''-'' | [] \<Rightarrow> False)
        then Some ([a, b], rest)
      else if a = CHR ''0'' \<and> b \<in> set ''123456789''
              \<and> (case rest of c # _ \<Rightarrow> c = CHR ''-'' | [] \<Rightarrow> False)
        then Some ([a, b], rest)
      else if a \<in> set ''123456789'' \<and> b = CHR ''-'' then Some ([a], b # rest)
      else None)"
| "match_month s = None"

fun match_day :: "string \<Rightarrow> (string \<times> string) option" where
  "match_day (a # b # rest) =
     (if a = CHR ''3'' \<and> b \<in> set ''01'' then Some ([a, b], rest)
      else if a \<in> set ''12'' \<and> is_digit b then Some ([a, b], rest)
      else if a = CHR ''0'' \<and> b \<in> set ''123456789'' then Some ([a, b], rest)
      else if a \<in> set ''123456789'' then Some ([a], b # rest)
      else if a = CHR '' '' \<and> b \<in> set ''123456789'' then Some ([b], rest)
      else None)"
| "match_day [a] = (if a \<in> set ''123456789'' then Some ([a], []) else None)"
| "match_day [] = None"

definition match_ymd :: "string \<Rightarrow> (string \<times> string \<times> string \<times> string) option" where
  "match_ymd s =
     (let ys = take 4 s; r1 = drop 4 s in
      if length ys = 4 \<and> list_all is_digit ys \<and> (case r1 of c # _ \<Rightarrow> c = CHR ''-'' | [] \<Rightarrow> False)
      then (case match_month (tl r1) of
              None \<Rightarrow> None
            | Some (ms, r2) \<Rightarrow>
                (case match_day (tl r2) of
                   None \<Rightarrow> None
                 | Some (ds, r3) \<Rightarrow> Some (ys, ms, ds, r3)))
      else None)"

definition strptime_ymd :: "string \<Rightarrow> exn + datetime" where
  "strptime_ymd s =
     (case match_ymd s of
        None \<Rightarrow> Inl (ValueError (''time data '' @ py_repr s @ '' does not match format ''
                                  @ py_repr ''%Y-%m-%d''))
      | Some (ys, ms, ds, rest) \<Rightarrow>
          if rest \<noteq> [] then Inl (ValueError (''unconverted data remains: '' @ rest))
          else let y = int_of_digits ys; m = int_of_digits ms; d = int_of_digits ds
               in if y < 1 then Inl (ValueError (''year '' @ str_int y @ '' is out of range''))
                  else if d > days_in_month y m
                    then Inl (ValueError ''day is out of range for month'')
                  else Inr (midnight y m d))"

section \<open>tools.py: the date-difference tool\<close>

text \<open>
  \<open>get_time_difference(now_datetime, target_datetime)\<close>: both strings are parsed inside the
  \<open>try\<close>; \<open>except ValueError\<close> returns 0 and lets any other exception through.
\<close>

definition get_time_difference :: "string \<Rightarrow> string \<Rightarrow> exn + int" where
  "get_time_difference now_datetime target_datetime =
     (case strptime_ymd now_datetime of
        Inl e \<Rightarrow> if is_ValueError e then Inr 0 else Inl e
      | Inr now \<Rightarrow>
          (case strptime_ymd target_datetime of
             Inl e \<Rightarrow> if is_ValueError e then Inr 0 else Inl e
           | Inr target \<Rightarrow> Inr (days_between target now)))"

section \<open>The permit data model\<close>

text \<open>
  A permit document bundles permit entries under shared metadata. Every scalar property is
  a string and may be absent from the stored object (\<open>None\<close>).
\<close>

record permit =
  permitNumber :: "string option"
  issueDate :: "string option"
  expirationDate :: "string option"
  permitSummary :: "string option"
  installation :: "string option"

record document =
  documentTitle :: "string option"
  permitType :: "string option"
  organization :: "string option"
  filepath :: "string option"
  permits :: "permit list"

text \<open>A result row is a dictionary from property names to strings, in insertion order.\<close>

type_synonym row = "(string \<times> string) list"

definition row_get :: "row \<Rightarrow> string \<Rightarrow> string option" where
  "row_get r k = map_of r k"

text \<open>\<open>x.get(k, default)\<close>\<close>

definition get_or :: "row \<Rightarrow> string \<Rightarrow> string \<Rightarrow> string" where
  "get_or r k dflt = (case map_of r k of None \<Rightarrow> dflt | Some v \<Rightarrow> v)"

section \<open>The record store gateway\<close>

text \<open>
  The record store is an external service that receives a query text with named parameters.
  The query texts the permit code sends are represented by their syntax trees:
  \<^item> \<open>Select cols conds\<close> is \<open>SELECT cols FROM c JOIN p IN c.permits [WHERE conds joined by AND]\<close>;
  \<^item> \<open>CountJoin conds\<close> is \<open>SELECT VALUE COUNT(1) FROM c JOIN p IN c.permits [WHERE ...]\<close>;
  \<^item> \<open>GroupCount f\<close> is \<open>SELECT c.f, COUNT(1) as count FROM c GROUP BY c.f\<close>;
  \<^item> \<open>DistinctValue f\<close> is \<open>SELECT DISTINCT VALUE c.f FROM c WHERE IS_DEFINED(c.f)\<close>.
  A column is \<open>c.name\<close> (a property of the document) or \<open>p.name\<close> (a property of the joined
  permit entry). A condition on an absent property, or on a missing parameter, is not
  satisfied; a selected property that is absent is left out of the row.
\<close>

datatype column = C string | P string

datatype cmp = EQ | GE | LE | LT

datatype operand = Param string | Lit string

datatype cond =
    Compare column cmp operand
  | YearCompare column cmp string
  | ContainsLower column string

datatype pval = PStr string | PInt int

type_synonym params = "(string \<times> pval) list"

datatype query =
    Select "column list" "cond list"
  | CountJoin "cond list"
  | GroupCount string
  | DistinctValue string

fun cmp_holds :: "cmp \<Rightarrow> 'a::linorder \<Rightarrow> 'a \<Rightarrow> bool" where
  "cmp_holds EQ a b = (a = b)"
| "cmp_holds GE a b = (a \<ge> b)"
| "cmp_holds LE a b = (a \<le> b)"
| "cmp_holds LT a b = (a < b)"

definition doc_prop :: "document \<Rightarrow> string \<Rightarrow> string option" where
  "doc_prop c k =
     (if k = ''documentTitle'' then documentTitle c
      else if k = ''permitType'' then permitType c
      else if k = ''organization'' then organization c
      else if k = ''filepath'' then filepath c
      else None)"

definition permit_prop :: "permit \<Rightarrow> string \<Rightarrow> string option" where
  "permit_prop p k =
     (if k = ''permitNumber'' then permitNumber p
      else if k = ''issueDate'' then issueDate p
      else if k = ''expirationDate'' then expirationDate p
      else if k = ''permitSummary'' then permitSummary p
      else if k = ''installation'' then installation p
      else None)"

fun col_name :: "column \<Rightarrow> string" where
  "col_name (C k) = k"
| "col_name (P k) = k"

fun col_val :: "document \<Rightarrow> permit \<Rightarrow> column \<Rightarrow> string option" where
  "col_val c p (C k) = doc_prop c k"
| "col_val c p (P k) = permit_prop p k"

fun param_str :: "params \<Rightarrow> string \<Rightarrow> string option" where
  "param_str ps n = (case map_of ps n of Some (PStr s) \<Rightarrow> Some s | _ \<Rightarrow> None)"

fun param_int :: "params \<Rightarrow> string \<Rightarrow> int option" where
  "param_int ps n = (case map_of ps n of Some (PInt i) \<Rightarrow> Some i | _ \<Rightarrow> None)"

fun operand_val :: "params \<Rightarrow> operand \<Rightarrow> string option" where
  "operand_val ps (Param n) = param_str ps n"
| "operand_val ps (Lit s) = Some s"

text \<open>
  Modelled from the spec: the function \<open>YEAR\<close> of the query text is evaluated by the
  record store, which is not part of the repository; the spec reads \<open>YEAR(issueDate)\<close> as
  the year of the date string. A string that is not a date has no year.
\<close>

definition sql_YEAR :: "string \<Rightarrow> int option" where
  "sql_YEAR s = (case strptime_ymd s of Inl e \<Rightarrow> None | Inr t \<Rightarrow> Some (year t))"

text \<open>\<open>LOWER\<close> on ASCII letters, and \<open>CONTAINS(a, b)\<close>: b occurs in a as a contiguous run.\<close>

definition lower_char :: "char \<Rightarrow> char" where
  "lower_char c = (if CHR ''A'' \<le> c \<and> c \<le> CHR ''Z'' then char_of (of_char c + (32::nat)) else c)"

definition sql_LOWER :: "string \<Rightarrow> string" where
  "sql_LOWER s = map lower_char s"

fun starts_with :: "string \<Rightarrow> string \<Rightarrow> bool" where
  "starts_with s [] = True"
| "starts_with [] (y # ys) = False"
| "starts_with (x # xs) (y # ys) = (x = y \<and> starts_with xs ys)"

fun sql_CONTAINS :: "string \<Rightarrow> string \<Rightarrow> bool" where
  "sql_CONTAINS [] t = (t = [])"
| "sql_CONTAINS (x # xs) t = (starts_with (x # xs) t \<or> sql_CONTAINS xs t)"

fun cond_holds :: "params \<Rightarrow> document \<Rightarrow> permit \<Rightarrow> cond \<Rightarrow> bool" where
  "cond_holds ps c p (Compare col op rhs) =
     (case (col_val c p col, operand_val ps rhs) of
        (Some a, Some b) \<Rightarrow> cmp_holds op a b
      | _ \<Rightarrow> False)"
| "cond_holds ps c p (YearCompare col op n) =
     (case (Option.bind (col_val c p col) sql_YEAR, param_int ps n) of
        (Some a, Some b) \<Rightarrow> cmp_holds op a b
      | _ \<Rightarrow> False)"
| "cond_holds ps c p (ContainsLower col n) =
     (case (col_val c p col, param_str ps n) of
        (Some a, Some b) \<Rightarrow> sql_CONTAINS (sql_LOWER a) (sql_LOWER b)
      | _ \<Rightarrow> False)"

text \<open>\<open>FROM c JOIN p IN c.permits\<close>: one pair per permit entry, in document order.\<close>

definition join_permits :: "document list \<Rightarrow> (document \<times> permit) list" where
  "join_permits ds = concat (map (\<lambda>c. map (\<lambda>p. (c, p)) (permits c)) ds)"

definition project :: "column list \<Rightarrow> document \<times> permit \<Rightarrow> row" where
  "project cols cp =
     List.map_filter
       (\<lambda>col. map_option (\<lambda>v. (col_name col, v)) (col_val (fst cp) (snd cp) col)) cols"

definition matching :: "cond list \<Rightarrow> params \<Rightarrow> document list \<Rightarrow> (document \<times> permit) list" where
  "matching conds ps ds =
     filter (\<lambda>cp. list_all (cond_holds ps (fst cp) (snd cp)) conds) (join_permits ds)"

definition run_select :: "column list \<Rightarrow> cond list \<Rightarrow> params \<Rightarrow> document list \<Rightarrow> row list" where
  "run_select cols conds ps ds = map (project cols) (matching conds ps ds)"

definition run_count :: "cond list \<Rightarrow> params \<Rightarrow> document list \<Rightarrow> int list" where
  "run_count conds ps ds = [int (length (matching conds ps ds))]"

text \<open>
  \<open>GROUP BY c.f\<close>: one item per value of the property, in order of first occurrence, with
  the number of documents that carry it; the documents without the property form a group
  whose item has no such key.
\<close>

fun bump :: "'k \<Rightarrow> ('k \<times> int) list \<Rightarrow> ('k \<times> int) list" where
  "bump k [] = [(k, 1)]"
| "bump k ((k', n) # g) = (if k = k' then (k', n + 1) # g else (k', n) # bump k g)"

definition run_group :: "string \<Rightarrow> document list \<Rightarrow> (string option \<times> int) list" where
  "run_group f ds = foldl (\<lambda>g c. bump (doc_prop c f) g) [] ds"

definition run_distinct :: "string \<Rightarrow> document list \<Rightarrow> string list" where
  "run_distinct f ds = remdups (List.map_filter (\<lambda>c. doc_prop c f) ds)"

text \<open>
  A container handle stands for the stored documents and for the failures of the service:
  \<open>failure q ps = Some e\<close> when executing the query raises \<open>e\<close>.
\<close>

record container =
  docs :: "document list"
  failure :: "query \<Rightarrow> params \<Rightarrow> exn option"

section \<open>The world: environment, clock and the queries issued\<close>

record world =
  getenv :: "string \<Rightarrow> string option"
  cosmos_client :: "string \<Rightarrow> string \<Rightarrow> string \<Rightarrow> string \<Rightarrow> exn + container"
  clock :: "nat \<Rightarrow> datetime"
  ticks :: nat
  issued :: "(query \<times> params) list"

text \<open>\<open>datetime.now()\<close>: the next reading of the clock.\<close>

definition now :: "world \<Rightarrow> datetime \<times> world" where
  "now w = (clock w (ticks w), w\<lparr>ticks := Suc (ticks w)\<rparr>)"

text \<open>
  \<open>container.query_items(query=..., parameters=..., enable_cross_partition_query=True)\<close>
  followed by the iteration over its result: the query is issued, and either raises or
  yields its items.
\<close>

definition issue :: "container \<Rightarrow> query \<Rightarrow> params \<Rightarrow> world \<Rightarrow> exn option \<times> world" where
  "issue k q ps w = (failure k q ps, w\<lparr>issued := issued w @ [(q, ps)]\<rparr>)"

definition query_items :: "container \<Rightarrow> column list \<Rightarrow> cond list \<Rightarrow> params \<Rightarrow> world
    \<Rightarrow> (exn + row list) \<times> world" where
  "query_items k cols conds ps w =
     (case issue k (Select cols conds) ps w of
        (Some e, w') \<Rightarrow> (Inl e, w')
      | (None, w') \<Rightarrow> (Inr (run_select cols conds ps (docs k)), w'))"

definition query_count :: "container \<Rightarrow> cond list \<Rightarrow> params \<Rightarrow> world \<Rightarrow> (exn + int list) \<times> world" where
  "query_count k conds ps w =
     (case issue k (CountJoin conds) ps w of
        (Some e, w') \<Rightarrow> (Inl e, w')
      | (None, w') \<Rightarrow> (Inr (run_count conds ps (docs k)), w'))"

definition query_group :: "container \<Rightarrow> string \<Rightarrow> world
    \<Rightarrow> (exn + (string option \<times> int) list) \<times> world" where
  "query_group k f w =
     (case issue k (GroupCount f) [] w of
        (Some e, w') \<Rightarrow> (Inl e, w')
      | (None, w') \<Rightarrow> (Inr (run_group f (docs k)), w'))"

definition query_distinct :: "container \<Rightarrow> string \<Rightarrow> world \<Rightarrow> (exn + string list) \<times> world" where
  "query_distinct k f w =
     (case issue k (DistinctValue f) [] w of
        (Some e, w') \<Rightarrow> (Inl e, w')
      | (None, w') \<Rightarrow> (Inr (run_distinct f (docs k)), w'))"

section \<open>client/cosmos\_db.py: the container factory\<close>

text \<open>
  \<open>get_permit_container()\<close> raises ValueError unless the four environment variables are set
  and not empty; it then builds the client, which may fail in the service's own way.
\<close>

definition get_permit_container :: "world \<Rightarrow> (exn + container) \<times> world" where
  "get_permit_container w =
     (let uri = getenv w ''COSMOS_DB_URI'';
          key = getenv w ''COSMOS_DB_KEY'';
          database = getenv w ''COSMOS_DB_DATABASE'';
          container = getenv w ''COSMOS_DB_CONTAINER''
      in case (uri, key, database, container) of
           (Some u, Some k, Some d, Some c) \<Rightarrow>
             if u \<noteq> [] \<and> k \<noteq> [] \<and> d \<noteq> [] \<and> c \<noteq> []
             then (cosmos_client w u k d c, w)
             else (Inl (ValueError (''Permit Metadata CosmosDB not configured. ''
                    @ ''Set COSMOS_DB_URI, COSMOS_DB_KEY, COSMOS_DB_DATABASE, ''
                    @ ''and COSMOS_DB_CONTAINER in .env'')), w)
         | _ \<Rightarrow> (Inl (ValueError (''Permit Metadata CosmosDB not configured. ''
                    @ ''Set COSMOS_DB_URI, COSMOS_DB_KEY, COSMOS_DB_DATABASE, ''
                    @ ''and COSMOS_DB_CONTAINER in .env'')), w))"

text \<open>\<open>if container is None: container = get_permit_container()\<close>, before any \<open>try\<close>.\<close>

definition auto_initialize :: "container option \<Rightarrow> world \<Rightarrow> (exn + container) \<times> world" where
  "auto_initialize container w =
     (case container of None \<Rightarrow> get_permit_container w | Some k \<Rightarrow> (Inr k, w))"

section \<open>permit/queries.py: the query builder\<close>

text \<open>
  \<open>items.sort(key=k)\<close> and \<open>items.sort(key=k, reverse=True)\<close>: both are stable, the second
  keeps the original order of equal keys as well.
\<close>

definition py_sort :: "('a \<Rightarrow> 'k::linorder) \<Rightarrow> 'a list \<Rightarrow> 'a list" where
  "py_sort k items = sort_key k items"

definition py_sort_reverse :: "('a \<Rightarrow> 'k::linorder) \<Rightarrow> 'a list \<Rightarrow> 'a list" where
  "py_sort_reverse k items = rev (sort_key k (rev items))"

text \<open>The operator of the year condition: \<open>'greater'\<close>, \<open>'less'\<close>, anything else.\<close>

definition year_cmp :: "string \<Rightarrow> cmp" where
  "year_cmp operator =
     (if operator = ''greater'' then GE else if operator = ''less'' then LE else EQ)"

text \<open>
  The three optional filters append a condition and a parameter when their argument is
  truthy: \<open>if permit_type:\<close>, \<open>if operator and year:\<close>, \<open>if organization:\<close>.
\<close>

definition add_permit_type :: "string option \<Rightarrow> cond list \<times> params \<Rightarrow> cond list \<times> params" where
  "add_permit_type permit_type cp =
     (case permit_type of
        Some t \<Rightarrow>
          if t \<noteq> []
          then (fst cp @ [Compare (C ''permitType'') EQ (Param ''@permitType'')],
                snd cp @ [(''@permitType'', PStr t)])
          else cp
      | None \<Rightarrow> cp)"

definition add_year :: "string \<Rightarrow> string option \<Rightarrow> int option \<Rightarrow> cond list \<times> params
    \<Rightarrow> cond list \<times> params" where
  "add_year date_field operator year' cp =
     (case (operator, year') of
        (Some op, Some y) \<Rightarrow>
          if op \<noteq> [] \<and> y \<noteq> 0
          then (fst cp @ [YearCompare (P date_field) (year_cmp op) ''@year''],
                snd cp @ [(''@year'', PInt y)])
          else cp
      | _ \<Rightarrow> cp)"

definition add_organization :: "string option \<Rightarrow> cond list \<times> params \<Rightarrow> cond list \<times> params" where
  "add_organization organization' cp =
     (case organization' of
        Some org \<Rightarrow>
          if org \<noteq> []
          then (fst cp @ [Compare (C ''organization'') EQ (Param ''@organization'')],
                snd cp @ [(''@organization'', PStr org)])
          else cp
      | None \<Rightarrow> cp)"

text \<open>\<open>if order_by == 'latest': items.sort(..., reverse=True) else: items.sort(...)\<close>\<close>

definition sort_by_date :: "string \<Rightarrow> string \<Rightarrow> row list \<Rightarrow> row list" where
  "sort_by_date date_field order_by items =
     (if order_by = ''latest''
      then py_sort_reverse (\<lambda>x. get_or x date_field '''') items
      else py_sort (\<lambda>x. get_or x date_field '''') items)"

definition issue_year_cols :: "column list" where
  "issue_year_cols = [C ''documentTitle'', C ''permitType'', C ''organization'',
                      P ''issueDate'', P ''permitSummary'', P ''permitNumber'']"

definition query_documents_by_issue_year ::
  "container option \<Rightarrow> string option \<Rightarrow> int option \<Rightarrow> string option \<Rightarrow> string option \<Rightarrow> string
     \<Rightarrow> world \<Rightarrow> (exn + row list) \<times> world" where
  "query_documents_by_issue_year container permit_type year' organization' operator order_by w =
     (case auto_initialize container w of
        (Inl e, w1) \<Rightarrow> (Inl e, w1)
      | (Inr k, w1) \<Rightarrow>
          let cp = add_organization organization'
                     (add_year ''issueDate'' operator year'
                        (add_permit_type permit_type ([], [])))
          in case query_items k issue_year_cols (fst cp) (snd cp) w1 of
               (Inl e, w2) \<Rightarrow> (Inr [], w2)
             | (Inr items, w2) \<Rightarrow> (Inr (sort_by_date ''issueDate'' order_by items), w2))"

definition expiration_year_cols :: "column list" where
  "expiration_year_cols = [C ''documentTitle'', C ''permitType'', C ''organization'',
                           P ''expirationDate'', P ''permitSummary'', P ''permitNumber'']"

definition query_documents_by_expiration_year ::
  "container option \<Rightarrow> string option \<Rightarrow> int option \<Rightarrow> string option \<Rightarrow> string option \<Rightarrow> string
     \<Rightarrow> world \<Rightarrow> (exn + row list) \<times> world" where
  "query_documents_by_expiration_year container permit_type year' organization' operator order_by w =
     (case auto_initialize container w of
        (Inl e, w1) \<Rightarrow> (Inl e, w1)
      | (Inr k, w1) \<Rightarrow>
          let cp = add_organization organization'
                     (add_year ''expirationDate'' operator year'
                        (add_permit_type permit_type ([], [])))
          in case query_items k expiration_year_cols (fst cp) (snd cp) w1 of
               (Inl e, w2) \<Rightarrow> (Inr [], w2)
             | (Inr items, w2) \<Rightarrow> (Inr (sort_by_date ''expirationDate'' order_by items), w2))"

text \<open>The columns selected by the expired and expiring-soon queries.\<close>

definition expiry_cols :: "column list" where
  "expiry_cols = [C ''documentTitle'', C ''permitType'', C ''organization'', C ''filepath'',
                  P ''expirationDate'', P ''permitSummary'', P ''permitNumber'',
                  P ''installation'']"

text \<open>
  The fixed part of the expired query and its parameter:
  \<open>WHERE p.expirationDate < @currentDate AND c.permitType = 'PLO'\<close>.
\<close>

definition expired_where :: "string \<Rightarrow> cond list \<times> params" where
  "expired_where current_date =
     ([Compare (P ''expirationDate'') LT (Param ''@currentDate''),
       Compare (C ''permitType'') EQ (Lit ''PLO'')],
      [(''@currentDate'', PStr current_date)])"

text \<open>
  The fixed part of the expiring-soon query and its parameters:
  \<open>WHERE p.expirationDate >= @currentDate AND p.expirationDate <= @futureDate
  AND c.permitType = 'PLO'\<close>.
\<close>

definition expiring_where :: "string \<Rightarrow> string \<Rightarrow> cond list \<times> params" where
  "expiring_where current_date_str future_date =
     ([Compare (P ''expirationDate'') GE (Param ''@currentDate''),
       Compare (P ''expirationDate'') LE (Param ''@futureDate''),
       Compare (C ''permitType'') EQ (Lit ''PLO'')],
      [(''@currentDate'', PStr current_date_str),
       (''@futureDate'', PStr future_date)])"

definition query_expired_documents ::
  "container option \<Rightarrow> string option \<Rightarrow> string \<Rightarrow> world \<Rightarrow> (exn + row list) \<times> world" where
  "query_expired_documents container organization' order_by w =
     (case auto_initialize container w of
        (Inl e, w1) \<Rightarrow> (Inl e, w1)
      | (Inr k, w1) \<Rightarrow>
          (case now w1 of
             (t, w2) \<Rightarrow>
               let current_date = strftime_ymd t;
                   cp = add_organization organization' (expired_where current_date)
               in case query_items k expiry_cols (fst cp) (snd cp) w2 of
                    (Inl e, w3) \<Rightarrow> (Inr [], w3)
                  | (Inr items, w3) \<Rightarrow>
                      (Inr (sort_by_date ''expirationDate'' order_by items), w3)))"

text \<open>
  The clock is read twice in \<open>query_documents_expiring_soon\<close>; the second reading is
  overwritten at once by the first one plus \<open>days\<close>. The sum is computed before the \<open>try\<close>.
\<close>

definition query_documents_expiring_soon ::
  "container option \<Rightarrow> int \<Rightarrow> string option \<Rightarrow> string \<Rightarrow> world \<Rightarrow> (exn + row list) \<times> world" where
  "query_documents_expiring_soon container days organization' order_by w =
     (case auto_initialize container w of
        (Inl e, w1) \<Rightarrow> (Inl e, w1)
      | (Inr k, w1) \<Rightarrow>
          (case now w1 of
             (current_date, w2) \<Rightarrow>
               (case now w2 of
                  (discarded, w3) \<Rightarrow>
                    (case add_days current_date days of
                       Inl e \<Rightarrow> (Inl e, w3)
                     | Inr future \<Rightarrow>
                         let future_date = strftime_ymd future;
                             current_date_str = strftime_ymd current_date;
                             cp = add_organization organization'
                                    (expiring_where current_date_str future_date)
                         in case query_items k expiry_cols (fst cp) (snd cp) w3 of
                              (Inl e, w4) \<Rightarrow> (Inr [], w4)
                            | (Inr items, w4) \<Rightarrow>
                                (Inr (sort_by_date ''expirationDate'' order_by items), w4)))))"

text \<open>The default values of the keyword arguments, as the signatures give them.\<close>

definition default_order_by_issue_year :: string where
  "default_order_by_issue_year = ''latest''"

definition default_order_by_expiration_year :: string where
  "default_order_by_expiration_year = ''latest''"

definition default_order_by_expired :: string where
  "default_order_by_expired = ''latest''"

definition default_order_by_expiring_soon :: string where
  "default_order_by_expiring_soon = ''earliest''"

definition default_days_expiring_soon :: int where
  "default_days_expiring_soon = 30"

text \<open>
  A call may leave \<open>days\<close> and \<open>order_by\<close> out; the body then runs with the default of the
  signature. An argument left out is None below.
\<close>

definition keyword :: "'a \<Rightarrow> 'a option \<Rightarrow> 'a" where
  "keyword dflt arg = (case arg of None \<Rightarrow> dflt | Some v \<Rightarrow> v)"

definition issue_year_call ::
  "container option \<Rightarrow> string option \<Rightarrow> int option \<Rightarrow> string option \<Rightarrow> string option
     \<Rightarrow> string option \<Rightarrow> world \<Rightarrow> (exn + row list) \<times> world" where
  "issue_year_call container permit_type year' organization' operator order_by w =
     query_documents_by_issue_year container permit_type year' organization' operator
       (keyword default_order_by_issue_year order_by) w"

definition expiration_year_call ::
  "container option \<Rightarrow> string option \<Rightarrow> int option \<Rightarrow> string option \<Rightarrow> string option
     \<Rightarrow> string option \<Rightarrow> world \<Rightarrow> (exn + row list) \<times> world" where
  "expiration_year_call container permit_type year' organization' operator order_by w =
     query_documents_by_expiration_year container permit_type year' organization' operator
       (keyword default_order_by_expiration_year order_by) w"

definition expired_call ::
  "container option \<Rightarrow> string option \<Rightarrow> string option \<Rightarrow> world \<Rightarrow> (exn + row list) \<times> world" where
  "expired_call container organization' order_by w =
     query_expired_documents container organization' (keyword default_order_by_expired order_by) w"

definition expiring_soon_call ::
  "container option \<Rightarrow> int option \<Rightarrow> string option \<Rightarrow> string option \<Rightarrow> world
     \<Rightarrow> (exn + row list) \<times> world" where
  "expiring_soon_call container days organization' order_by w =
     query_documents_expiring_soon container (keyword default_days_expiring_soon days)
       organization' (keyword default_order_by_expiring_soon order_by) w"

text \<open>The columns selected by the permit-number and installation queries.\<close>

definition detail_cols :: "column list" where
  "detail_cols = [C ''documentTitle'', C ''permitType'', C ''organization'', C ''filepath'',
                  P ''issueDate'', P ''expirationDate'', P ''permitSummary'', P ''permitNumber'',
                  P ''installation'']"

definition query_permit_by_number ::
  "container option \<Rightarrow> string option \<Rightarrow> world \<Rightarrow> (exn + row option) \<times> world" where
  "query_permit_by_number container permit_number w =
     (case auto_initialize container w of
        (Inl e, w1) \<Rightarrow> (Inl e, w1)
      | (Inr k, w1) \<Rightarrow>
          (case permit_number of
             None \<Rightarrow> (Inr None, w1)
           | Some n \<Rightarrow>
               if n = [] then (Inr None, w1)
               else
                 (case query_items k detail_cols
                         [Compare (P ''permitNumber'') EQ (Param ''@permitNumber'')]
                         [(''@permitNumber'', PStr n)] w1 of
                    (Inl e, w2) \<Rightarrow> (Inr None, w2)
                  | (Inr items, w2) \<Rightarrow>
                      (case items of
                         x # rest \<Rightarrow> (Inr (Some x), w2)
                       | [] \<Rightarrow> (Inr None, w2)))))"

definition query_permits_by_installation ::
  "container option \<Rightarrow> string option \<Rightarrow> string option \<Rightarrow> world \<Rightarrow> (exn + row list) \<times> world" where
  "query_permits_by_installation container installation' permit_type w =
     (case auto_initialize container w of
        (Inl e, w1) \<Rightarrow> (Inl e, w1)
      | (Inr k, w1) \<Rightarrow>
          (case installation' of
             None \<Rightarrow> (Inr [], w1)
           | Some n \<Rightarrow>
               if n = [] then (Inr [], w1)
               else
                 let cp = add_permit_type permit_type
                            ([ContainsLower (P ''installation'') ''@installation''],
                             [(''@installation'', PStr n)])
                 in case query_items k detail_cols (fst cp) (snd cp) w1 of
                      (Inl e, w2) \<Rightarrow> (Inr [], w2)
                    | (Inr items, w2) \<Rightarrow> (Inr items, w2)))"

definition get_all_organizations ::
  "container option \<Rightarrow> world \<Rightarrow> (exn + string list) \<times> world" where
  "get_all_organizations container w =
     (case auto_initialize container w of
        (Inl e, w1) \<Rightarrow> (Inl e, w1)
      | (Inr k, w1) \<Rightarrow>
          (case query_distinct k ''organization'' w1 of
             (Inl e, w2) \<Rightarrow> (Inr [], w2)
           | (Inr organizations, w2) \<Rightarrow> (Inr (sort organizations), w2)))"

subsection \<open>Aggregate statistics\<close>

text \<open>
  The dictionary returned by \<open>get_permit_statistics\<close>; the keys \<open>generated_at\<close> and
  \<open>error\<close> are present in the success and in the failure dictionary respectively.
\<close>

record statistics =
  total_permits :: int
  expired_count :: int
  active_count :: int
  by_type :: "(string \<times> int) list"
  by_organization :: "(string \<times> int) list"
  generated_at :: "string option"
  error :: "string option"

text \<open>\<open>next(results, 0)\<close>\<close>

definition next_or_zero :: "int list \<Rightarrow> int" where
  "next_or_zero results = (case results of [] \<Rightarrow> 0 | x # rest \<Rightarrow> x)"

text \<open>
  \<open>{item[key]: item['count'] for item in results}\<close>: an item without the key raises
  KeyError; a key met again keeps its place and takes the new count.
\<close>

fun dict_of_groups :: "string \<Rightarrow> (string option \<times> int) list \<Rightarrow> (string \<times> int) list
    \<Rightarrow> exn + (string \<times> int) list" where
  "dict_of_groups key [] acc = Inr acc"
| "dict_of_groups key ((None, n) # items) acc = Inl (KeyError key)"
| "dict_of_groups key ((Some v, n) # items) acc = dict_of_groups key items (AList.update v n acc)"

definition failed_statistics :: "exn \<Rightarrow> statistics" where
  "failed_statistics e =
     \<lparr>total_permits = 0, expired_count = 0, active_count = 0, by_type = [],
      by_organization = [], generated_at = None, error = Some (str_of_exn e)\<rparr>"

definition get_permit_statistics :: "container option \<Rightarrow> world \<Rightarrow> (exn + statistics) \<times> world" where
  "get_permit_statistics container w =
     (case auto_initialize container w of
        (Inl e, w1) \<Rightarrow> (Inl e, w1)
      | (Inr k, w1) \<Rightarrow>
          (case now w1 of
             (t, w2) \<Rightarrow>
               let current_date = strftime_ymd t in
               case query_count k [] [] w2 of
                 (Inl e, w3) \<Rightarrow> (Inr (failed_statistics e), w3)
               | (Inr total_results, w3) \<Rightarrow>
                   let total_count = next_or_zero total_results in
                   case query_count k (fst (expired_where current_date))
                          (snd (expired_where current_date)) w3 of
                     (Inl e, w4) \<Rightarrow> (Inr (failed_statistics e), w4)
                   | (Inr expired_results, w4) \<Rightarrow>
                       let expired_count' = next_or_zero expired_results in
                       case query_group k ''permitType'' w4 of
                         (Inl e, w5) \<Rightarrow> (Inr (failed_statistics e), w5)
                       | (Inr type_results, w5) \<Rightarrow>
                           (case dict_of_groups ''permitType'' type_results [] of
                              Inl e \<Rightarrow> (Inr (failed_statistics e), w5)
                            | Inr by_type' \<Rightarrow>
                                (case query_group k ''organization'' w5 of
                                   (Inl e, w6) \<Rightarrow> (Inr (failed_statistics e), w6)
                                 | (Inr org_results, w6) \<Rightarrow>
                                     (case dict_of_groups ''organization'' org_results [] of
                                        Inl e \<Rightarrow> (Inr (failed_statistics e), w6)
                                      | Inr by_organization' \<Rightarrow>
                                          (case now w6 of
                                             (t', w7) \<Rightarrow>
                                               (Inr \<lparr>total_permits = total_count,
                                                     expired_count = expired_count',
                                                     active_count = total_count - expired_count',
                                                     by_type = by_type',
                                                     by_organization = by_organization',
                                                     generated_at = Some (isoformat t'),
                                                     error = None\<rparr>, w7)))))))"

section \<open>permit/tools.py: the permit-details tool\<close>

text \<open>
  \<open>str.strip()\<close>: white space is removed at both ends. Among the first 256 code points
  \<open>str.isspace\<close> holds of 9 to 13, 28 to 32, 133 and 160.
\<close>

definition is_space :: "char \<Rightarrow> bool" where
  "is_space c = (of_char c \<in> {9, 10, 11, 12, 13, 28, 29, 30, 31, 32, 133, 160 :: nat})"

definition py_strip :: "string \<Rightarrow> string" where
  "py_strip s = rev (dropWhile is_space (rev (dropWhile is_space s)))"

definition nl :: string where
  "nl = [CHR 10]"

text \<open>The f-string of \<open>get_permit_details\<close>, before \<open>strip\<close>.\<close>

definition details_text :: "string \<Rightarrow> row \<Rightarrow> string option \<Rightarrow> string \<Rightarrow> string \<Rightarrow> string" where
  "details_text permit_number permit expiry status days_info =
     nl @ ''Permit Details for '' @ permit_number @ '':'' @ nl
     @ nl
     @ ''Document Title: '' @ get_or permit ''documentTitle'' ''N/A'' @ nl
     @ ''Permit Type: '' @ get_or permit ''permitType'' ''N/A'' @ nl
     @ ''Organization: '' @ get_or permit ''organization'' ''N/A'' @ nl
     @ ''Installation: '' @ get_or permit ''installation'' ''N/A'' @ nl
     @ nl
     @ ''Issue Date: '' @ get_or permit ''issueDate'' ''N/A'' @ nl
     @ ''Expiration Date: ''
       @ (case expiry of Some e \<Rightarrow> if e \<noteq> [] then e else ''N/A'' | None \<Rightarrow> ''N/A'') @ nl
     @ ''Status: '' @ status @ '' '' @ days_info @ nl
     @ nl
     @ ''Summary:'' @ nl
     @ get_or permit ''permitSummary'' ''No summary available'' @ nl
     @ nl
     @ ''Document Path: '' @ get_or permit ''filepath'' ''N/A'' @ nl"

text \<open>
  The status derived from the days between the expiration date (at midnight) and now:
  \<open>if days_diff < 0 ... elif days_diff <= 30 ... else ...\<close>.
\<close>

definition derived_status :: "int \<Rightarrow> string \<times> string" where
  "derived_status days_diff =
     (if days_diff < 0 then (''Expired'', ''Expired '' @ str_int \<bar>days_diff\<bar> @ '' days ago'')
      else if days_diff \<le> 30
        then (''Expiring Soon'', ''Expires in '' @ str_int days_diff @ '' days'')
      else (''Active'', ''Expires in '' @ str_int days_diff @ '' days''))"

text \<open>
  \<open>get_permit_details(permit_number)\<close> queries through the module's container handle
  \<open>cosmos_container\<close>; every exception raised in its body becomes an error text.
\<close>

definition get_permit_details :: "container \<Rightarrow> string \<Rightarrow> world \<Rightarrow> string \<times> world" where
  "get_permit_details cosmos_container permit_number w =
     (case query_permit_by_number (Some cosmos_container) (Some permit_number) w of
        (Inl e, w1) \<Rightarrow> (''Error retrieving permit details: '' @ str_of_exn e, w1)
      | (Inr found, w1) \<Rightarrow>
          (case found of
             None \<Rightarrow> (''Permit '' @ py_repr permit_number @ '' not found in the database.'', w1)
           | Some permit \<Rightarrow>
               if permit = []
               then (''Permit '' @ py_repr permit_number @ '' not found in the database.'', w1)
               else
                 (case now w1 of
                    (current_date, w2) \<Rightarrow>
                      let expiry = row_get permit ''expirationDate'';
                          unchanged = py_strip (details_text permit_number permit expiry
                                                  ''Active'' '''')
                      in case expiry of
                           None \<Rightarrow> (unchanged, w2)
                         | Some e \<Rightarrow>
                             if e = [] then (unchanged, w2)
                             else
                               (case strptime_ymd e of
                                  Inl ex \<Rightarrow>
                                    (''Error retrieving permit details: '' @ str_of_exn ex, w2)
                                | Inr expiry_date \<Rightarrow>
                                    let days_diff = days_between expiry_date current_date;
                                        sd = derived_status days_diff
                                    in (py_strip (details_text permit_number permit expiry
                                                    (fst sd) (snd sd)), w2)))))"

section \<open>The operations of the query builder, taken together\<close>

text \<open>
  A call of one of the eight functions of queries.py with its arguments, and what it
  returns: a list of rows, one row or None, a list of names, or the statistics dictionary.
  The empty list of rows and the empty list of names are the same Python value.
\<close>

datatype operation =
    ByIssueYear "string option" "int option" "string option" "string option" string
  | ByExpirationYear "string option" "int option" "string option" "string option" string
  | Expired "string option" string
  | ExpiringSoon int "string option" string
  | ByNumber "string option"
  | ByInstallation "string option" "string option"
  | AllOrganizations
  | Statistics

datatype outcome =
    Rows "row list"
  | Found "row option"
  | Names "string list"
  | Stats statistics

fun returned :: "('a \<Rightarrow> outcome) \<Rightarrow> (exn + 'a) \<times> world \<Rightarrow> (exn + outcome) \<times> world" where
  "returned f (Inl e, w) = (Inl e, w)"
| "returned f (Inr x, w) = (Inr (f x), w)"

fun call :: "container option \<Rightarrow> operation \<Rightarrow> world \<Rightarrow> (exn + outcome) \<times> world" where
  "call container (ByIssueYear permit_type y org operator order_by) w =
     returned Rows (query_documents_by_issue_year container permit_type y org operator order_by w)"
| "call container (ByExpirationYear permit_type y org operator order_by) w =
     returned Rows
       (query_documents_by_expiration_year container permit_type y org operator order_by w)"
| "call container (Expired org order_by) w =
     returned Rows (query_expired_documents container org order_by w)"
| "call container (ExpiringSoon days org order_by) w =
     returned Rows (query_documents_expiring_soon container days org order_by w)"
| "call container (ByNumber permit_number) w =
     returned Found (query_permit_by_number container permit_number w)"
| "call container (ByInstallation inst permit_type) w =
     returned Rows (query_permits_by_installation container inst permit_type w)"
| "call container AllOrganizations w = returned Names (get_all_organizations container w)"
| "call container Statistics w = returned Stats (get_permit_statistics container w)"

text \<open>The result each function gives in its \<open>except Exception as e\<close> branch.\<close>

fun fallback :: "operation \<Rightarrow> exn \<Rightarrow> outcome" where
  "fallback (ByNumber permit_number) e = Found None"
| "fallback AllOrganizations e = Names []"
| "fallback Statistics e = Stats (failed_statistics e)"
| "fallback other e = Rows []"

fun is_empty_list :: "outcome \<Rightarrow> bool" where
  "is_empty_list (Rows items) = (items = [])"
| "is_empty_list (Names names) = (names = [])"
| "is_empty_list other = False"

text \<open>The queries a call has issued: what it appended to the log of the world.\<close>

definition issued_by :: "world \<Rightarrow> world \<Rightarrow> (query \<times> params) list" where
  "issued_by w w' = drop (length (issued w)) (issued w')"

text \<open>
  The exception raised by the date arithmetic of the expiring-soon query, which stands
  before its \<open>try\<close>.
\<close>

fun date_window_error :: "operation \<Rightarrow> world \<Rightarrow> exn option" where
  "date_window_error (ExpiringSoon days org order_by) w =
     (case add_days (clock w (ticks w)) days of Inl e \<Rightarrow> Some e | Inr future \<Rightarrow> None)"
| "date_window_error other w = None"

section \<open>Vocabulary of the stated properties\<close>

text \<open>
  The meaning the specification gives to the year operator: \<open>equal\<close> is equality,
  \<open>greater\<close> is greater-or-equal, \<open>less\<close> is less-or-equal.
\<close>

definition operator_meaning :: "string \<Rightarrow> int \<Rightarrow> int \<Rightarrow> bool" where
  "operator_meaning operator entry_year y =
     (if operator = ''equal'' then entry_year = y
      else if operator = ''greater'' then entry_year \<ge> y
      else if operator = ''less'' then entry_year \<le> y
      else False)"

text \<open>The date of each row, a missing date read as the empty string.\<close>

definition date_keys :: "string \<Rightarrow> row list \<Rightarrow> string list" where
  "date_keys date_field items =
     map (\<lambda>x. case row_get x date_field of None \<Rightarrow> [] | Some d \<Rightarrow> d) items"

definition non_increasing :: "string list \<Rightarrow> bool" where
  "non_increasing keys = sorted_wrt (\<lambda>a b. a \<ge> b) keys"

definition non_decreasing :: "string list \<Rightarrow> bool" where
  "non_decreasing keys = sorted_wrt (\<lambda>a b. a \<le> b) keys"

text \<open>
  The order the specification asks of a result list: non-increasing dates for \<open>latest\<close>,
  non-decreasing dates for \<open>earliest\<close>; rows without the date come first in the second
  case and last in the first.
\<close>

definition missing_first :: "string \<Rightarrow> row list \<Rightarrow> bool" where
  "missing_first date_field items =
     (\<forall>j < length items. row_get (items ! j) date_field = None
        \<longrightarrow> (\<forall>i < j. date_keys date_field items ! i = []))"

definition missing_last :: "string \<Rightarrow> row list \<Rightarrow> bool" where
  "missing_last date_field items =
     (\<forall>i < length items. row_get (items ! i) date_field = None
        \<longrightarrow> (\<forall>j < length items. i < j \<longrightarrow> date_keys date_field items ! j = []))"

definition ordered_by :: "string \<Rightarrow> string \<Rightarrow> row list \<Rightarrow> bool" where
  "ordered_by order_by date_field items =
     ((order_by = ''latest'' \<longrightarrow>
         non_increasing (date_keys date_field items) \<and> missing_last date_field items)
      \<and> (order_by = ''earliest'' \<longrightarrow>
         non_decreasing (date_keys date_field items) \<and> missing_first date_field items))"

text \<open>
  The entries the specification asks of the expiring-soon query: entries of PLO documents
  whose expiration date lies between the two bounds, both included, of the organization
  when one is given.
\<close>

definition expiring_entry :: "string \<Rightarrow> string \<Rightarrow> string option \<Rightarrow> document \<times> permit \<Rightarrow> bool" where
  "expiring_entry current_date future_date org cp =
     (permitType (fst cp) = Some ''PLO''
      \<and> (case expirationDate (snd cp) of
            None \<Rightarrow> False
          | Some e \<Rightarrow> current_date \<le> e \<and> e \<le> future_date)
      \<and> (if truthy_str org then organization (fst cp) = org else True))"

text \<open>
  The same window read on calendar days: the day of \<open>e\<close> is not before the day of
  \<open>current_date\<close> and at most \<open>days\<close> days after it.
\<close>

definition in_window :: "datetime \<Rightarrow> int \<Rightarrow> datetime \<Rightarrow> bool" where
  "in_window current_date days e =
     (toordinal current_date \<le> toordinal e \<and> toordinal e \<le> toordinal current_date + days)"

text \<open>
  A valid date in the form \<open>YYYY-MM-DD\<close>, as the specification words it: four digits, a
  hyphen, two digits, a hyphen, two digits, which name a day of the calendar; and the day
  such a text names.
\<close>

definition is_YYYY_MM_DD :: "string \<Rightarrow> bool" where
  "is_YYYY_MM_DD s =
     (length s = 10
      \<and> list_all is_digit (take 4 s) \<and> s ! 4 = CHR ''-''
      \<and> list_all is_digit (take 2 (drop 5 s)) \<and> s ! 7 = CHR ''-''
      \<and> list_all is_digit (drop 8 s)
      \<and> valid_date (int_of_digits (take 4 s)) (int_of_digits (take 2 (drop 5 s)))
            (int_of_digits (drop 8 s)))"

definition date_of :: "string \<Rightarrow> datetime" where
  "date_of s =
     midnight (int_of_digits (take 4 s)) (int_of_digits (take 2 (drop 5 s)))
       (int_of_digits (drop 8 s))"

text \<open>
  The entries the specification asks of the installation query: the installation contains
  the searched text as a contiguous run, letter case ignored; the permit type is the
  requested one when one is given.
\<close>

definition installation_match :: "string \<Rightarrow> string option \<Rightarrow> document \<times> permit \<Rightarrow> bool" where
  "installation_match needle pt cp =
     ((case installation (snd cp) of
         None \<Rightarrow> False
       | Some i \<Rightarrow> sublist (sql_LOWER needle) (sql_LOWER i))
      \<and> (if truthy_str pt then permitType (fst cp) = pt else True))"

text \<open>The conditions and parameters of the installation query.\<close>

definition installation_where :: "string \<Rightarrow> string option \<Rightarrow> cond list \<times> params" where
  "installation_where n pt =
     add_permit_type pt ([ContainsLower (P ''installation'') ''@installation''],
                         [(''@installation'', PStr n)])"

text \<open>The lines of the permit details that precede the expiration date.\<close>

definition details_head :: "string \<Rightarrow> row \<Rightarrow> string" where
  "details_head permit_number permit =
     ''Permit Details for '' @ permit_number @ '':'' @ nl
     @ nl
     @ ''Document Title: '' @ get_or permit ''documentTitle'' ''N/A'' @ nl
     @ ''Permit Type: '' @ get_or permit ''permitType'' ''N/A'' @ nl
     @ ''Organization: '' @ get_or permit ''organization'' ''N/A'' @ nl
     @ ''Installation: '' @ get_or permit ''installation'' ''N/A'' @ nl
     @ nl
     @ ''Issue Date: '' @ get_or permit ''issueDate'' ''N/A'' @ nl"

text \<open>The world after one more query has been issued.\<close>

definition logged :: "world \<Rightarrow> query \<Rightarrow> params \<Rightarrow> world" where
  "logged w q ps = w\<lparr>issued := issued w @ [(q, ps)]\<rparr>"

text \<open>
  What a row query returns inside its \<open>try\<close>: the empty list when the gateway raises, the
  selected rows after \<open>f\<close> (the sort) otherwise.
\<close>

definition answer :: "container \<Rightarrow> column list \<Rightarrow> cond list \<times> params \<Rightarrow> (row list \<Rightarrow> row list)
    \<Rightarrow> row list" where
  "answer k cols cp f =
     (case failure k (Select cols (fst cp)) (snd cp) of
        Some e \<Rightarrow> []
      | None \<Rightarrow> f (run_select cols (fst cp) (snd cp) (docs k)))"

subsection \<open>A small store, used to instantiate the theorems\<close>

definition docs0 :: "document list" where
  "docs0 =
     [\<lparr>documentTitle = Some ''Pipeline A'', permitType = Some ''PLO'',
       organization = Some ''PPN'', filepath = Some ''plo/a.pdf'',
       permits = [\<lparr>permitNumber = Some ''PLO-2024-001'', issueDate = Some ''2024-03-01'',
                   expirationDate = Some ''2025-12-05'', permitSummary = Some ''Pipe one'',
                   installation = Some ''IT Semarang Refinery''\<rparr>,
                  \<lparr>permitNumber = Some ''PLO-2021-007'', issueDate = Some ''2021-06-15'',
                   expirationDate = Some ''2025-06-14'', permitSummary = Some ''Pipe two'',
                   installation = Some ''IT Jakarta''\<rparr>]\<rparr>,
      \<lparr>documentTitle = Some ''Site B'', permitType = Some ''KKPR/KKPRL'',
       organization = Some ''PGN'', filepath = Some ''kkpr/b.pdf'',
       permits = [\<lparr>permitNumber = Some ''KKPR-2023-010'', issueDate = Some ''2023-09-09'',
                   expirationDate = None, permitSummary = Some ''Site use'',
                   installation = Some ''IT Semarang''\<rparr>]\<rparr>]"

definition store0 :: container where
  "store0 = \<lparr>docs = docs0, failure = (\<lambda>q ps. None)\<rparr>"

definition broken0 :: container where
  "broken0 = \<lparr>docs = docs0, failure = (\<lambda>q ps. Some (ServiceError ''Service Unavailable''))\<rparr>"

text \<open>A store with expiration dates on and around the bounds of a 30-day window.\<close>

definition docs1 :: "document list" where
  "docs1 =
     [\<lparr>documentTitle = Some ''Pipeline C'', permitType = Some ''PLO'',
       organization = Some ''KPI'', filepath = Some ''plo/c.pdf'',
       permits = [\<lparr>permitNumber = Some ''PLO-1'', issueDate = Some ''2020-01-01'',
                   expirationDate = Some ''2025-12-21'', permitSummary = None,
                   installation = None\<rparr>,
                  \<lparr>permitNumber = Some ''PLO-2'', issueDate = Some ''2020-01-02'',
                   expirationDate = Some ''2025-12-20'', permitSummary = None,
                   installation = None\<rparr>,
                  \<lparr>permitNumber = Some ''PLO-3'', issueDate = Some ''2020-01-03'',
                   expirationDate = Some ''2025-11-20'', permitSummary = None,
                   installation = None\<rparr>,
                  \<lparr>permitNumber = Some ''PLO-4'', issueDate = Some ''2020-01-04'',
                   expirationDate = Some ''2025-11-19'', permitSummary = None,
                   installation = None\<rparr>]\<rparr>]"

definition store1 :: container where
  "store1 = \<lparr>docs = docs1, failure = (\<lambda>q ps. None)\<rparr>"

text \<open>A store in which every document holds one entry.\<close>

definition store2 :: container where
  "store2 = \<lparr>docs = [docs0 ! 1], failure = (\<lambda>q ps. None)\<rparr>"

text \<open>A world without configuration, on 20 November 2025 at 09:30.\<close>

definition world0 :: world where
  "world0 = \<lparr>getenv = (\<lambda>n. None),
             cosmos_client = (\<lambda>u k d c. Inr store0),
             clock = (\<lambda>i. \<lparr>year = 2025, month = 11, day = 20, hour = 9, minute = 30,
                            second = 0, microsecond = 0\<rparr>),
             ticks = 0, issued = []\<rparr>"

section \<open>Properties of the permit query layer\<close>

subsection \<open>Decimal digits and zero padding\<close>

lemma digit_char_zero: "CHR ''0'' = digit_char 0"
  by code_simp

lemma of_char_digit_char: "d < 10 \<Longrightarrow> (of_char (digit_char d) :: nat) = 48 + d"
  by (simp add: digit_char_def)

lemma digit_char_less: "a < 10 \<Longrightarrow> b < 10 \<Longrightarrow> digit_char a < digit_char b \<longleftrightarrow> a < b"
  by (simp add: less_char_def of_char_digit_char)

lemma digit_char_eq: "a < 10 \<Longrightarrow> b < 10 \<Longrightarrow> digit_char a = digit_char b \<longleftrightarrow> a = b"
  by (metis of_char_digit_char add_left_cancel)

lemma replicate_small:
  "replicate 2 x = [x, x]" "replicate 3 x = [x, x, x]"
  by (simp_all add: numeral_2_eq_2 numeral_3_eq_3)

lemma str_nat_one: "n < 10 \<Longrightarrow> str_nat n = [digit_char n]"
  by (simp add: str_nat.simps [of n])

lemma str_nat_more: "10 \<le> n \<Longrightarrow> str_nat n = str_nat (n div 10) @ [digit_char (n mod 10)]"
  by (simp add: str_nat.simps [of n])

lemma zfill2: "n < 100 \<Longrightarrow> zfill 2 n = [digit_char (n div 10), digit_char (n mod 10)]"
proof (cases "n < 10")
  case True
  then show ?thesis
    by (simp add: zfill_def str_nat_one digit_char_zero replicate_small)
next
  case False
  assume "n < 100"
  with False have "n div 10 < 10" by simp
  with False show ?thesis
    by (simp add: zfill_def str_nat_more str_nat_one)
qed

lemma zfill4:
  assumes "n < 10000"
  shows "zfill 4 n = [digit_char (n div 1000), digit_char (n div 100 mod 10),
                      digit_char (n div 10 mod 10), digit_char (n mod 10)]"
proof -
  consider "n < 10" | "10 \<le> n" "n < 100" | "100 \<le> n" "n < 1000" | "1000 \<le> n"
    by linarith
  then show ?thesis
  proof cases
    case 1
    then show ?thesis by (simp add: zfill_def str_nat_one digit_char_zero replicate_small)
  next
    case 2
    then have "n div 10 < 10" by simp
    with 2 show ?thesis
      by (simp add: zfill_def str_nat_more str_nat_one digit_char_zero replicate_small)
  next
    case 3
    then have a: "10 \<le> n" "10 \<le> n div 10" "n div 10 div 10 < 10" by simp_all
    have h: "n div 10 div 10 = n div 100" by (simp add: div_mult2_eq [symmetric])
    have "str_nat n = str_nat (n div 10) @ [digit_char (n mod 10)]"
      using a(1) by (rule str_nat_more)
    also have "str_nat (n div 10) = str_nat (n div 10 div 10) @ [digit_char (n div 10 mod 10)]"
      using a(2) by (rule str_nat_more)
    also have "str_nat (n div 10 div 10) = [digit_char (n div 10 div 10)]"
      using a(3) by (rule str_nat_one)
    finally have "str_nat n = [digit_char (n div 100), digit_char (n div 10 mod 10),
                               digit_char (n mod 10)]"
      by (simp add: h)
    with 3 show ?thesis
      by (simp add: zfill_def digit_char_zero)
  next
    case 4
    with assms have a: "10 \<le> n" "10 \<le> n div 10" "10 \<le> n div 10 div 10"
      "n div 10 div 10 div 10 < 10"
      by simp_all
    have h: "n div 10 div 10 = n div 100" "n div 100 div 10 = n div 1000"
      by (simp_all add: div_mult2_eq [symmetric])
    have "str_nat n = str_nat (n div 10) @ [digit_char (n mod 10)]"
      using a(1) by (rule str_nat_more)
    also have "str_nat (n div 10) = str_nat (n div 10 div 10) @ [digit_char (n div 10 mod 10)]"
      using a(2) by (rule str_nat_more)
    also have "str_nat (n div 10 div 10)
                 = str_nat (n div 10 div 10 div 10) @ [digit_char (n div 10 div 10 mod 10)]"
      using a(3) by (rule str_nat_more)
    also have "str_nat (n div 10 div 10 div 10) = [digit_char (n div 10 div 10 div 10)]"
      using a(4) by (rule str_nat_one)
    finally have "str_nat n = [digit_char (n div 1000), digit_char (n div 100 mod 10),
                               digit_char (n div 10 mod 10), digit_char (n mod 10)]"
      by (simp add: h)
    then show ?thesis
      by (simp add: zfill_def)
  qed
qed

lemma str_nat4:
  assumes "1000 \<le> n" "n < 10000"
  shows "str_nat n = zfill 4 n"
proof -
  have "length (str_nat n) = 4"
  proof -
    from assms have a: "10 \<le> n" "10 \<le> n div 10" "10 \<le> n div 10 div 10"
      "n div 10 div 10 div 10 < 10"
      by simp_all
    have "str_nat n = str_nat (n div 10) @ [digit_char (n mod 10)]"
      using a(1) by (rule str_nat_more)
    also have "str_nat (n div 10) = str_nat (n div 10 div 10) @ [digit_char (n div 10 mod 10)]"
      using a(2) by (rule str_nat_more)
    also have "str_nat (n div 10 div 10)
                 = str_nat (n div 10 div 10 div 10) @ [digit_char (n div 10 div 10 mod 10)]"
      using a(3) by (rule str_nat_more)
    also have "str_nat (n div 10 div 10 div 10) = [digit_char (n div 10 div 10 div 10)]"
      using a(4) by (rule str_nat_one)
    finally show ?thesis by simp
  qed
  then show ?thesis by (simp add: zfill_def)
qed

lemma by_digits:
  fixes n m :: nat
  shows "n \<le> m \<longleftrightarrow> n div 10 < m div 10 \<or> (n div 10 = m div 10 \<and> n mod 10 \<le> m mod 10)"
    and "n < m \<longleftrightarrow> n div 10 < m div 10 \<or> (n div 10 = m div 10 \<and> n mod 10 < m mod 10)"
    and "n = m \<longleftrightarrow> n div 10 = m div 10 \<and> n mod 10 = m mod 10"
proof -
  define q where "q = n div 10"
  define r where "r = n mod 10"
  define q' where "q' = m div 10"
  define r' where "r' = m mod 10"
  have n: "n = 10 * q + r" "r < 10" by (simp_all add: q_def r_def)
  have m: "m = 10 * q' + r'" "r' < 10" by (simp_all add: q'_def r'_def)
  show "n \<le> m \<longleftrightarrow> n div 10 < m div 10 \<or> (n div 10 = m div 10 \<and> n mod 10 \<le> m mod 10)"
    unfolding q_def [symmetric] r_def [symmetric] q'_def [symmetric] r'_def [symmetric]
    using n m by linarith
  show "n < m \<longleftrightarrow> n div 10 < m div 10 \<or> (n div 10 = m div 10 \<and> n mod 10 < m mod 10)"
    unfolding q_def [symmetric] r_def [symmetric] q'_def [symmetric] r'_def [symmetric]
    using n m by linarith
  show "n = m \<longleftrightarrow> n div 10 = m div 10 \<and> n mod 10 = m mod 10"
    by (metis div_mult_mod_eq)
qed

lemma lex_append:
  fixes xs ys :: "'a::linorder list"
  assumes "length xs = length ys"
  shows "xs @ u \<le> ys @ v \<longleftrightarrow> xs < ys \<or> (xs = ys \<and> u \<le> v)"
  using assms by (induction xs ys rule: list_induct2) auto

lemma zfill2_order:
  assumes "n < 100" "m < 100"
  shows "zfill 2 n < zfill 2 m \<longleftrightarrow> n < m" and "zfill 2 n = zfill 2 m \<longleftrightarrow> n = m"
proof -
  from assms have d: "n div 10 < 10" "m div 10 < 10" "n mod 10 < 10" "m mod 10 < 10" by simp_all
  show "zfill 2 n < zfill 2 m \<longleftrightarrow> n < m"
    unfolding zfill2 [OF assms(1)] zfill2 [OF assms(2)] by_digits(2) [of n m]
    using d by (simp add: digit_char_less digit_char_eq)
  show "zfill 2 n = zfill 2 m \<longleftrightarrow> n = m"
    unfolding zfill2 [OF assms(1)] zfill2 [OF assms(2)] by_digits(3) [of n m]
    using d by (simp add: digit_char_eq)
qed

lemma zfill2_le:
  assumes "n < 100" "m < 100"
  shows "zfill 2 n \<le> zfill 2 m \<longleftrightarrow> n \<le> m"
  using zfill2_order [OF assms] by (auto simp: le_less)

lemma zfill4_order:
  assumes "n < 10000" "m < 10000"
  shows "zfill 4 n < zfill 4 m \<longleftrightarrow> n < m" and "zfill 4 n = zfill 4 m \<longleftrightarrow> n = m"
proof -
  have h: "n div 10 div 10 = n div 100" "n div 100 div 10 = n div 1000"
    "m div 10 div 10 = m div 100" "m div 100 div 10 = m div 1000"
    by (simp_all add: div_mult2_eq [symmetric])
  from assms have d: "n div 1000 < 10" "m div 1000 < 10" "n div 100 mod 10 < 10"
    "m div 100 mod 10 < 10" "n div 10 mod 10 < 10" "m div 10 mod 10 < 10" "n mod 10 < 10"
    "m mod 10 < 10"
    by simp_all
  have lt: "n < m \<longleftrightarrow>
      n div 1000 < m div 1000 \<or> (n div 1000 = m div 1000 \<and>
        (n div 100 mod 10 < m div 100 mod 10 \<or> (n div 100 mod 10 = m div 100 mod 10 \<and>
          (n div 10 mod 10 < m div 10 mod 10 \<or> (n div 10 mod 10 = m div 10 mod 10 \<and>
            n mod 10 < m mod 10)))))"
    using by_digits(2) [of n m] by_digits(2,3) [of "n div 10" "m div 10"]
      by_digits(2,3) [of "n div 100" "m div 100"]
    unfolding h by blast
  have eq: "n = m \<longleftrightarrow>
      n div 1000 = m div 1000 \<and> n div 100 mod 10 = m div 100 mod 10
        \<and> n div 10 mod 10 = m div 10 mod 10 \<and> n mod 10 = m mod 10"
    using by_digits(3) [of n m] by_digits(3) [of "n div 10" "m div 10"]
      by_digits(3) [of "n div 100" "m div 100"]
    unfolding h by blast
  show "zfill 4 n < zfill 4 m \<longleftrightarrow> n < m"
    unfolding zfill4 [OF assms(1)] zfill4 [OF assms(2)] lt
    using d by (simp add: digit_char_less digit_char_eq)
  show "zfill 4 n = zfill 4 m \<longleftrightarrow> n = m"
    unfolding zfill4 [OF assms(1)] zfill4 [OF assms(2)] eq
    using d by (simp add: digit_char_eq)
qed

subsection \<open>Well-formed date strings are parsed\<close>

lemma is_digit_char:
  assumes "is_digit c"
  obtains d where "d < 10" "c = digit_char d" "digit_val c = int d"
proof -
  define n where "n = (of_char c :: nat)"
  from assms have b: "48 \<le> n" "n \<le> 57"
    by (simp_all add: is_digit_def less_eq_char_def n_def)
  have "c = char_of n" by (simp add: n_def)
  with b have "c = digit_char (n - 48)" by (simp add: digit_char_def)
  moreover have "digit_val c = int (n - 48)" using b by (simp add: digit_val_def n_def)
  moreover have "n - 48 < 10" using b by simp
  ultimately show ?thesis using that by blast
qed

lemma list10:
  assumes "length s = 10"
  obtains a b c d e f g h i j where "s = [a, b, c, d, e, f, g, h, i, j]"
proof -
  from assms have "\<exists>a b c d e f g h i j. s = [a, b, c, d, e, f, g, h, i, j]"
    by (auto simp: length_Suc_conv eval_nat_numeral)
  then show ?thesis using that by blast
qed

lemma two_digits:
  assumes "p < 10" "q < 10"
  shows "[digit_char p, digit_char q] = zfill 2 (10 * p + q)"
proof -
  have "10 * p + q < 100" using assms by simp
  moreover have "(10 * p + q) div 10 = p" "(10 * p + q) mod 10 = q" using assms by simp_all
  ultimately show ?thesis by (simp add: zfill2)
qed

lemma months_match:
  "list_all (\<lambda>m. hd (zfill 2 m) = CHR ''1'' \<and> zfill 2 m ! 1 \<in> set ''012''
                 \<or> hd (zfill 2 m) = CHR ''0'' \<and> zfill 2 m ! 1 \<in> set ''123456789'') [1..<13]"
  by code_simp

lemma days_match:
  "list_all (\<lambda>d. match_day (zfill 2 d) = Some (zfill 2 d, [])) [1..<32]"
  by code_simp

lemma match_month_two:
  assumes "p < 10" "q < 10" "1 \<le> 10 * p + q" "10 * p + q \<le> 12"
  shows "match_month (digit_char p # digit_char q # CHR ''-'' # rest)
           = Some ([digit_char p, digit_char q], CHR ''-'' # rest)"
proof -
  from assms(3,4) have "10 * p + q \<in> set [1..<13]" by simp
  with months_match
  have "hd (zfill 2 (10 * p + q)) = CHR ''1'' \<and> zfill 2 (10 * p + q) ! 1 \<in> set ''012''
        \<or> hd (zfill 2 (10 * p + q)) = CHR ''0'' \<and> zfill 2 (10 * p + q) ! 1 \<in> set ''123456789''"
    unfolding list_all_iff by blast
  then have "digit_char p = CHR ''1'' \<and> digit_char q \<in> set ''012''
        \<or> digit_char p = CHR ''0'' \<and> digit_char q \<in> set ''123456789''"
    unfolding two_digits [OF assms(1,2), symmetric] by simp
  then show ?thesis
  proof
    assume "digit_char p = CHR ''1'' \<and> digit_char q \<in> set ''012''"
    then show ?thesis by (simp del: set_simps)
  next
    assume a: "digit_char p = CHR ''0'' \<and> digit_char q \<in> set ''123456789''"
    then have "digit_char p \<noteq> CHR ''1''" by simp
    with a show ?thesis by (simp del: set_simps)
  qed
qed

lemma match_day_two:
  assumes "p < 10" "q < 10" "1 \<le> 10 * p + q" "10 * p + q \<le> 31"
  shows "match_day [digit_char p, digit_char q] = Some ([digit_char p, digit_char q], [])"
proof -
  from assms(3,4) have "10 * p + q \<in> set [1..<32]" by simp
  with days_match
  have "match_day (zfill 2 (10 * p + q)) = Some (zfill 2 (10 * p + q), [])"
    unfolding list_all_iff by blast
  then show ?thesis unfolding two_digits [OF assms(1,2), symmetric] .
qed

lemma days_in_month_le: "1 \<le> m \<Longrightarrow> m \<le> 12 \<Longrightarrow> days_in_month y m \<le> 31"
proof -
  assume "1 \<le> m" "m \<le> 12"
  then have "m = 1 \<or> m = 2 \<or> m = 3 \<or> m = 4 \<or> m = 5 \<or> m = 6 \<or> m = 7 \<or> m = 8 \<or> m = 9
             \<or> m = 10 \<or> m = 11 \<or> m = 12"
    by arith
  then show ?thesis
    by (auto simp: days_in_month_def DAYS_IN_MONTH_def)
qed

lemma strptime_ymd_accepts:
  assumes "is_YYYY_MM_DD s"
  shows "strptime_ymd s = Inr (date_of s)"
proof -
  from assms have "length s = 10" by (simp add: is_YYYY_MM_DD_def)
  then obtain a b c d e f g h i j where s0: "s = [a, b, c, d, e, f, g, h, i, j]"
    by (rule list10)
  from assms have hy: "e = CHR ''-''" "h = CHR ''-''"
    by (simp_all add: is_YYYY_MM_DD_def s0)
  from s0 hy have s: "s = [a, b, c, d, CHR ''-'', f, g, CHR ''-'', i, j]" by simp
  from assms have dig: "is_digit a" "is_digit b" "is_digit c" "is_digit d"
      "is_digit f" "is_digit g" "is_digit i" "is_digit j"
    by (simp_all add: is_YYYY_MM_DD_def s)
  from assms
  have v: "valid_date (int_of_digits [a, b, c, d]) (int_of_digits [f, g]) (int_of_digits [i, j])"
    by (simp add: is_YYYY_MM_DD_def s)
  obtain p where p: "p < 10" "f = digit_char p" "digit_val f = int p"
    using dig(5) by (rule is_digit_char)
  obtain q where q: "q < 10" "g = digit_char q" "digit_val g = int q"
    using dig(6) by (rule is_digit_char)
  obtain r where r: "r < 10" "i = digit_char r" "digit_val i = int r"
    using dig(7) by (rule is_digit_char)
  obtain t where t: "t < 10" "j = digit_char t" "digit_val j = int t"
    using dig(8) by (rule is_digit_char)
  have m: "int_of_digits [f, g] = int (10 * p + q)"
    using p(3) q(3) by (simp add: int_of_digits_def)
  have dd: "int_of_digits [i, j] = int (10 * r + t)"
    using r(3) t(3) by (simp add: int_of_digits_def)
  from v have vm: "1 \<le> int_of_digits [f, g]" "int_of_digits [f, g] \<le> 12"
    and vd: "1 \<le> int_of_digits [i, j]"
      "int_of_digits [i, j]
         \<le> days_in_month (int_of_digits [a, b, c, d]) (int_of_digits [f, g])"
    and vy: "1 \<le> int_of_digits [a, b, c, d]"
    by (simp_all add: valid_date_def)
  from vm have mb: "1 \<le> 10 * p + q" "10 * p + q \<le> 12"
    unfolding m by linarith+
  from vm have "days_in_month (int_of_digits [a, b, c, d]) (int_of_digits [f, g]) \<le> 31"
    by (rule days_in_month_le)
  with vd have db: "1 \<le> 10 * r + t" "10 * r + t \<le> 31"
    unfolding dd by linarith+
  have mm: "match_month [f, g, CHR ''-'', i, j] = Some ([f, g], [CHR ''-'', i, j])"
    unfolding p(2) q(2) by (rule match_month_two [OF p(1) q(1) mb])
  have md: "match_day [i, j] = Some ([i, j], [])"
    unfolding r(2) t(2) by (rule match_day_two [OF r(1) t(1) db])
  have "match_ymd s = Some ([a, b, c, d], [f, g], [i, j], [])"
    unfolding match_ymd_def s Let_def
    by (simp add: dig mm md del: match_month.simps match_day.simps)
  then have "strptime_ymd s
               = (if int_of_digits [a, b, c, d] < 1
                  then Inl (ValueError (''year '' @ str_int (int_of_digits [a, b, c, d])
                                          @ '' is out of range''))
                  else if int_of_digits [i, j]
                            > days_in_month (int_of_digits [a, b, c, d]) (int_of_digits [f, g])
                    then Inl (ValueError ''day is out of range for month'')
                  else Inr (midnight (int_of_digits [a, b, c, d]) (int_of_digits [f, g])
                              (int_of_digits [i, j])))"
    by (simp add: strptime_ymd_def Let_def)
  also have "\<dots> = Inr (midnight (int_of_digits [a, b, c, d]) (int_of_digits [f, g])
                              (int_of_digits [i, j]))"
    using vy vd by simp
  also have "\<dots> = Inr (date_of s)"
    unfolding date_of_def s by simp
  finally show ?thesis .
qed

lemma days_between_midnight:
  "days_between (midnight y m d) (midnight y' m' d')
     = toordinal (midnight y m d) - toordinal (midnight y' m' d')"
proof -
  have "to_microseconds (midnight y m d) = toordinal (midnight y m d) * 86400000000" for y m d
    by (simp add: to_microseconds_def midnight_def)
  then have "days_between (midnight y m d) (midnight y' m' d')
               = ((toordinal (midnight y m d) - toordinal (midnight y' m' d')) * 86400000000)
                   div 86400000000"
    by (simp only: days_between_def left_diff_distrib)
  then show ?thesis by simp
qed

lemma time_difference_of_dates:
  assumes "is_YYYY_MM_DD a" "is_YYYY_MM_DD b"
  shows "get_time_difference a b = Inr (toordinal (date_of b) - toordinal (date_of a))"
  using assms
  by (simp add: get_time_difference_def strptime_ymd_accepts date_of_def days_between_midnight)

subsection \<open>The date-difference tool\<close>

lemma strptime_ymd_raises_ValueError:
  "strptime_ymd s = Inl e \<Longrightarrow> is_ValueError e"
  by (auto simp: strptime_ymd_def Let_def split: option.splits prod.splits if_splits)

text \<open>
  Claim C8, as amended. \<open>get_time_difference("2025-11-20", "2026-01-05")\<close> returns 46. For
  all strings the tool returns a number and raises nothing, and whenever \<open>strptime\<close> with
  the format \<open>%Y-%m-%d\<close> rejects one of the two strings the number is 0. For two valid
  dates in the form \<open>YYYY-MM-DD\<close> the number is the count of days from the first to the
  second. The strings \<open>strptime\<close> rejects are not all the strings outside that form: it
  accepts a month or day without its leading zero.
\<close>

theorem C8_get_time_difference:
  "get_time_difference ''2025-11-20'' ''2026-01-05'' = Inr 46
   \<and> (\<forall>a b. \<exists>n. get_time_difference a b = Inr n)
   \<and> (\<forall>a b. isl (strptime_ymd a) \<or> isl (strptime_ymd b)
          \<longrightarrow> get_time_difference a b = Inr 0)
   \<and> (\<forall>a b. is_YYYY_MM_DD a \<and> is_YYYY_MM_DD b
          \<longrightarrow> get_time_difference a b = Inr (toordinal (date_of b) - toordinal (date_of a)))"
proof (intro conjI allI impI)
  show "get_time_difference ''2025-11-20'' ''2026-01-05'' = Inr 46"
    by code_simp
next
  fix a b
  show "\<exists>n. get_time_difference a b = Inr n"
    by (auto simp: get_time_difference_def split: sum.splits dest: strptime_ymd_raises_ValueError)
next
  fix a b
  assume "isl (strptime_ymd a) \<or> isl (strptime_ymd b)"
  then show "get_time_difference a b = Inr 0"
    by (auto simp: get_time_difference_def split: sum.splits dest: strptime_ymd_raises_ValueError)
next
  fix a b
  assume "is_YYYY_MM_DD a \<and> is_YYYY_MM_DD b"
  then show "get_time_difference a b = Inr (toordinal (date_of b) - toordinal (date_of a))"
    by (simp add: time_difference_of_dates)
qed

theorem C8_get_time_difference_witness:
  "isl (strptime_ymd ''2025-02-30'')
   \<and> get_time_difference ''2025-02-30'' ''2026-01-05'' = Inr 0
   \<and> isl (strptime_ymd ''next week'')
   \<and> get_time_difference ''2025-11-20'' ''next week'' = Inr 0
   \<and> is_YYYY_MM_DD ''2024-02-28'' \<and> is_YYYY_MM_DD ''2024-03-01''
   \<and> toordinal (date_of ''2024-03-01'') - toordinal (date_of ''2024-02-28'') = 2
   \<and> get_time_difference ''2024-02-28'' ''2024-03-01'' = Inr 2
   \<and> get_time_difference ''2024-03-01'' ''2024-02-28'' = Inr (- 2)"
proof -
  have a: "isl (strptime_ymd ''2025-02-30'')" by code_simp
  have b: "isl (strptime_ymd ''next week'')" by code_simp
  have c: "is_YYYY_MM_DD ''2024-02-28''" by code_simp
  have d: "is_YYYY_MM_DD ''2024-03-01''" by code_simp
  have e: "toordinal (date_of ''2024-03-01'') - toordinal (date_of ''2024-02-28'') = 2"
    by code_simp
  have f: "toordinal (date_of ''2024-02-28'') - toordinal (date_of ''2024-03-01'') = - 2"
    by code_simp
  from a b c d e f C8_get_time_difference show ?thesis by simp
qed

text \<open>
  The claim as stated in C8 fails on strings that are not in the form \<open>YYYY-MM-DD\<close> and
  that \<open>strptime\<close> accepts all the same: a month and day without leading zero, a day
  padded with a space. The tool returns the day difference for them, not 0.
\<close>

theorem C8_counterexample:
  "\<not> is_YYYY_MM_DD ''2025-1-5''
   \<and> get_time_difference ''2025-1-5'' ''2025-01-10'' = Inr 5
   \<and> \<not> is_YYYY_MM_DD ''2025-11- 5''
   \<and> get_time_difference ''2025-11- 5'' ''2025-11-20'' = Inr 15"
  by code_simp

subsection \<open>The calendar arithmetic\<close>

text \<open>
  The conversion from a day number to year, month and day inverts the conversion from a
  date to its day number, and yields a month from 1 to 12 and a day of that month.
\<close>

lemma div_decomp:
  fixes k q r :: int
  assumes "0 \<le> r" "r < k"
  shows "(k * q + r) div k = q" and "(k * q + r) mod k = r"
proof -
  from assms have k: "k \<noteq> 0" by simp
  have "(r + k * q) div k = q + r div k" using k by (rule div_mult_self2)
  with assms show "(k * q + r) div k = q" by (simp add: add.commute div_pos_pos_trivial)
  have "(r + k * q) mod k = r mod k" by simp
  with assms show "(k * q + r) mod k = r" by (simp add: add.commute mod_pos_pos_trivial)
qed

lemma days_before_year_decomp:
  fixes a b c d :: int
  assumes "0 \<le> b" "b \<le> 3" "0 \<le> c" "c \<le> 24" "0 \<le> d" "d \<le> 3"
  shows "days_before_year (400 * a + 100 * b + 4 * c + d + 1)
           = 146097 * a + 36524 * b + 1461 * c + 365 * d"
proof -
  let ?y1 = "400 * a + 100 * b + 4 * c + d"
  have "?y1 = 4 * (100 * a + 25 * b + c) + d" by simp
  then have 4: "?y1 div 4 = 100 * a + 25 * b + c"
    using div_decomp(1) [of d 4 "100 * a + 25 * b + c"] assms by simp
  have "?y1 = 100 * (4 * a + b) + (4 * c + d)" by simp
  then have 100: "?y1 div 100 = 4 * a + b"
    using div_decomp(1) [of "4 * c + d" 100 "4 * a + b"] assms by simp
  have "?y1 = 400 * a + (100 * b + 4 * c + d)" by simp
  then have 400: "?y1 div 400 = a"
    using div_decomp(1) [of "100 * b + 4 * c + d" 400 a] assms by simp
  show ?thesis
    using 4 100 400 by (simp add: days_before_year_def Let_def)
qed

lemma mod_zero_bounded:
  fixes x k :: int
  assumes "0 < x" "x \<le> k"
  shows "x mod k = 0 \<longleftrightarrow> x = k"
proof (cases "x = k")
  case True
  then show ?thesis by simp
next
  case False
  with assms have "x < k" by simp
  with assms have "x mod k = x" by (simp add: mod_pos_pos_trivial)
  with assms False show ?thesis by simp
qed

lemma century_full:
  fixes c d :: int
  assumes "0 \<le> c" "c \<le> 24" "0 \<le> d" "d \<le> 3"
  shows "4 * c + d + 1 = 100 \<longleftrightarrow> c = 24 \<and> d = 3"
proof
  assume eq: "4 * c + d + 1 = 100"
  with assms have "c = 24" by linarith
  with eq show "c = 24 \<and> d = 3" by simp
next
  assume "c = 24 \<and> d = 3"
  then show "4 * c + d + 1 = 100" by simp
qed

lemma cycle_full:
  fixes b c d :: int
  assumes "0 \<le> b" "b \<le> 3" "0 \<le> c" "c \<le> 24" "0 \<le> d" "d \<le> 3"
  shows "100 * b + 4 * c + d + 1 = 400 \<longleftrightarrow> b = 3 \<and> c = 24 \<and> d = 3"
proof
  assume eq: "100 * b + 4 * c + d + 1 = 400"
  with assms have b: "b = 3" by linarith
  with eq have "4 * c + d + 1 = 100" by simp
  with assms have "c = 24" by linarith
  with eq b show "b = 3 \<and> c = 24 \<and> d = 3" by simp
next
  assume "b = 3 \<and> c = 24 \<and> d = 3"
  then show "100 * b + 4 * c + d + 1 = 400" by simp
qed

lemma is_leap_decomp:
  fixes a b c d :: int
  assumes "0 \<le> b" "b \<le> 3" "0 \<le> c" "c \<le> 24" "0 \<le> d" "d \<le> 3"
  shows "is_leap (400 * a + 100 * b + 4 * c + d + 1) \<longleftrightarrow> d = 3 \<and> (c \<noteq> 24 \<or> b = 3)"
proof -
  let ?y = "400 * a + 100 * b + 4 * c + d + 1"
  have "?y = 4 * (100 * a + 25 * b + c) + (d + 1)" by simp
  then have m4: "?y mod 4 = (d + 1) mod 4" by (simp only: mod_mult_self4)
  have "?y = 100 * (4 * a + b) + (4 * c + d + 1)" by simp
  then have m100: "?y mod 100 = (4 * c + d + 1) mod 100" by (simp only: mod_mult_self4)
  have "?y = 400 * a + (100 * b + 4 * c + d + 1)" by simp
  then have m400: "?y mod 400 = (100 * b + 4 * c + d + 1) mod 400" by (simp only: mod_mult_self4)
  have "0 < d + 1" "d + 1 \<le> 4" using assms by simp_all
  then have "(d + 1) mod 4 = 0 \<longleftrightarrow> d + 1 = 4" by (rule mod_zero_bounded)
  then have d4: "(d + 1) mod 4 = 0 \<longleftrightarrow> d = 3" by auto
  have "0 < 4 * c + d + 1" "4 * c + d + 1 \<le> 100" using assms by simp_all
  then have "(4 * c + d + 1) mod 100 = 0 \<longleftrightarrow> 4 * c + d + 1 = 100" by (rule mod_zero_bounded)
  then have c100: "(4 * c + d + 1) mod 100 = 0 \<longleftrightarrow> c = 24 \<and> d = 3"
    using century_full [of c d] assms by simp
  have "0 < 100 * b + 4 * c + d + 1" "100 * b + 4 * c + d + 1 \<le> 400" using assms by simp_all
  then have "(100 * b + 4 * c + d + 1) mod 400 = 0 \<longleftrightarrow> 100 * b + 4 * c + d + 1 = 400"
    by (rule mod_zero_bounded)
  then have b400: "(100 * b + 4 * c + d + 1) mod 400 = 0 \<longleftrightarrow> b = 3 \<and> c = 24 \<and> d = 3"
    using cycle_full [of b c d] assms by simp
  show ?thesis
    unfolding is_leap_def m4 m100 m400 d4 c100 b400 by blast
qed

lemma month_index:
  fixes e :: int
  assumes "0 \<le> e" "e \<le> 364"
  obtains k where "(e + 50) div 32 = k" "1 \<le> k" "k \<le> 12" "32 * k \<le> e + 50" "e + 50 < 32 * k + 32"
proof -
  let ?k = "(e + 50) div 32"
  have "50 div 32 \<le> ?k" using assms by (intro zdiv_mono1) simp_all
  then have 1: "1 \<le> ?k" by simp
  have "?k \<le> 414 div 32" using assms by (intro zdiv_mono1) simp_all
  then have 2: "?k \<le> 12" by simp
  have "e + 50 = 32 * ?k + (e + 50) mod 32" by simp
  moreover have "0 \<le> (e + 50) mod 32" "(e + 50) mod 32 < 32" by simp_all
  ultimately have "32 * ?k \<le> e + 50" "e + 50 < 32 * ?k + 32" by linarith+
  with 1 2 show thesis using that by blast
qed

text \<open>The month search of the ordinal conversion, for the day e (from 0) of a year.\<close>

lemma month_search:
  fixes e :: int and L :: bool
  assumes "0 \<le> e" "e \<le> 364"
  defines "m0 \<equiv> (e + 50) div 32"
  defines "pre \<equiv> DAYS_BEFORE_MONTH ! nat m0 + (if m0 > 2 \<and> L then 1 else 0)"
  defines "m \<equiv> (if pre > e then m0 - 1 else m0)"
  defines "pre' \<equiv> (if pre > e
                    then pre - (DAYS_IN_MONTH ! nat (m0 - 1) + (if m0 - 1 = 2 \<and> L then 1 else 0))
                    else pre)"
  shows "1 \<le> m \<and> m \<le> 12
         \<and> pre' = DAYS_BEFORE_MONTH ! nat m + (if m > 2 \<and> L then 1 else 0)
         \<and> pre' \<le> e
         \<and> e - pre' + 1 \<le> (if m = 2 \<and> L then 29 else DAYS_IN_MONTH ! nat m)"
proof -
  from assms(1,2) obtain k where k: "(e + 50) div 32 = k" "1 \<le> k" "k \<le> 12"
    "32 * k \<le> e + 50" "e + 50 < 32 * k + 32"
    by (rule month_index)
  from k(2,3) have "k = 1 \<or> k = 2 \<or> k = 3 \<or> k = 4 \<or> k = 5 \<or> k = 6 \<or> k = 7 \<or> k = 8
      \<or> k = 9 \<or> k = 10 \<or> k = 11 \<or> k = 12"
    by arith
  then consider "k = 1" | "k = 2" | "k = 3" | "k = 4" | "k = 5" | "k = 6" | "k = 7"
    | "k = 8" | "k = 9" | "k = 10" | "k = 11" | "k = 12"
    by blast
  then show ?thesis
  proof cases
    case 1
    with k assms(1,2) show ?thesis
      by (auto simp: m_def pre'_def pre_def m0_def DAYS_BEFORE_MONTH_def DAYS_IN_MONTH_def)
  next
    case 2
    with k assms(1,2) show ?thesis
      by (auto simp: m_def pre'_def pre_def m0_def DAYS_BEFORE_MONTH_def DAYS_IN_MONTH_def)
  next
    case 3
    with k assms(1,2) show ?thesis
      by (auto simp: m_def pre'_def pre_def m0_def DAYS_BEFORE_MONTH_def DAYS_IN_MONTH_def)
  next
    case 4
    with k assms(1,2) show ?thesis
      by (auto simp: m_def pre'_def pre_def m0_def DAYS_BEFORE_MONTH_def DAYS_IN_MONTH_def)
  next
    case 5
    with k assms(1,2) show ?thesis
      by (auto simp: m_def pre'_def pre_def m0_def DAYS_BEFORE_MONTH_def DAYS_IN_MONTH_def)
  next
    case 6
    with k assms(1,2) show ?thesis
      by (auto simp: m_def pre'_def pre_def m0_def DAYS_BEFORE_MONTH_def DAYS_IN_MONTH_def)
  next
    case 7
    with k assms(1,2) show ?thesis
      by (auto simp: m_def pre'_def pre_def m0_def DAYS_BEFORE_MONTH_def DAYS_IN_MONTH_def)
  next
    case 8
    with k assms(1,2) show ?thesis
      by (auto simp: m_def pre'_def pre_def m0_def DAYS_BEFORE_MONTH_def DAYS_IN_MONTH_def)
  next
    case 9
    with k assms(1,2) show ?thesis
      by (auto simp: m_def pre'_def pre_def m0_def DAYS_BEFORE_MONTH_def DAYS_IN_MONTH_def)
  next
    case 10
    with k assms(1,2) show ?thesis
      by (auto simp: m_def pre'_def pre_def m0_def DAYS_BEFORE_MONTH_def DAYS_IN_MONTH_def)
  next
    case 11
    with k assms(1,2) show ?thesis
      by (auto simp: m_def pre'_def pre_def m0_def DAYS_BEFORE_MONTH_def DAYS_IN_MONTH_def)
  next
    case 12
    with k assms(1,2) show ?thesis
      by (auto simp: m_def pre'_def pre_def m0_def DAYS_BEFORE_MONTH_def DAYS_IN_MONTH_def)
  qed
qed

lemma ord2ymd_correct:
  assumes "1 \<le> n0"
  shows "case ord2ymd n0 of
           (y, m, d) \<Rightarrow> ymd2ord y m d = n0 \<and> 1 \<le> y \<and> 1 \<le> m \<and> m \<le> 12 \<and> 1 \<le> d
                         \<and> d \<le> days_in_month y m"
proof -
  define n where "n = n0 - 1"
  define a where "a = n div 146097"
  define r1 where "r1 = n mod 146097"
  define b where "b = r1 div 36524"
  define r2 where "r2 = r1 mod 36524"
  define c where "c = r2 div 1461"
  define r3 where "r3 = r2 mod 1461"
  define d where "d = r3 div 365"
  define e where "e = r3 mod 365"
  have n: "0 \<le> n" using assms by (simp add: n_def)
  have s1: "n = 146097 * a + r1" "0 \<le> r1" "r1 < 146097" by (simp_all add: a_def r1_def)
  have s2: "r1 = 36524 * b + r2" "0 \<le> r2" "r2 < 36524" by (simp_all add: b_def r2_def)
  have s3: "r2 = 1461 * c + r3" "0 \<le> r3" "r3 < 1461" by (simp_all add: c_def r3_def)
  have s4: "r3 = 365 * d + e" "0 \<le> e" "e < 365" by (simp_all add: d_def e_def)
  have a0: "0 \<le> a" using n s1 by linarith
  have b0: "0 \<le> b" "b \<le> 4" using s1 s2 by linarith+
  have c0: "0 \<le> c" "c \<le> 24" using s2 s3 by linarith+
  have d0: "0 \<le> d" "d \<le> 4" using s3 s4 by linarith+
  have n0: "n0 = 146097 * a + 36524 * b + 1461 * c + 365 * d + e + 1"
    using s1 s2 s3 s4 by (simp add: n_def)
  have unfold: "ord2ymd n0 =
    (let y = a * 400 + 1 + b * 100 + c * 4 + d
     in if d = 4 \<or> b = 4 then (y - 1, 12, 31)
        else
          let leapyear = (d = 3 \<and> (c \<noteq> 24 \<or> b = 3));
              m = (e + 50) div 32;
              preceding = DAYS_BEFORE_MONTH ! nat m + (if m > 2 \<and> leapyear then 1 else 0)
          in if preceding > e
             then (let m' = m - 1;
                       preceding' = preceding -
                         (DAYS_IN_MONTH ! nat m' + (if m' = 2 \<and> leapyear then 1 else 0))
                   in (y, m', e - preceding' + 1))
             else (y, m, e - preceding + 1))"
    unfolding ord2ymd_def Let_def n_def a_def r1_def b_def r2_def c_def r3_def d_def e_def
    by (rule refl)
  consider (cycle) "b = 4" | (quad) "b \<le> 3" "d = 4" | (plain) "b \<le> 3" "d \<le> 3"
    using b0 d0 by linarith
  then show ?thesis
  proof cases
    case cycle
    with s1 s2 have "r2 = 0" by linarith
    with s3 c0 have "c = 0" "r3 = 0" by linarith+
    with s4 d0 have "d = 0" "e = 0" by linarith+
    note z = cycle \<open>c = 0\<close> \<open>d = 0\<close> \<open>e = 0\<close>
    have res: "ord2ymd n0 = (400 * a + 100 * 3 + 4 * 24 + 3 + 1, 12, 31)"
      unfolding unfold Let_def z by simp
    have y: "days_before_year (400 * a + 100 * 3 + 4 * 24 + 3 + 1)
               = 146097 * a + 36524 * 3 + 1461 * 24 + 365 * 3"
      by (rule days_before_year_decomp) simp_all
    have l: "is_leap (400 * a + 100 * 3 + 4 * 24 + 3 + 1)"
      using is_leap_decomp [of 3 24 3 a] by simp
    have v: "ymd2ord (400 * a + 100 * 3 + 4 * 24 + 3 + 1) 12 31 = n0"
      unfolding ymd2ord_def days_before_month_def y n0 z using l
      by (simp add: DAYS_BEFORE_MONTH_def)
    have w: "days_in_month (400 * a + 100 * 3 + 4 * 24 + 3 + 1) 12 = 31"
      by (simp add: days_in_month_def DAYS_IN_MONTH_def)
    from a0 have p: "1 \<le> 400 * a + 100 * 3 + 4 * 24 + 3 + 1" by linarith
    from v w p show ?thesis unfolding res by simp
  next
    case quad
    with s4 s3 have e: "e = 0" by linarith
    from quad s3 s4 s2 c0 have c: "c \<le> 23" by linarith
    let ?y = "400 * a + 100 * b + 4 * c + 3 + 1"
    have res: "ord2ymd n0 = (?y, 12, 31)"
      unfolding unfold Let_def using quad by simp
    have y: "days_before_year ?y = 146097 * a + 36524 * b + 1461 * c + 365 * 3"
      using b0 quad c0 by (intro days_before_year_decomp) simp_all
    have l: "is_leap ?y"
      using is_leap_decomp [of b c 3 a] b0 quad c0 c by simp
    have v: "ymd2ord ?y 12 31 = n0"
      unfolding ymd2ord_def days_before_month_def y n0 using l quad e
      by (simp add: DAYS_BEFORE_MONTH_def)
    have w: "days_in_month ?y 12 = 31"
      by (simp add: days_in_month_def DAYS_IN_MONTH_def)
    from a0 b0 c0 have p: "1 \<le> ?y" by linarith
    from v w p show ?thesis unfolding res by simp
  next
    case plain
    let ?L = "d = 3 \<and> (c \<noteq> 24 \<or> b = 3)"
    let ?y = "400 * a + 100 * b + 4 * c + d + 1"
    have y: "days_before_year ?y = 146097 * a + 36524 * b + 1461 * c + 365 * d"
      using b0 plain c0 d0 by (intro days_before_year_decomp) simp_all
    have l: "is_leap ?y \<longleftrightarrow> ?L"
      using b0 plain c0 d0 by (intro is_leap_decomp) simp_all
    have yeq: "a * 400 + 1 + b * 100 + c * 4 + d = ?y" by simp
    have ypos: "1 \<le> ?y" using a0 b0 c0 d0 by linarith
    from s4 have e364: "e \<le> 364" by simp
    let ?first = "(e + 50) div 32"
    let ?guess = "DAYS_BEFORE_MONTH ! nat ?first + (if ?first > 2 \<and> ?L then 1 else 0)"
    let ?mon = "if ?guess > e then ?first - 1 else ?first"
    let ?before = "if ?guess > e
                 then ?guess - (DAYS_IN_MONTH ! nat (?first - 1) + (if ?first - 1 = 2 \<and> ?L then 1 else 0))
                 else ?guess"
    from plain have nd: "\<not> (d = 4 \<or> b = 4)" by simp
    have res: "ord2ymd n0 = (?y, ?mon, e - ?before + 1)"
    proof (cases "?guess > e")
      case True
      show ?thesis
        unfolding unfold Let_def yeq by (simp only: nd True if_False if_True)
    next
      case False
      show ?thesis
        unfolding unfold Let_def yeq by (simp only: nd False if_False)
    qed
    from month_search [OF s4(2) e364, of ?L]
    have ms: "1 \<le> ?mon" "?mon \<le> 12"
      "?before = DAYS_BEFORE_MONTH ! nat ?mon + (if ?mon > 2 \<and> ?L then 1 else 0)"
      "?before \<le> e" "e - ?before + 1 \<le> (if ?mon = 2 \<and> ?L then 29 else DAYS_IN_MONTH ! nat ?mon)"
      by blast+
    have v: "ymd2ord ?y ?mon (e - ?before + 1) = n0"
      unfolding ymd2ord_def days_before_month_def y n0 l using ms(3) by linarith
    have w: "e - ?before + 1 \<le> days_in_month ?y ?mon"
      unfolding days_in_month_def l using ms(5) .
    from ms(4) have dpos: "1 \<le> e - ?before + 1" by linarith
    from v w ypos ms(1,2) dpos show ?thesis unfolding res by simp
  qed
qed

lemma add_days_ordinal:
  assumes "add_days t n = Inr future"
  shows "toordinal future = toordinal t + n
         \<and> 1 \<le> year future \<and> 1 \<le> month future \<and> month future \<le> 12 \<and> 1 \<le> day future
         \<and> day future \<le> days_in_month (year future) (month future)
         \<and> hour future = hour t \<and> minute future = minute t \<and> second future = second t
         \<and> microsecond future = microsecond t"
proof -
  let ?ord = "toordinal t + n"
  from assms have range: "0 < ?ord" "?ord \<le> MAXORDINAL"
    by (auto simp: add_days_def Let_def split: if_splits)
  obtain y m d where ymd: "ord2ymd ?ord = (y, m, d)" by (cases "ord2ymd ?ord")
  with assms range have f: "future = t\<lparr>year := y, month := m, day := d\<rparr>"
    by (auto simp: add_days_def Let_def split: if_splits)
  from range have "1 \<le> ?ord" by simp
  from ord2ymd_correct [OF this] ymd
  have "ymd2ord y m d = ?ord" "1 \<le> y" "1 \<le> m" "m \<le> 12" "1 \<le> d" "d \<le> days_in_month y m"
    by simp_all
  with f show ?thesis by (simp add: toordinal_def)
qed

text \<open>The number of days before a year and before a month, step by step.\<close>

lemma div_step:
  fixes y k :: int
  assumes "0 < k"
  shows "y div k = (y - 1) div k + (if y mod k = 0 then 1 else 0)"
proof -
  define q where "q = y div k"
  define r where "r = y mod k"
  have y: "y = k * q + r" by (simp add: q_def r_def)
  have r: "0 \<le> r" "r < k" using assms by (simp_all add: r_def)
  show ?thesis
  proof (cases "r = 0")
    case True
    have "y - 1 = k * (q - 1) + (k - 1)" using y True by (simp add: algebra_simps)
    moreover have "(k * (q - 1) + (k - 1)) div k = q - 1"
      using assms by (intro div_decomp(1)) simp_all
    ultimately have "(y - 1) div k = q - 1" by (simp only:)
    with True show ?thesis by (simp add: q_def [symmetric] r_def [symmetric])
  next
    case False
    have "y - 1 = k * q + (r - 1)" using y by simp
    moreover have "(k * q + (r - 1)) div k = q"
      using r False by (intro div_decomp(1)) simp_all
    ultimately have "(y - 1) div k = q" by (simp only:)
    with False show ?thesis by (simp add: q_def [symmetric] r_def [symmetric])
  qed
qed

lemma days_before_year_step:
  "days_before_year (y + 1) = days_before_year y + (if is_leap y then 366 else 365)"
proof -
  have "(100::int) dvd 400" "(4::int) dvd 100" by simp_all
  then have 1: "y mod 400 = 0 \<Longrightarrow> y mod 100 = 0" and 2: "y mod 100 = 0 \<Longrightarrow> y mod 4 = 0"
    by (simp_all only: mod_eq_0_iff_dvd [symmetric] dvd_eq_mod_eq_0) (metis dvd_eq_mod_eq_0 dvd_trans)+
  define a where "a = (y - 1) div 4"
  define b where "b = (y - 1) div 100"
  define c where "c = (y - 1) div 400"
  have s: "y div 4 = a + (if y mod 4 = 0 then 1 else 0)"
    "y div 100 = b + (if y mod 100 = 0 then 1 else 0)"
    "y div 400 = c + (if y mod 400 = 0 then 1 else 0)"
    unfolding a_def b_def c_def by (rule div_step, simp)+
  have "days_before_year (y + 1) = y * 365 + y div 4 - y div 100 + y div 400"
    by (simp add: days_before_year_def Let_def)
  moreover have "days_before_year y = (y - 1) * 365 + a - b + c"
    by (simp add: days_before_year_def Let_def a_def b_def c_def)
  ultimately show ?thesis
    unfolding s is_leap_def using 1 2
    by (cases "y mod 4 = 0"; cases "y mod 100 = 0"; cases "y mod 400 = 0") simp_all
qed

lemma days_before_year_add:
  "days_before_year y + 365 * int n \<le> days_before_year (y + int n)"
proof (induction n)
  case 0
  then show ?case by simp
next
  case (Suc n)
  have "y + int (Suc n) = (y + int n) + 1" by simp
  then have "days_before_year (y + int (Suc n)) = days_before_year ((y + int n) + 1)"
    by (simp only:)
  also have "\<dots> \<ge> days_before_year (y + int n) + 365"
    unfolding days_before_year_step by simp
  finally show ?case using Suc by simp
qed

lemma days_before_year_mono:
  assumes "y \<le> y'"
  shows "days_before_year y \<le> days_before_year y'"
proof -
  from assms obtain n where "y' = y + int n" by (metis zle_iff_zadd)
  with days_before_year_add [of y n] show ?thesis by simp
qed

lemma month_cases:
  fixes m :: int
  assumes "1 \<le> m" "m \<le> 12"
  shows "m = 1 \<or> m = 2 \<or> m = 3 \<or> m = 4 \<or> m = 5 \<or> m = 6 \<or> m = 7 \<or> m = 8 \<or> m = 9
         \<or> m = 10 \<or> m = 11 \<or> m = 12"
  using assms by arith

lemma days_before_month_step:
  assumes "1 \<le> m" "m \<le> 11"
  shows "days_before_month y (m + 1) = days_before_month y m + days_in_month y m"
proof -
  from assms have "m = 1 \<or> m = 2 \<or> m = 3 \<or> m = 4 \<or> m = 5 \<or> m = 6 \<or> m = 7 \<or> m = 8 \<or> m = 9
         \<or> m = 10 \<or> m = 11"
    by arith
  then show ?thesis
    by (elim disjE)
       (simp_all add: days_before_month_def days_in_month_def DAYS_BEFORE_MONTH_def
          DAYS_IN_MONTH_def)
qed

lemma days_in_month_bounds:
  assumes "1 \<le> m" "m \<le> 12"
  shows "28 \<le> days_in_month y m" and "days_in_month y m \<le> 31"
  using month_cases [OF assms]
  by (elim disjE; simp add: days_in_month_def DAYS_IN_MONTH_def)+

lemma days_before_month_nonneg:
  assumes "1 \<le> m" "m \<le> 12"
  shows "0 \<le> days_before_month y m"
  using month_cases [OF assms]
  by (elim disjE; simp add: days_before_month_def DAYS_BEFORE_MONTH_def)

lemma days_in_year:
  assumes "1 \<le> m" "m \<le> 12"
  shows "days_before_month y m + days_in_month y m \<le> (if is_leap y then 366 else 365)"
  using month_cases [OF assms]
  by (elim disjE; simp add: days_before_month_def DAYS_BEFORE_MONTH_def days_in_month_def
        DAYS_IN_MONTH_def)

lemma days_before_month_add:
  "1 \<le> m \<Longrightarrow> m + int n \<le> 12 \<Longrightarrow> days_before_month y m \<le> days_before_month y (m + int n)"
proof (induction n)
  case 0
  then show ?case by simp
next
  case (Suc n)
  then have b: "1 \<le> m + int n" "m + int n \<le> 11" by simp_all
  have "m + int (Suc n) = (m + int n) + 1" by simp
  then have "days_before_month y (m + int (Suc n)) = days_before_month y ((m + int n) + 1)"
    by (simp only:)
  also have "\<dots> = days_before_month y (m + int n) + days_in_month y (m + int n)"
    using b by (rule days_before_month_step)
  finally show ?case
    using Suc days_in_month_bounds(1) [of "m + int n" y] b by simp
qed

lemma days_before_month_less:
  assumes "1 \<le> m" "m < m'" "m' \<le> 12"
  shows "days_before_month y m + days_in_month y m \<le> days_before_month y m'"
proof -
  from assms obtain n where n: "m' = (m + 1) + int n"
    by (metis zle_iff_zadd zless_imp_add1_zle)
  have "days_before_month y (m + 1) \<le> days_before_month y ((m + 1) + int n)"
    using assms n by (intro days_before_month_add) simp_all
  moreover have "days_before_month y (m + 1) = days_before_month y m + days_in_month y m"
    using assms by (intro days_before_month_step) simp_all
  ultimately show ?thesis by (simp add: n)
qed

text \<open>The ordinal of a date grows with the date.\<close>

lemma ymd2ord_less:
  assumes a: "1 \<le> m" "m \<le> 12" "1 \<le> d" "d \<le> days_in_month y m"
    and b: "1 \<le> m'" "m' \<le> 12" "1 \<le> d'" "d' \<le> days_in_month y' m'"
    and lt: "y < y' \<or> (y = y' \<and> (m < m' \<or> (m = m' \<and> d < d')))"
  shows "ymd2ord y m d < ymd2ord y' m' d'"
proof -
  consider "y < y'" | "y = y'" "m < m'" | "y = y'" "m = m'" "d < d'" using lt by blast
  then show ?thesis
  proof cases
    case 1
    have "ymd2ord y m d \<le> days_before_year y + (days_before_month y m + days_in_month y m)"
      using a by (simp add: ymd2ord_def)
    also have "\<dots> \<le> days_before_year y + (if is_leap y then 366 else 365)"
      using days_in_year [OF a(1,2), of y] by simp
    also have "\<dots> = days_before_year (y + 1)" by (simp add: days_before_year_step)
    also have "\<dots> \<le> days_before_year y'" using 1 by (intro days_before_year_mono) simp
    also have "\<dots> < ymd2ord y' m' d'"
      using days_before_month_nonneg [OF b(1,2), of y'] b(3) by (simp add: ymd2ord_def)
    finally show ?thesis .
  next
    case 2
    have "days_before_month y m + d \<le> days_before_month y m + days_in_month y m"
      using a by simp
    also have "\<dots> \<le> days_before_month y m'"
      using a(1) 2(2) b(2) by (rule days_before_month_less)
    also have "\<dots> < days_before_month y m' + d'" using b(3) by simp
    finally show ?thesis using 2 by (simp add: ymd2ord_def)
  next
    case 3
    then show ?thesis by (simp add: ymd2ord_def)
  qed
qed

lemma ymd2ord_le_iff:
  assumes a: "1 \<le> m" "m \<le> 12" "1 \<le> d" "d \<le> days_in_month y m"
    and b: "1 \<le> m'" "m' \<le> 12" "1 \<le> d'" "d' \<le> days_in_month y' m'"
  shows "ymd2ord y m d \<le> ymd2ord y' m' d'
           \<longleftrightarrow> y < y' \<or> (y = y' \<and> (m < m' \<or> (m = m' \<and> d \<le> d')))"
proof
  assume le: "ymd2ord y m d \<le> ymd2ord y' m' d'"
  show "y < y' \<or> (y = y' \<and> (m < m' \<or> (m = m' \<and> d \<le> d')))"
  proof (rule ccontr)
    assume "\<not> ?thesis"
    then have "y' < y \<or> (y' = y \<and> (m' < m \<or> (m' = m \<and> d' < d)))" by linarith
    with b a have "ymd2ord y' m' d' < ymd2ord y m d" by (rule ymd2ord_less)
    with le show False by simp
  qed
next
  assume "y < y' \<or> (y = y' \<and> (m < m' \<or> (m = m' \<and> d \<le> d')))"
  then consider "y < y' \<or> (y = y' \<and> (m < m' \<or> (m = m' \<and> d < d')))" | "y = y'" "m = m'" "d = d'"
    by linarith
  then show "ymd2ord y m d \<le> ymd2ord y' m' d'"
  proof cases
    case 1
    with a b have "ymd2ord y m d < ymd2ord y' m' d'" by (rule ymd2ord_less)
    then show ?thesis by simp
  next
    case 2
    then show ?thesis by simp
  qed
qed

lemma year_of_ordinal:
  assumes "1 \<le> m" "m \<le> 12" "1 \<le> d" "ymd2ord y m d \<le> MAXORDINAL"
  shows "y \<le> 9999"
proof (rule ccontr)
  assume "\<not> y \<le> 9999"
  then have "10000 \<le> y" by simp
  then have "days_before_year 10000 \<le> days_before_year y" by (rule days_before_year_mono)
  moreover have "days_before_year 10000 = MAXORDINAL"
    by (simp add: days_before_year_def MAXORDINAL_def)
  ultimately have "MAXORDINAL < ymd2ord y m d"
    using days_before_month_nonneg [OF assms(1,2), of y] assms(3) by (simp add: ymd2ord_def)
  with assms(4) show False by simp
qed

subsection \<open>Rendered dates and their order\<close>

lemma strftime_ymd_padded:
  assumes "1000 \<le> year t" "year t \<le> 9999"
  shows "strftime_ymd t
           = zfill 4 (nat (year t)) @ ''-'' @ zfill 2 (nat (month t)) @ ''-'' @ zfill 2 (nat (day t))"
proof -
  from assms have "1000 \<le> nat (year t)" "nat (year t) < 10000" by simp_all
  then have "str_nat (nat (year t)) = zfill 4 (nat (year t))" by (rule str_nat4)
  then show ?thesis by (simp add: strftime_ymd_def)
qed

lemma strftime_ymd_le:
  assumes a: "1000 \<le> year a" "year a \<le> 9999" "0 \<le> month a" "month a < 100" "0 \<le> day a" "day a < 100"
    and b: "1000 \<le> year b" "year b \<le> 9999" "0 \<le> month b" "month b < 100" "0 \<le> day b" "day b < 100"
  shows "strftime_ymd a \<le> strftime_ymd b
           \<longleftrightarrow> year a < year b
               \<or> (year a = year b \<and> (month a < month b \<or> (month a = month b \<and> day a \<le> day b)))"
proof -
  have y: "nat (year a) < 10000" "nat (year b) < 10000" using a b by simp_all
  have m: "nat (month a) < 100" "nat (month b) < 100" using a b by simp_all
  have d: "nat (day a) < 100" "nat (day b) < 100" using a b by simp_all
  have l4: "length (zfill 4 (nat (year a))) = length (zfill 4 (nat (year b)))"
    by (simp add: zfill4 [OF y(1)] zfill4 [OF y(2)])
  have l2: "length (zfill 2 (nat (month a))) = length (zfill 2 (nat (month b)))"
    by (simp add: zfill2 [OF m(1)] zfill2 [OF m(2)])
  have "strftime_ymd a \<le> strftime_ymd b
          \<longleftrightarrow> zfill 4 (nat (year a)) < zfill 4 (nat (year b))
              \<or> (zfill 4 (nat (year a)) = zfill 4 (nat (year b))
                  \<and> (zfill 2 (nat (month a)) < zfill 2 (nat (month b))
                      \<or> (zfill 2 (nat (month a)) = zfill 2 (nat (month b))
                          \<and> zfill 2 (nat (day a)) \<le> zfill 2 (nat (day b)))))"
    unfolding strftime_ymd_padded [OF a(1,2)] strftime_ymd_padded [OF b(1,2)] lex_append [OF l4]
    by (simp add: lex_append [OF l2])
  also have "\<dots> \<longleftrightarrow> nat (year a) < nat (year b)
              \<or> (nat (year a) = nat (year b)
                  \<and> (nat (month a) < nat (month b)
                      \<or> (nat (month a) = nat (month b) \<and> nat (day a) \<le> nat (day b))))"
    unfolding zfill4_order [OF y] zfill2_order [OF m] zfill2_le [OF d] ..
  also have "\<dots> \<longleftrightarrow> year a < year b
               \<or> (year a = year b \<and> (month a < month b \<or> (month a = month b \<and> day a \<le> day b)))"
    using a b by auto
  finally show ?thesis .
qed

text \<open>From year 1000 on, the order of the rendered dates is the order of the days.\<close>

lemma strftime_ymd_chronological:
  assumes a: "valid_date (year a) (month a) (day a)" "1000 \<le> year a"
    and b: "valid_date (year b) (month b) (day b)" "1000 \<le> year b"
  shows "strftime_ymd a \<le> strftime_ymd b \<longleftrightarrow> toordinal a \<le> toordinal b"
proof -
  from a(1) have va: "year a \<le> 9999" "1 \<le> month a" "month a \<le> 12" "1 \<le> day a"
      "day a \<le> days_in_month (year a) (month a)"
    by (simp_all add: valid_date_def)
  from b(1) have vb: "year b \<le> 9999" "1 \<le> month b" "month b \<le> 12" "1 \<le> day b"
      "day b \<le> days_in_month (year b) (month b)"
    by (simp_all add: valid_date_def)
  have da: "day a < 100" using va(5) days_in_month_bounds(2) [OF va(2,3), of "year a"] by simp
  have db: "day b < 100" using vb(5) days_in_month_bounds(2) [OF vb(2,3), of "year b"] by simp
  have "strftime_ymd a \<le> strftime_ymd b
           \<longleftrightarrow> year a < year b
               \<or> (year a = year b \<and> (month a < month b \<or> (month a = month b \<and> day a \<le> day b)))"
    using a(2) va vb b(2) da db by (intro strftime_ymd_le) simp_all
  also have "\<dots> \<longleftrightarrow> toordinal a \<le> toordinal b"
    unfolding toordinal_def
    by (rule ymd2ord_le_iff [OF va(2,3,4,5) vb(2,3,4,5), symmetric])
  finally show ?thesis .
qed

lemma four_digits:
  assumes "p1 < 10" "p2 < 10" "p3 < 10" "p4 < 10"
  shows "[digit_char p1, digit_char p2, digit_char p3, digit_char p4]
           = zfill 4 (1000 * p1 + 100 * p2 + 10 * p3 + p4)"
proof -
  define n where "n = 1000 * p1 + 100 * p2 + 10 * p3 + p4"
  define k where "k = 100 * p1 + 10 * p2 + p3"
  define l where "l = 10 * p1 + p2"
  have n: "n < 10000" using assms by (simp add: n_def)
  have e1: "n = 10 * k + p4" by (simp add: n_def k_def)
  have e2: "k = 10 * l + p3" by (simp add: k_def l_def)
  have e3: "l = 10 * p1 + p2" by (simp add: l_def)
  have d1: "n div 10 = k" and m1: "n mod 10 = p4"
    using assms(4) by (simp_all add: e1)
  have d2: "k div 10 = l" and m2: "k mod 10 = p3"
    using assms(3) by (simp_all add: e2)
  have d3: "l div 10 = p1" and m3: "l mod 10 = p2"
    using assms(2) by (simp_all add: e3)
  have h: "n div 100 = n div 10 div 10" "n div 1000 = n div 10 div 10 div 10"
    by (simp_all add: div_mult2_eq [symmetric])
  have "n div 1000 = p1" "n div 100 mod 10 = p2" "n div 10 mod 10 = p3" "n mod 10 = p4"
    unfolding h d1 d2 d3 m1 m2 m3 by simp_all
  then have "zfill 4 n = [digit_char p1, digit_char p2, digit_char p3, digit_char p4]"
    unfolding zfill4 [OF n] by simp
  then show ?thesis by (simp add: n_def)
qed

text \<open>A valid date in the form YYYY-MM-DD of year 1000 or later is its own rendering.\<close>

lemma strftime_ymd_date_of:
  assumes "is_YYYY_MM_DD s" "1000 \<le> year (date_of s)"
  shows "strftime_ymd (date_of s) = s"
proof -
  from assms have "length s = 10" by (simp add: is_YYYY_MM_DD_def)
  then obtain a b c d e f g h i j where s0: "s = [a, b, c, d, e, f, g, h, i, j]"
    by (rule list10)
  from assms have hy: "e = CHR ''-''" "h = CHR ''-''"
    by (simp_all add: is_YYYY_MM_DD_def s0)
  from s0 hy have s: "s = [a, b, c, d, CHR ''-'', f, g, CHR ''-'', i, j]" by simp
  from assms have dig: "is_digit a" "is_digit b" "is_digit c" "is_digit d"
      "is_digit f" "is_digit g" "is_digit i" "is_digit j"
    by (simp_all add: is_YYYY_MM_DD_def s)
  obtain p1 where p1: "p1 < 10" "a = digit_char p1" "digit_val a = int p1"
    using dig(1) by (rule is_digit_char)
  obtain p2 where p2: "p2 < 10" "b = digit_char p2" "digit_val b = int p2"
    using dig(2) by (rule is_digit_char)
  obtain p3 where p3: "p3 < 10" "c = digit_char p3" "digit_val c = int p3"
    using dig(3) by (rule is_digit_char)
  obtain p4 where p4: "p4 < 10" "d = digit_char p4" "digit_val d = int p4"
    using dig(4) by (rule is_digit_char)
  obtain p where p: "p < 10" "f = digit_char p" "digit_val f = int p"
    using dig(5) by (rule is_digit_char)
  obtain q where q: "q < 10" "g = digit_char q" "digit_val g = int q"
    using dig(6) by (rule is_digit_char)
  obtain r where r: "r < 10" "i = digit_char r" "digit_val i = int r"
    using dig(7) by (rule is_digit_char)
  obtain t where t: "t < 10" "j = digit_char t" "digit_val j = int t"
    using dig(8) by (rule is_digit_char)
  have y: "int_of_digits [a, b, c, d] = int (1000 * p1 + 100 * p2 + 10 * p3 + p4)"
    using p1(3) p2(3) p3(3) p4(3) by (simp add: int_of_digits_def)
  have m: "int_of_digits [f, g] = int (10 * p + q)"
    using p(3) q(3) by (simp add: int_of_digits_def)
  have dd: "int_of_digits [i, j] = int (10 * r + t)"
    using r(3) t(3) by (simp add: int_of_digits_def)
  have parts: "year (date_of s) = int (1000 * p1 + 100 * p2 + 10 * p3 + p4)"
    "month (date_of s) = int (10 * p + q)" "day (date_of s) = int (10 * r + t)"
    unfolding date_of_def s by (simp_all add: midnight_def y m dd)
  from assms(2) have big: "1000 \<le> 1000 * p1 + 100 * p2 + 10 * p3 + p4"
    unfolding parts by linarith
  have small: "1000 * p1 + 100 * p2 + 10 * p3 + p4 < 10000"
    using p1(1) p2(1) p3(1) p4(1) by simp
  have "strftime_ymd (date_of s)
          = zfill 4 (1000 * p1 + 100 * p2 + 10 * p3 + p4) @ ''-'' @ zfill 2 (10 * p + q)
              @ ''-'' @ zfill 2 (10 * r + t)"
    unfolding strftime_ymd_def parts nat_int str_nat4 [OF big small] ..
  also have "\<dots> = [a, b, c, d] @ ''-'' @ [f, g] @ ''-'' @ [i, j]"
    unfolding four_digits [OF p1(1) p2(1) p3(1) p4(1), symmetric]
      two_digits [OF p(1) q(1), symmetric] two_digits [OF r(1) t(1), symmetric]
      p1(2) p2(2) p3(2) p4(2) p(2) q(2) r(2) t(2) ..
  also have "\<dots> = s" by (simp add: s)
  finally show ?thesis .
qed

subsection \<open>Auxiliary facts\<close>

text \<open>Sorting.\<close>

lemma sorted_py_sort: "sorted (map k (py_sort k xs))"
  by (simp add: py_sort_def)

lemma sorted_py_sort_reverse: "sorted (rev (map k (py_sort_reverse k xs)))"
  by (simp add: py_sort_reverse_def rev_map)

lemma set_sort_by_date [simp]: "set (sort_by_date f ob xs) = set xs"
  by (simp add: sort_by_date_def py_sort_def py_sort_reverse_def)

lemma mset_sort_by_date [simp]: "mset (sort_by_date f ob xs) = mset xs"
  by (simp add: sort_by_date_def py_sort_def py_sort_reverse_def)

text \<open>The gateway.\<close>

lemma map_of_project_None:
  "k \<notin> col_name ` set cols \<Longrightarrow> map_of (project cols cp) k = None"
  by (induction cols) (auto simp: project_def map_filter_simps split: option.splits)

lemma row_get_project:
  "distinct (map col_name cols) \<Longrightarrow> col \<in> set cols \<Longrightarrow>
     row_get (project cols cp) (col_name col) = col_val (fst cp) (snd cp) col"
proof (induction cols)
  case Nil
  then show ?case by simp
next
  case (Cons a cols)
  from Cons.prems have notin: "col_name a \<notin> col_name ` set cols"
    and d: "distinct (map col_name cols)"
    by auto
  show ?case
  proof (cases "col = a")
    case True
    with notin show ?thesis
      using map_of_project_None [of "col_name a" cols cp]
      by (auto simp: row_get_def project_def map_filter_simps split: option.splits)
  next
    case False
    with Cons.prems have mem: "col \<in> set cols" by simp
    with notin have ne: "col_name col \<noteq> col_name a" by (metis imageI)
    from Cons.IH [OF d mem] ne show ?thesis
      by (auto simp: row_get_def project_def map_filter_simps split: option.splits)
  qed
qed

lemma set_join_permits:
  "set (join_permits ds) = {(c, p). c \<in> set ds \<and> p \<in> set (permits c)}"
  by (auto simp: join_permits_def)

lemma in_run_select:
  "r \<in> set (run_select cols conds ps ds) \<longleftrightarrow>
     (\<exists>c p. c \<in> set ds \<and> p \<in> set (permits c) \<and> list_all (cond_holds ps c p) conds
            \<and> r = project cols (c, p))"
  unfolding run_select_def matching_def
  by (simp add: set_join_permits image_iff)

lemma snd_auto_initialize [simp]: "snd (auto_initialize container w) = w"
  by (auto simp: auto_initialize_def get_permit_container_def Let_def split: option.splits)

lemma auto_initialize_cases:
  obtains (raised) e where "auto_initialize container w = (Inl e, w)"
  | (handle) k where "auto_initialize container w = (Inr k, w)"
  by (metis prod.collapse snd_auto_initialize sum.exhaust_sel)

lemma auto_initialize_Some [simp]: "auto_initialize (Some k) w = (Inr k, w)"
  by (simp add: auto_initialize_def)

text \<open>The query functions, once the container is known.\<close>

lemma query_items_eq:
  "query_items k cols conds ps w =
     (case failure k (Select cols conds) ps of
        Some e \<Rightarrow> Inl e
      | None \<Rightarrow> Inr (run_select cols conds ps (docs k)), logged w (Select cols conds) ps)"
  by (simp add: query_items_def issue_def logged_def split: option.splits)

lemma issue_year_raised:
  "auto_initialize container w = (Inl e, w) \<Longrightarrow>
     query_documents_by_issue_year container permit_type year' organization' operator order_by w
       = (Inl e, w)"
  by (simp add: query_documents_by_issue_year_def)

lemma issue_year_handle:
  "auto_initialize container w = (Inr k, w) \<Longrightarrow>
     query_documents_by_issue_year container permit_type year' organization' operator order_by w
       = (let cp = add_organization organization'
                     (add_year ''issueDate'' operator year' (add_permit_type permit_type ([], [])))
          in (Inr (answer k issue_year_cols cp (sort_by_date ''issueDate'' order_by)),
              logged w (Select issue_year_cols (fst cp)) (snd cp)))"
  by (simp add: query_documents_by_issue_year_def query_items_eq answer_def Let_def
      split: option.splits)

lemma expiration_year_raised:
  "auto_initialize container w = (Inl e, w) \<Longrightarrow>
     query_documents_by_expiration_year container permit_type year' organization' operator order_by w
       = (Inl e, w)"
  by (simp add: query_documents_by_expiration_year_def)

lemma expiration_year_handle:
  "auto_initialize container w = (Inr k, w) \<Longrightarrow>
     query_documents_by_expiration_year container permit_type year' organization' operator order_by w
       = (let cp = add_organization organization'
                     (add_year ''expirationDate'' operator year' (add_permit_type permit_type ([], [])))
          in (Inr (answer k expiration_year_cols cp (sort_by_date ''expirationDate'' order_by)),
              logged w (Select expiration_year_cols (fst cp)) (snd cp)))"
  by (simp add: query_documents_by_expiration_year_def query_items_eq answer_def Let_def
      split: option.splits)

lemma expired_raised:
  "auto_initialize container w = (Inl e, w) \<Longrightarrow>
     query_expired_documents container organization' order_by w = (Inl e, w)"
  by (simp add: query_expired_documents_def)

lemma expired_handle:
  "auto_initialize container w = (Inr k, w) \<Longrightarrow>
     query_expired_documents container organization' order_by w
       = (let cp = add_organization organization'
                     (expired_where (strftime_ymd (clock w (ticks w))))
          in (Inr (answer k expiry_cols cp (sort_by_date ''expirationDate'' order_by)),
              logged (w\<lparr>ticks := Suc (ticks w)\<rparr>) (Select expiry_cols (fst cp)) (snd cp)))"
  by (simp add: query_expired_documents_def query_items_eq answer_def Let_def now_def
      split: option.splits)

lemma expiring_soon_raised:
  "auto_initialize container w = (Inl e, w) \<Longrightarrow>
     query_documents_expiring_soon container days organization' order_by w = (Inl e, w)"
  by (simp add: query_documents_expiring_soon_def)

lemma expiring_soon_overflow:
  "auto_initialize container w = (Inr k, w) \<Longrightarrow> add_days (clock w (ticks w)) days = Inl e \<Longrightarrow>
     query_documents_expiring_soon container days organization' order_by w
       = (Inl e, w\<lparr>ticks := Suc (Suc (ticks w))\<rparr>)"
  by (simp add: query_documents_expiring_soon_def now_def)

lemma expiring_soon_handle:
  "auto_initialize container w = (Inr k, w) \<Longrightarrow> add_days (clock w (ticks w)) days = Inr future \<Longrightarrow>
     query_documents_expiring_soon container days organization' order_by w
       = (let cp = add_organization organization'
                     (expiring_where (strftime_ymd (clock w (ticks w))) (strftime_ymd future))
          in (Inr (answer k expiry_cols cp (sort_by_date ''expirationDate'' order_by)),
              logged (w\<lparr>ticks := Suc (Suc (ticks w))\<rparr>) (Select expiry_cols (fst cp)) (snd cp)))"
  by (simp add: query_documents_expiring_soon_def query_items_eq answer_def Let_def now_def
      split: option.splits)

lemma today0: "strftime_ymd (clock world0 (ticks world0)) = ''2025-11-20''"
  by code_simp

text \<open>Without a container and without configuration, the container factory raises.\<close>

lemma unconfigured0:
  "auto_initialize None world0
     = (Inl (ValueError (''Permit Metadata CosmosDB not configured. ''
                    @ ''Set COSMOS_DB_URI, COSMOS_DB_KEY, COSMOS_DB_DATABASE, ''
                    @ ''and COSMOS_DB_CONTAINER in .env'')), world0)"
  by (simp add: auto_initialize_def get_permit_container_def world0_def)

lemma auto_initialize_raised:
  assumes "container = None \<and> fst (get_permit_container w) = Inl e"
  shows "auto_initialize container w = (Inl e, w)"
proof -
  from assms have "fst (auto_initialize container w) = Inl e" by (simp add: auto_initialize_def)
  then show ?thesis by (metis prod.collapse snd_auto_initialize)
qed

subsection \<open>Sort order of the results\<close>

lemma date_keys_get_or: "map (\<lambda>x. get_or x f '''') items = date_keys f items"
  by (simp add: date_keys_def get_or_def row_get_def)

lemma le_Nil_string: "(s :: string) \<le> [] \<longleftrightarrow> s = []"
  by (cases s) simp_all

lemma non_decreasing_missing_first:
  assumes "non_decreasing (date_keys f items)"
  shows "missing_first f items"
  unfolding missing_first_def
proof (intro allI impI)
  fix j i
  assume j: "j < length items" and none: "row_get (items ! j) f = None" and i: "i < j"
  from assms have "sorted (date_keys f items)" by (simp add: non_decreasing_def)
  with i j have "date_keys f items ! i \<le> date_keys f items ! j"
    by (simp add: sorted_iff_nth_mono date_keys_def)
  moreover from j none have "date_keys f items ! j = []" by (simp add: date_keys_def)
  ultimately show "date_keys f items ! i = []" by (simp add: le_Nil_string)
qed

lemma non_increasing_missing_last:
  assumes "non_increasing (date_keys f items)"
  shows "missing_last f items"
  unfolding missing_last_def
proof (intro allI impI)
  fix i j
  assume i: "i < length items" and none: "row_get (items ! i) f = None"
    and j: "j < length items" and ij: "i < j"
  from assms i j ij have "date_keys f items ! j \<le> date_keys f items ! i"
    by (simp add: non_increasing_def sorted_wrt_iff_nth_less date_keys_def)
  moreover from i none have "date_keys f items ! i = []" by (simp add: date_keys_def)
  ultimately show "date_keys f items ! j = []" by (simp add: le_Nil_string)
qed

lemma ordered_by_sort_by_date: "ordered_by order_by f (sort_by_date f order_by items)"
proof -
  have asc: "non_decreasing (date_keys f (py_sort (\<lambda>x. get_or x f '''') items))"
    using sorted_py_sort [of "\<lambda>x. get_or x f ''''" items]
    by (simp add: non_decreasing_def date_keys_get_or)
  have "sorted (rev (date_keys f (py_sort_reverse (\<lambda>x. get_or x f '''') items)))"
    using sorted_py_sort_reverse [of "\<lambda>x. get_or x f ''''" items]
    by (simp add: date_keys_get_or)
  then have desc: "non_increasing (date_keys f (py_sort_reverse (\<lambda>x. get_or x f '''') items))"
    by (simp add: non_increasing_def sorted_wrt_rev)
  from asc desc show ?thesis
    by (simp add: ordered_by_def sort_by_date_def non_decreasing_missing_first
        non_increasing_missing_last)
qed

lemma ordered_by_Nil: "ordered_by order_by f []"
  by (simp add: ordered_by_def non_increasing_def non_decreasing_def date_keys_def
      missing_first_def missing_last_def)

lemma ordered_by_answer:
  "ordered_by order_by f (answer k cols cp (sort_by_date f order_by))"
  by (simp add: answer_def ordered_by_Nil ordered_by_sort_by_date split: option.splits)

text \<open>
  Claim C6. Whenever one of the issue-year, expiration-year, expired and expiring-soon
  queries returns a list, \<open>order_by = 'latest'\<close> makes the dates of the list (issueDate for
  the first, expirationDate for the others) non-increasing and \<open>order_by = 'earliest'\<close>
  makes them non-decreasing, a missing date counting as the empty string: rows without a
  date come first under \<open>earliest\<close> and last under \<open>latest\<close>.
\<close>

theorem C6_sort_order:
  "(\<forall>items. fst (query_documents_by_issue_year container permit_type year' organization'
                   operator order_by w) = Inr items
       \<longrightarrow> ordered_by order_by ''issueDate'' items)
   \<and> (\<forall>items. fst (query_documents_by_expiration_year container permit_type year' organization'
                   operator order_by w) = Inr items
       \<longrightarrow> ordered_by order_by ''expirationDate'' items)
   \<and> (\<forall>items. fst (query_expired_documents container organization' order_by w) = Inr items
       \<longrightarrow> ordered_by order_by ''expirationDate'' items)
   \<and> (\<forall>items. fst (query_documents_expiring_soon container days organization' order_by w)
                 = Inr items
       \<longrightarrow> ordered_by order_by ''expirationDate'' items)"
proof (cases container w rule: auto_initialize_cases)
  case (raised e)
  then show ?thesis
    by (simp add: issue_year_raised expiration_year_raised expired_raised expiring_soon_raised)
next
  case (handle k)
  have "\<forall>items. fst (query_documents_expiring_soon container days organization' order_by w)
                 = Inr items
       \<longrightarrow> ordered_by order_by ''expirationDate'' items"
  proof (cases "add_days (clock w (ticks w)) days")
    case (Inl e)
    with handle show ?thesis by (simp add: expiring_soon_overflow)
  next
    case (Inr future)
    with handle show ?thesis
      by (auto simp: expiring_soon_handle Let_def ordered_by_answer)
  qed
  with handle show ?thesis
    by (auto simp: issue_year_handle expiration_year_handle expired_handle Let_def
        ordered_by_answer)
qed

theorem C6_sort_order_witness:
  "\<exists>items. fst (query_documents_by_issue_year (Some store0) None None None None ''earliest'' world0)
             = Inr items
      \<and> length items = 3 \<and> ordered_by ''earliest'' ''issueDate'' items"
proof -
  let ?q = "fst (query_documents_by_issue_year (Some store0) None None None None ''earliest'' world0)"
  have len: "length (projr ?q) = 3" by code_simp
  have "\<not> isl ?q" by code_simp
  then obtain items where items: "?q = Inr items" by (cases ?q) auto
  with C6_sort_order [of "Some store0" None None None None "''earliest''" world0] len
  show ?thesis by auto
qed

subsection \<open>The expired query\<close>

lemma expiry_row_expirationDate:
  "row_get (project expiry_cols (c, p)) ''expirationDate'' = expirationDate p"
  using row_get_project [of expiry_cols "P ''expirationDate''" "(c, p)"]
  by (simp add: expiry_cols_def permit_prop_def)

lemma expiry_row_permitType:
  "row_get (project expiry_cols (c, p)) ''permitType'' = permitType c"
  using row_get_project [of expiry_cols "C ''permitType''" "(c, p)"]
  by (simp add: expiry_cols_def doc_prop_def)

lemma in_answer:
  "r \<in> set (answer k cols cp (sort_by_date f ob)) \<Longrightarrow>
     \<exists>c p. c \<in> set (docs k) \<and> p \<in> set (permits c)
        \<and> list_all (cond_holds (snd cp) c p) (fst cp) \<and> r = project cols (c, p)"
  by (auto simp: answer_def in_run_select split: option.splits)

lemma expired_where_holds:
  "list_all (cond_holds (snd (add_organization org (expired_where cur))) c p)
       (fst (add_organization org (expired_where cur)))
   \<Longrightarrow> (\<exists>e. expirationDate p = Some e \<and> e < cur) \<and> permitType c = Some ''PLO''"
  by (auto simp: add_organization_def expired_where_def permit_prop_def doc_prop_def
      split: option.splits if_splits)

text \<open>
  Claim C5. Every row returned by \<open>query_expired_documents\<close> has an expiration date
  strictly below the current date (so none is greater than or equal to it) and the permit
  type PLO; the current date is the \<open>YYYY-MM-DD\<close> rendering of one reading of the clock,
  and the call reads the clock exactly once.
\<close>

theorem C5_expired_only:
  assumes "fst (query_expired_documents container organization' order_by w) = Inr items"
  shows "(\<forall>r\<in>set items.
            (\<exists>e. row_get r ''expirationDate'' = Some e
                 \<and> e < strftime_ymd (clock w (ticks w))
                 \<and> \<not> e \<ge> strftime_ymd (clock w (ticks w)))
            \<and> row_get r ''permitType'' = Some ''PLO'')
         \<and> ticks (snd (query_expired_documents container organization' order_by w))
             = Suc (ticks w)"
proof (cases container w rule: auto_initialize_cases)
  case (raised e)
  with assms show ?thesis by (simp add: expired_raised)
next
  case (handle k)
  let ?cp = "add_organization organization' (expired_where (strftime_ymd (clock w (ticks w))))"
  from handle assms
  have items: "items = answer k expiry_cols ?cp (sort_by_date ''expirationDate'' order_by)"
    by (simp add: expired_handle Let_def)
  have "(\<exists>e. row_get r ''expirationDate'' = Some e
                 \<and> e < strftime_ymd (clock w (ticks w))
                 \<and> \<not> e \<ge> strftime_ymd (clock w (ticks w)))
            \<and> row_get r ''permitType'' = Some ''PLO''" if "r \<in> set items" for r
  proof -
    from that items obtain c p where
      holds: "list_all (cond_holds (snd ?cp) c p) (fst ?cp)"
      and row: "r = project expiry_cols (c, p)"
      using in_answer by blast
    from expired_where_holds [OF holds] row show ?thesis
      by (auto simp: expiry_row_expirationDate expiry_row_permitType)
  qed
  moreover from handle
  have "ticks (snd (query_expired_documents container organization' order_by w)) = Suc (ticks w)"
    by (simp add: expired_handle Let_def logged_def)
  ultimately show ?thesis by blast
qed

theorem C5_expired_only_witness:
  "\<exists>items. fst (query_expired_documents (Some store0) None ''latest'' world0) = Inr items
      \<and> length items = 1
      \<and> (\<exists>e. row_get (hd items) ''expirationDate'' = Some e
               \<and> e < strftime_ymd (clock world0 (ticks world0)))
      \<and> row_get (hd items) ''permitType'' = Some ''PLO''
      \<and> ticks (snd (query_expired_documents (Some store0) None ''latest'' world0)) = Suc (ticks world0)"
proof -
  let ?q = "fst (query_expired_documents (Some store0) None ''latest'' world0)"
  let ?a = "answer store0 expiry_cols (add_organization None (expired_where ''2025-11-20''))
              (sort_by_date ''expirationDate'' ''latest'')"
  have q: "?q = Inr ?a" by (simp add: expired_handle Let_def today0)
  have len: "length ?a = 1" by code_simp
  then have "hd ?a \<in> set ?a" by (cases ?a) auto
  with C5_expired_only [OF q] q len show ?thesis by auto
qed

subsection \<open>The year queries\<close>

lemma issue_year_row:
  "row_get (project issue_year_cols (c, p)) ''issueDate'' = issueDate p"
  "row_get (project issue_year_cols (c, p)) ''permitType'' = permitType c"
  using row_get_project [of issue_year_cols "P ''issueDate''" "(c, p)"]
    row_get_project [of issue_year_cols "C ''permitType''" "(c, p)"]
  by (simp_all add: issue_year_cols_def permit_prop_def doc_prop_def)

lemma expiration_year_row:
  "row_get (project expiration_year_cols (c, p)) ''expirationDate'' = expirationDate p"
  "row_get (project expiration_year_cols (c, p)) ''permitType'' = permitType c"
  using row_get_project [of expiration_year_cols "P ''expirationDate''" "(c, p)"]
    row_get_project [of expiration_year_cols "C ''permitType''" "(c, p)"]
  by (simp_all add: expiration_year_cols_def permit_prop_def doc_prop_def)

lemma year_cmp_meaning:
  "operator \<in> {''equal'', ''greater'', ''less''} \<Longrightarrow>
     cmp_holds (year_cmp operator) a b = operator_meaning operator a b"
  by (auto simp: year_cmp_def operator_meaning_def)

lemma year_filter_holds:
  assumes op: "operator \<in> {''equal'', ''greater'', ''less''}" and y: "y \<noteq> 0"
    and holds: "list_all (cond_holds (snd cp) c p) (fst cp)"
    and cp: "cp = add_organization org
                    (add_year f (Some operator) (Some y) (add_permit_type pt ([], [])))"
  shows "(\<exists>d yr. permit_prop p f = Some d \<and> sql_YEAR d = Some yr \<and> operator_meaning operator yr y)
         \<and> (truthy_str pt \<longrightarrow> permitType c = pt)"
proof -
  from op have ne: "operator \<noteq> []" by auto
  have yc: "YearCompare (P f) (year_cmp operator) ''@year'' \<in> set (fst cp)"
    using ne y by (auto simp: cp add_organization_def add_year_def add_permit_type_def
        split: option.splits)
  have py: "param_int (snd cp) ''@year'' = Some y"
    using ne y by (auto simp: cp add_organization_def add_year_def add_permit_type_def
        split: option.splits)
  from holds yc have "cond_holds (snd cp) c p (YearCompare (P f) (year_cmp operator) ''@year'')"
    unfolding list_all_iff by blast
  with py have "\<exists>d yr. permit_prop p f = Some d \<and> sql_YEAR d = Some yr
                  \<and> cmp_holds (year_cmp operator) yr y"
    by (auto simp del: param_int.simps split: option.splits Option.bind_splits)
  then have A: "\<exists>d yr. permit_prop p f = Some d \<and> sql_YEAR d = Some yr
                  \<and> operator_meaning operator yr y"
    using year_cmp_meaning [OF op] by auto
  have B: "permitType c = pt" if t: "truthy_str pt"
  proof -
    from t obtain t' where pt: "pt = Some t'" and t': "t' \<noteq> []" by (cases pt) auto
    have "Compare (C ''permitType'') EQ (Param ''@permitType'') \<in> set (fst cp)"
      using pt t' by (auto simp: cp add_organization_def add_year_def add_permit_type_def
          split: option.splits)
    moreover have "param_str (snd cp) ''@permitType'' = Some t'"
      using pt t' ne y by (auto simp: cp add_organization_def add_year_def add_permit_type_def
          split: option.splits)
    moreover from holds
    have "\<forall>x\<in>set (fst cp). cond_holds (snd cp) c p x" unfolding list_all_iff .
    ultimately have "cond_holds (snd cp) c p (Compare (C ''permitType'') EQ (Param ''@permitType''))"
      and "param_str (snd cp) ''@permitType'' = Some t'"
      by blast+
    then show ?thesis
      using pt
      by (auto simp: doc_prop_def simp del: param_str.simps split: option.splits)
  qed
  from A B show ?thesis by blast
qed

text \<open>
  Claim C3. Let the operator be one of \<open>equal\<close>, \<open>greater\<close>, \<open>less\<close> and the year be a year
  (not zero). Every row returned by \<open>query_documents_by_issue_year\<close> has an issue date
  whose year satisfies the operator relative to the year (\<open>equal\<close>: equality, \<open>greater\<close>:
  greater or equal, \<open>less\<close>: less or equal), and has the requested permit type when one is
  given. The same holds for \<open>query_documents_by_expiration_year\<close> and the expiration date.
\<close>

theorem C3_year_operator:
  assumes "operator \<in> {''equal'', ''greater'', ''less''}" and "y \<noteq> 0"
  shows "(\<forall>items. fst (query_documents_by_issue_year container permit_type (Some y)
                         organization' (Some operator) order_by w) = Inr items
            \<longrightarrow> (\<forall>r\<in>set items.
                   (\<exists>d yr. row_get r ''issueDate'' = Some d \<and> sql_YEAR d = Some yr
                           \<and> operator_meaning operator yr y)
                   \<and> (truthy_str permit_type \<longrightarrow> row_get r ''permitType'' = permit_type)))
       \<and> (\<forall>items. fst (query_documents_by_expiration_year container permit_type (Some y)
                         organization' (Some operator) order_by w) = Inr items
            \<longrightarrow> (\<forall>r\<in>set items.
                   (\<exists>d yr. row_get r ''expirationDate'' = Some d \<and> sql_YEAR d = Some yr
                           \<and> operator_meaning operator yr y)
                   \<and> (truthy_str permit_type \<longrightarrow> row_get r ''permitType'' = permit_type)))"
proof (cases container w rule: auto_initialize_cases)
  case (raised e)
  then show ?thesis by (simp add: issue_year_raised expiration_year_raised)
next
  case (handle k)
  let ?cp = "\<lambda>f. add_organization organization'
                (add_year f (Some operator) (Some y) (add_permit_type permit_type ([], [])))"
  have issue: "(\<exists>d yr. row_get r ''issueDate'' = Some d \<and> sql_YEAR d = Some yr
                           \<and> operator_meaning operator yr y)
                   \<and> (truthy_str permit_type \<longrightarrow> row_get r ''permitType'' = permit_type)"
    if "r \<in> set (answer k issue_year_cols (?cp ''issueDate'') (sort_by_date ''issueDate'' order_by))"
    for r
  proof -
    from in_answer [OF that] obtain c p where
      holds: "list_all (cond_holds (snd (?cp ''issueDate'')) c p) (fst (?cp ''issueDate''))"
      and row: "r = project issue_year_cols (c, p)" by blast
    from year_filter_holds [OF assms holds refl] row show ?thesis
      by (simp add: issue_year_row permit_prop_def)
  qed
  have expiration: "(\<exists>d yr. row_get r ''expirationDate'' = Some d \<and> sql_YEAR d = Some yr
                           \<and> operator_meaning operator yr y)
                   \<and> (truthy_str permit_type \<longrightarrow> row_get r ''permitType'' = permit_type)"
    if "r \<in> set (answer k expiration_year_cols (?cp ''expirationDate'')
                    (sort_by_date ''expirationDate'' order_by))"
    for r
  proof -
    from in_answer [OF that] obtain c p where
      holds: "list_all (cond_holds (snd (?cp ''expirationDate'')) c p)
                (fst (?cp ''expirationDate''))"
      and row: "r = project expiration_year_cols (c, p)" by blast
    from year_filter_holds [OF assms holds refl] row show ?thesis
      by (simp add: expiration_year_row permit_prop_def)
  qed
  from handle issue expiration show ?thesis
    by (simp add: issue_year_handle expiration_year_handle Let_def)
qed

theorem C3_year_operator_witness:
  "''greater'' \<in> {''equal'', ''greater'', ''less''} \<and> (2023::int) \<noteq> 0
   \<and> (\<exists>items. fst (query_documents_by_issue_year (Some store0) (Some ''PLO'') (Some 2023) None
                       (Some ''greater'') ''latest'' world0) = Inr items
          \<and> length items = 1
          \<and> (\<exists>d yr. row_get (hd items) ''issueDate'' = Some d \<and> sql_YEAR d = Some yr
                     \<and> operator_meaning ''greater'' yr 2023)
          \<and> row_get (hd items) ''permitType'' = Some ''PLO'')"
proof -
  let ?q = "fst (query_documents_by_issue_year (Some store0) (Some ''PLO'') (Some 2023) None
                       (Some ''greater'') ''latest'' world0)"
  let ?a = "answer store0 issue_year_cols
              (add_organization None
                 (add_year ''issueDate'' (Some ''greater'') (Some 2023)
                    (add_permit_type (Some ''PLO'') ([], []))))
              (sort_by_date ''issueDate'' ''latest'')"
  have op: "''greater'' \<in> {''equal'', ''greater'', ''less''}" and y: "(2023::int) \<noteq> 0"
    by simp_all
  have q: "?q = Inr ?a" by (simp add: issue_year_handle Let_def)
  have len: "length ?a = 1" by code_simp
  then have "hd ?a \<in> set ?a" by (cases ?a) auto
  with C3_year_operator [OF op y, of "Some store0" "Some ''PLO''" None "''latest''" world0] q len
  show ?thesis by auto
qed

subsection \<open>The expiring-soon query\<close>

lemma expiring_where_holds:
  "list_all (cond_holds (snd (add_organization org (expiring_where cur fut))) (fst cp) (snd cp))
       (fst (add_organization org (expiring_where cur fut)))
   \<longleftrightarrow> expiring_entry cur fut org cp"
  by (cases org)
     (auto simp: add_organization_def expiring_where_def expiring_entry_def permit_prop_def
        doc_prop_def split: option.splits)

text \<open>The end of the window is a date of the calendar.\<close>

lemma add_days_valid:
  assumes "add_days t n = Inr future"
  shows "valid_date (year future) (month future) (day future)"
proof -
  from assms have "toordinal t + n \<le> MAXORDINAL"
    by (auto simp: add_days_def Let_def split: if_splits)
  with add_days_ordinal [OF assms] have le: "toordinal future \<le> MAXORDINAL" by simp
  from add_days_ordinal [OF assms]
  have b: "1 \<le> year future" "1 \<le> month future" "month future \<le> 12" "1 \<le> day future"
    "day future \<le> days_in_month (year future) (month future)"
    by simp_all
  from b(2,3,4) le have "year future \<le> 9999"
    unfolding toordinal_def by (rule year_of_ordinal)
  with b show ?thesis by (simp add: valid_date_def)
qed

text \<open>
  From year 1000 on, the two comparisons of the query, made on text, say that the day named
  by a stored \<open>YYYY-MM-DD\<close> date lies in the window of \<open>days\<close> days from the current day.
\<close>

lemma window_chronological:
  assumes cur: "valid_date (year t) (month t) (day t)" "1000 \<le> year t"
    and fut: "add_days t n = Inr future" "1000 \<le> year future"
    and s: "is_YYYY_MM_DD s" "1000 \<le> year (date_of s)"
  shows "strftime_ymd t \<le> s \<and> s \<le> strftime_ymd future \<longleftrightarrow> in_window t n (date_of s)"
proof -
  from s(1) have v: "valid_date (year (date_of s)) (month (date_of s)) (day (date_of s))"
    by (simp add: is_YYYY_MM_DD_def date_of_def midnight_def)
  have "strftime_ymd t \<le> strftime_ymd (date_of s) \<longleftrightarrow> toordinal t \<le> toordinal (date_of s)"
    using cur v s(2) by (rule strftime_ymd_chronological)
  moreover
  have "strftime_ymd (date_of s) \<le> strftime_ymd future
          \<longleftrightarrow> toordinal (date_of s) \<le> toordinal future"
    using v s(2) add_days_valid [OF fut(1)] fut(2) by (rule strftime_ymd_chronological)
  moreover have "toordinal future = toordinal t + n"
    using add_days_ordinal [OF fut(1)] by simp
  ultimately show ?thesis
    unfolding in_window_def strftime_ymd_date_of [OF s] by simp
qed

lemma expiring_entry_chronological:
  assumes cur: "valid_date (year t) (month t) (day t)" "1000 \<le> year t"
    and fut: "add_days t n = Inr future" "1000 \<le> year future"
    and s: "expirationDate p = Some s" "is_YYYY_MM_DD s" "1000 \<le> year (date_of s)"
  shows "expiring_entry (strftime_ymd t) (strftime_ymd future) org (c, p)
           \<longleftrightarrow> permitType c = Some ''PLO'' \<and> in_window t n (date_of s)
               \<and> (truthy_str org \<longrightarrow> organization c = org)"
  using window_chronological [OF cur fut s(2,3)] s(1)
  by (auto simp: expiring_entry_def)

text \<open>With \<open>order_by\<close> left out, the other three date queries sort from latest to earliest.\<close>

lemma latest_by_default:
  "\<forall>items. fst (expired_call container organization' None w) = Inr items
      \<longrightarrow> non_increasing (date_keys ''expirationDate'' items)"
  "\<forall>items. fst (issue_year_call container permit_type year' organization' operator None w)
             = Inr items
      \<longrightarrow> non_increasing (date_keys ''issueDate'' items)"
  "\<forall>items. fst (expiration_year_call container permit_type year' organization' operator None w)
             = Inr items
      \<longrightarrow> non_increasing (date_keys ''expirationDate'' items)"
proof -
  have o: "non_increasing (date_keys f (answer k cols cp (sort_by_date f ''latest'')))"
    for f k cols cp
    using ordered_by_answer [of "''latest''" f k cols cp] by (simp add: ordered_by_def)
  show "\<forall>items. fst (expired_call container organization' None w) = Inr items
      \<longrightarrow> non_increasing (date_keys ''expirationDate'' items)"
    by (cases container w rule: auto_initialize_cases)
       (auto simp: expired_call_def keyword_def default_order_by_expired_def expired_raised
          expired_handle Let_def o)
  show "\<forall>items. fst (issue_year_call container permit_type year' organization' operator None w)
             = Inr items
      \<longrightarrow> non_increasing (date_keys ''issueDate'' items)"
    by (cases container w rule: auto_initialize_cases)
       (auto simp: issue_year_call_def keyword_def default_order_by_issue_year_def
          issue_year_raised issue_year_handle Let_def o)
  show "\<forall>items. fst (expiration_year_call container permit_type year' organization' operator
                        None w) = Inr items
      \<longrightarrow> non_increasing (date_keys ''expirationDate'' items)"
    by (cases container w rule: auto_initialize_cases)
       (auto simp: expiration_year_call_def keyword_def default_order_by_expiration_year_def
          expiration_year_raised expiration_year_handle Let_def o)
qed

lemma expiring_soon_call_result:
  assumes "auto_initialize container w = (Inr k, w)"
    and "\<forall>q ps. failure k q ps = None"
    and "add_days (clock w (ticks w)) (keyword default_days_expiring_soon days) = Inr future"
  shows "expiring_soon_call container days organization' order_by w
           = (Inr (sort_by_date ''expirationDate'' (keyword default_order_by_expiring_soon order_by)
                     (map (project expiry_cols)
                        (filter (expiring_entry (strftime_ymd (clock w (ticks w)))
                                   (strftime_ymd future) organization')
                           (join_permits (docs k))))),
              logged (w\<lparr>ticks := Suc (Suc (ticks w))\<rparr>)
                (Select expiry_cols
                   (fst (add_organization organization'
                           (expiring_where (strftime_ymd (clock w (ticks w)))
                              (strftime_ymd future)))))
                (snd (add_organization organization'
                        (expiring_where (strftime_ymd (clock w (ticks w)))
                           (strftime_ymd future)))))"
  using assms
  by (simp add: expiring_soon_call_def expiring_soon_handle Let_def answer_def run_select_def
      matching_def expiring_where_holds)

text \<open>
  Claim C4, as amended. Let the container be available, the gateway answer, and the current
  date plus \<open>days\<close> be a date of the years 1 to 9999 (\<open>days\<close> left out counts as 30). Then
  \<open>query_documents_expiring_soon\<close> returns exactly (as a multiset) the entries of PLO
  documents whose expiration date, compared as text, lies between the rendering of the
  current date and the rendering of the current date plus \<open>days\<close>, both bounds included
  (and of the organization when one is given). Both bounds come from the first reading of
  the clock; the call reads the clock a second time and discards that reading. When the
  current date and the end of the window are of year 1000 or later, a stored valid
  \<open>YYYY-MM-DD\<close> date of year 1000 or later passes the comparison exactly when its day lies
  in the window from the current day to \<open>days\<close> days later, both included. With \<open>order_by\<close>
  left out the call behaves as with \<open>earliest\<close>, which sorts the expiration dates in
  non-decreasing order; with \<open>days\<close> left out it behaves as with 30; the other three date
  queries, with \<open>order_by\<close> left out, sort from latest to earliest.
\<close>

theorem C4_expiring_window:
  assumes "auto_initialize container w = (Inr k, w)"
    and "\<forall>q ps. failure k q ps = None"
    and "add_days (clock w (ticks w)) (keyword default_days_expiring_soon days) = Inr future"
  shows "toordinal future
           = toordinal (clock w (ticks w)) + keyword default_days_expiring_soon days
       \<and> ticks (snd (expiring_soon_call container days organization' order_by w))
            = Suc (Suc (ticks w))
       \<and> (\<exists>items. fst (expiring_soon_call container days organization' order_by w) = Inr items
           \<and> mset items = mset (map (project expiry_cols)
                 (filter (expiring_entry (strftime_ymd (clock w (ticks w))) (strftime_ymd future)
                            organization')
                    (join_permits (docs k))))
           \<and> (order_by = None \<or> order_by = Some ''earliest''
                \<longrightarrow> non_decreasing (date_keys ''expirationDate'' items)))
       \<and> (valid_date (year (clock w (ticks w))) (month (clock w (ticks w)))
             (day (clock w (ticks w)))
           \<and> 1000 \<le> year (clock w (ticks w)) \<and> 1000 \<le> year future
           \<longrightarrow> (\<forall>c p s. expirationDate p = Some s \<and> is_YYYY_MM_DD s \<and> 1000 \<le> year (date_of s)
                  \<longrightarrow> (expiring_entry (strftime_ymd (clock w (ticks w))) (strftime_ymd future)
                         organization' (c, p)
                       \<longleftrightarrow> permitType c = Some ''PLO''
                           \<and> in_window (clock w (ticks w))
                               (keyword default_days_expiring_soon days) (date_of s)
                           \<and> (truthy_str organization' \<longrightarrow> organization c = organization'))))
       \<and> expiring_soon_call container None organization' order_by w
           = expiring_soon_call container (Some 30) organization' order_by w
       \<and> expiring_soon_call container days organization' None w
           = expiring_soon_call container days organization' (Some ''earliest'') w
       \<and> (\<forall>items. fst (expired_call container organization' None w) = Inr items
             \<longrightarrow> non_increasing (date_keys ''expirationDate'' items))
       \<and> (\<forall>permit_type year' operator items.
             fst (issue_year_call container permit_type year' organization' operator None w)
               = Inr items
             \<longrightarrow> non_increasing (date_keys ''issueDate'' items))
       \<and> (\<forall>permit_type year' operator items.
             fst (expiration_year_call container permit_type year' organization' operator None w)
               = Inr items
             \<longrightarrow> non_increasing (date_keys ''expirationDate'' items))"
proof -
  let ?now = "clock w (ticks w)"
  let ?days = "keyword default_days_expiring_soon days"
  let ?ob = "keyword default_order_by_expiring_soon order_by"
  let ?rows = "map (project expiry_cols)
                 (filter (expiring_entry (strftime_ymd ?now) (strftime_ymd future) organization')
                    (join_permits (docs k)))"
  let ?items = "sort_by_date ''expirationDate'' ?ob ?rows"
  note result = expiring_soon_call_result [OF assms, of organization' order_by]
  have d: "toordinal future = toordinal ?now + ?days"
    using add_days_ordinal [OF assms(3)] by simp
  have t: "ticks (snd (expiring_soon_call container days organization' order_by w))
             = Suc (Suc (ticks w))"
    by (simp add: result logged_def)
  have q: "fst (expiring_soon_call container days organization' order_by w) = Inr ?items"
    by (simp add: result)
  have m: "mset ?items = mset ?rows" by simp
  have "ordered_by ?ob ''expirationDate'' ?items" by (rule ordered_by_sort_by_date)
  then have o: "order_by = None \<or> order_by = Some ''earliest''
                \<longrightarrow> non_decreasing (date_keys ''expirationDate'' ?items)"
    by (auto simp: ordered_by_def keyword_def default_order_by_expiring_soon_def)
  from q m o
  have r: "\<exists>items. fst (expiring_soon_call container days organization' order_by w) = Inr items
           \<and> mset items = mset ?rows
           \<and> (order_by = None \<or> order_by = Some ''earliest''
                \<longrightarrow> non_decreasing (date_keys ''expirationDate'' items))"
    by blast
  have c: "valid_date (year ?now) (month ?now) (day ?now)
           \<and> 1000 \<le> year ?now \<and> 1000 \<le> year future
           \<longrightarrow> (\<forall>c p s. expirationDate p = Some s \<and> is_YYYY_MM_DD s \<and> 1000 \<le> year (date_of s)
                  \<longrightarrow> (expiring_entry (strftime_ymd ?now) (strftime_ymd future) organization' (c, p)
                       \<longleftrightarrow> permitType c = Some ''PLO'' \<and> in_window ?now ?days (date_of s)
                           \<and> (truthy_str organization' \<longrightarrow> organization c = organization')))"
    using expiring_entry_chronological [OF _ _ assms(3)] by blast
  have d30: "expiring_soon_call container None organization' order_by w
           = expiring_soon_call container (Some 30) organization' order_by w"
    by (simp add: expiring_soon_call_def keyword_def default_days_expiring_soon_def)
  have e: "expiring_soon_call container days organization' None w
           = expiring_soon_call container days organization' (Some ''earliest'') w"
    by (simp add: expiring_soon_call_def keyword_def default_order_by_expiring_soon_def)
  from d t r c d30 e latest_by_default [where container = container and organization' = organization'
      and w = w]
  show ?thesis
    by (intro conjI) blast+
qed

lemma future0:
  "add_days (clock world0 (ticks world0)) 30
     = Inr \<lparr>year = 2025, month = 12, day = 20, hour = 9, minute = 30, second = 0,
            microsecond = 0\<rparr>"
  by code_simp

lemma future0_str:
  "strftime_ymd \<lparr>year = 2025, month = 12, day = 20, hour = 9, minute = 30, second = 0,
            microsecond = 0\<rparr> = ''2025-12-20''"
  by code_simp

lemma window0:
  "filter (expiring_entry ''2025-11-20'' ''2025-12-20'' None) (join_permits (docs store1))
     = [(hd docs1, permits (hd docs1) ! 1), (hd docs1, permits (hd docs1) ! 2)]"
  by code_simp

lemma dates0:
  "valid_date (year (clock world0 (ticks world0))) (month (clock world0 (ticks world0)))
     (day (clock world0 (ticks world0)))"
  "is_YYYY_MM_DD ''2025-12-20''" "is_YYYY_MM_DD ''2025-12-21''"
  "in_window (clock world0 (ticks world0)) 30 (date_of ''2025-12-20'')"
  "\<not> in_window (clock world0 (ticks world0)) 30 (date_of ''2025-12-21'')"
  "year (date_of ''2025-12-20'') = 2025" "year (date_of ''2025-12-21'') = 2025"
  by code_simp+

theorem C4_expiring_window_witness:
  "auto_initialize (Some store1) world0 = (Inr store1, world0)
   \<and> (\<forall>q ps. failure store1 q ps = None)
   \<and> add_days (clock world0 (ticks world0)) (keyword default_days_expiring_soon None)
        = Inr \<lparr>year = 2025, month = 12, day = 20, hour = 9, minute = 30, second = 0,
               microsecond = 0\<rparr>
   \<and> (\<exists>items. fst (expiring_soon_call (Some store1) None None None world0) = Inr items
          \<and> mset items = mset (map (project expiry_cols) [(hd docs1, permits (hd docs1) ! 1),
                                                            (hd docs1, permits (hd docs1) ! 2)])
          \<and> non_decreasing (date_keys ''expirationDate'' items))
   \<and> valid_date (year (clock world0 (ticks world0))) (month (clock world0 (ticks world0)))
        (day (clock world0 (ticks world0)))
   \<and> year (clock world0 (ticks world0)) = 2025
   \<and> expirationDate (permits (hd docs1) ! 1) = Some ''2025-12-20''
   \<and> is_YYYY_MM_DD ''2025-12-20''
   \<and> in_window (clock world0 (ticks world0)) 30 (date_of ''2025-12-20'')
   \<and> expiring_entry ''2025-11-20'' ''2025-12-20'' None (hd docs1, permits (hd docs1) ! 1)
   \<and> expirationDate (hd (permits (hd docs1))) = Some ''2025-12-21''
   \<and> is_YYYY_MM_DD ''2025-12-21''
   \<and> \<not> in_window (clock world0 (ticks world0)) 30 (date_of ''2025-12-21'')
   \<and> \<not> expiring_entry ''2025-11-20'' ''2025-12-20'' None (hd docs1, hd (permits (hd docs1)))
   \<and> (\<exists>items. fst (expired_call (Some store1) None None world0) = Inr items
          \<and> non_increasing (date_keys ''expirationDate'' items))"
proof -
  let ?future = "\<lparr>year = 2025, month = 12, day = 20, hour = 9, minute = 30, second = 0,
               microsecond = 0\<rparr>"
  have a: "auto_initialize (Some store1) world0 = (Inr store1, world0)" by simp
  have c: "\<forall>q ps. failure store1 q ps = None" by (simp add: store1_def)
  have k: "keyword default_days_expiring_soon None = 30"
    by (simp add: keyword_def default_days_expiring_soon_def)
  have f: "add_days (clock world0 (ticks world0)) (keyword default_days_expiring_soon None)
             = Inr ?future"
    unfolding k by (rule future0)
  note inst = C4_expiring_window [OF a c f, of None None, unfolded k today0 future0_str window0]
  have y: "year (clock world0 (ticks world0)) = 2025" by (simp add: world0_def)
  have e1: "expirationDate (permits (hd docs1) ! 1) = Some ''2025-12-20''"
    by (simp add: docs1_def)
  have e0: "expirationDate (hd (permits (hd docs1))) = Some ''2025-12-21''"
    by (simp add: docs1_def)
  from inst
  have 1: "\<exists>items. fst (expiring_soon_call (Some store1) None None None world0) = Inr items
          \<and> mset items = mset (map (project expiry_cols) [(hd docs1, permits (hd docs1) ! 1),
                                                            (hd docs1, permits (hd docs1) ! 2)])
          \<and> non_decreasing (date_keys ''expirationDate'' items)"
    by blast
  from inst dates0 y
  have 2: "\<forall>c p s. expirationDate p = Some s \<and> is_YYYY_MM_DD s \<and> 1000 \<le> year (date_of s)
              \<longrightarrow> (expiring_entry ''2025-11-20'' ''2025-12-20'' None (c, p)
                   \<longleftrightarrow> permitType c = Some ''PLO''
                       \<and> in_window (clock world0 (ticks world0)) 30 (date_of s)
                       \<and> (truthy_str None \<longrightarrow> organization c = None))"
    by simp
  have pt: "permitType (hd docs1) = Some ''PLO''" by (simp add: docs1_def)
  from 2 [THEN spec [where x = "hd docs1"], THEN spec [where x = "permits (hd docs1) ! 1"],
      THEN spec [where x = "''2025-12-20''"]] e1 dates0 pt
  have 3: "expiring_entry ''2025-11-20'' ''2025-12-20'' None (hd docs1, permits (hd docs1) ! 1)"
    by simp
  from 2 [THEN spec [where x = "hd docs1"], THEN spec [where x = "hd (permits (hd docs1))"],
      THEN spec [where x = "''2025-12-21''"]] e0 dates0 pt
  have 4: "\<not> expiring_entry ''2025-11-20'' ''2025-12-20'' None (hd docs1, hd (permits (hd docs1)))"
    by simp
  have "\<exists>r. fst (expired_call (Some store1) None None world0) = Inr r"
    by (simp add: expired_call_def expired_handle [OF a] Let_def)
  with inst
  have 5: "\<exists>items. fst (expired_call (Some store1) None None world0) = Inr items
          \<and> non_increasing (date_keys ''expirationDate'' items)"
    by blast
  from a c f 1 dates0 y e1 e0 3 4 5 show ?thesis by simp
qed

text \<open>
  The claim as stated in C4 fails for values of \<open>days\<close> that lead out of the years 1000 to
  9999. On 20 November 2025, \<open>days = -380000\<close> ends the window on 25 June 985, which
  \<open>strftime\<close> renders as \<open>985-06-25\<close>: compared as text, every date of 2025 lies below it,
  and the call returns the three entries that expire on or after the current day, none of
  which is in the (empty) window of days. With \<open>days = 10000000\<close> the end of the window is
  no date, and the call raises OverflowError instead of returning.
\<close>

lemma past0:
  "add_days (clock world0 (ticks world0)) (- 380000)
     = Inr \<lparr>year = 985, month = 6, day = 25, hour = 9, minute = 30, second = 0,
            microsecond = 0\<rparr>"
  by code_simp

lemma past0_str:
  "strftime_ymd \<lparr>year = 985, month = 6, day = 25, hour = 9, minute = 30, second = 0,
            microsecond = 0\<rparr> = ''985-06-25''"
  by code_simp

lemma answer_past0:
  "answer store1 expiry_cols
     (add_organization None (expiring_where ''2025-11-20'' ''985-06-25''))
     (sort_by_date ''expirationDate'' ''earliest'')
   = map (project expiry_cols)
       [(hd docs1, permits (hd docs1) ! 2), (hd docs1, permits (hd docs1) ! 1),
        (hd docs1, hd (permits (hd docs1)))]"
  by code_simp

lemma outside0:
  "\<not> in_window (clock world0 (ticks world0)) (- 380000) (date_of ''2025-11-20'')"
  "\<not> in_window (clock world0 (ticks world0)) (- 380000) (date_of ''2025-12-20'')"
  "\<not> in_window (clock world0 (ticks world0)) (- 380000) (date_of ''2025-12-21'')"
  by code_simp+

lemma overflow0:
  "add_days (clock world0 (ticks world0)) 10000000
     = Inl (OverflowError ''date value out of range'')"
  by code_simp

theorem C4_counterexample:
  "fst (query_documents_expiring_soon (Some store1) (- 380000) None ''earliest'' world0)
     = Inr (map (project expiry_cols)
              [(hd docs1, permits (hd docs1) ! 2), (hd docs1, permits (hd docs1) ! 1),
               (hd docs1, hd (permits (hd docs1)))])
   \<and> expirationDate (permits (hd docs1) ! 2) = Some ''2025-11-20''
   \<and> expirationDate (permits (hd docs1) ! 1) = Some ''2025-12-20''
   \<and> expirationDate (hd (permits (hd docs1))) = Some ''2025-12-21''
   \<and> \<not> in_window (clock world0 (ticks world0)) (- 380000) (date_of ''2025-11-20'')
   \<and> \<not> in_window (clock world0 (ticks world0)) (- 380000) (date_of ''2025-12-20'')
   \<and> \<not> in_window (clock world0 (ticks world0)) (- 380000) (date_of ''2025-12-21'')
   \<and> fst (query_documents_expiring_soon (Some store1) 10000000 None ''earliest'' world0)
       = Inl (OverflowError ''date value out of range'')"
proof -
  have a: "auto_initialize (Some store1) world0 = (Inr store1, world0)" by simp
  have 1: "fst (query_documents_expiring_soon (Some store1) (- 380000) None ''earliest'' world0)
     = Inr (map (project expiry_cols)
              [(hd docs1, permits (hd docs1) ! 2), (hd docs1, permits (hd docs1) ! 1),
               (hd docs1, hd (permits (hd docs1)))])"
    by (simp add: expiring_soon_handle [OF a past0] Let_def today0 past0_str answer_past0)
  have 2: "fst (query_documents_expiring_soon (Some store1) 10000000 None ''earliest'' world0)
       = Inl (OverflowError ''date value out of range'')"
    by (simp add: expiring_soon_overflow [OF a overflow0])
  have 3: "expirationDate (permits (hd docs1) ! 2) = Some ''2025-11-20''"
    "expirationDate (permits (hd docs1) ! 1) = Some ''2025-12-20''"
    "expirationDate (hd (permits (hd docs1))) = Some ''2025-12-21''"
    by (simp_all add: docs1_def)
  from 1 2 3 outside0 show ?thesis by simp
qed

subsection \<open>The permit-number query\<close>

lemma starts_with_prefix: "starts_with s t \<longleftrightarrow> prefix t s"
  by (induction s t rule: starts_with.induct) auto

lemma sql_CONTAINS_sublist: "sql_CONTAINS s t \<longleftrightarrow> sublist t s"
  by (induction s) (auto simp: starts_with_prefix sublist_Cons_right)

lemma find_filter: "List.find pred xs = (case filter pred xs of [] \<Rightarrow> None | x # rest \<Rightarrow> Some x)"
  by (induction xs) auto

lemma by_number_raised:
  "auto_initialize container w = (Inl e, w) \<Longrightarrow>
     query_permit_by_number container permit_number w = (Inl e, w)"
  by (simp add: query_permit_by_number_def)

lemma by_number_short:
  "auto_initialize container w = (Inr k, w) \<Longrightarrow> \<not> truthy_str permit_number \<Longrightarrow>
     query_permit_by_number container permit_number w = (Inr None, w)"
  by (cases permit_number) (simp_all add: query_permit_by_number_def)

lemma by_number_select:
  "run_select detail_cols [Compare (P ''permitNumber'') EQ (Param ''@permitNumber'')]
       [(''@permitNumber'', PStr n)] ds
     = map (project detail_cols) (filter (\<lambda>cp. permitNumber (snd cp) = Some n) (join_permits ds))"
proof -
  have "list_all (cond_holds [(''@permitNumber'', PStr n)] (fst cp) (snd cp))
          [Compare (P ''permitNumber'') EQ (Param ''@permitNumber'')]
        \<longleftrightarrow> permitNumber (snd cp) = Some n" for cp
    by (auto simp: permit_prop_def split: option.splits)
  then show ?thesis by (simp add: run_select_def matching_def)
qed

lemma by_number_handle:
  "auto_initialize container w = (Inr k, w) \<Longrightarrow> n \<noteq> [] \<Longrightarrow>
     query_permit_by_number container (Some n) w
       = (Inr (case failure k (Select detail_cols
                        [Compare (P ''permitNumber'') EQ (Param ''@permitNumber'')])
                      [(''@permitNumber'', PStr n)] of
                 Some e \<Rightarrow> None
               | None \<Rightarrow> map_option (project detail_cols)
                           (List.find (\<lambda>cp. permitNumber (snd cp) = Some n) (join_permits (docs k)))),
          logged w (Select detail_cols [Compare (P ''permitNumber'') EQ (Param ''@permitNumber'')])
            [(''@permitNumber'', PStr n)])"
  by (simp add: query_permit_by_number_def query_items_eq by_number_select find_filter
      split: option.splits list.splits)

lemma by_number_available:
  assumes "auto_initialize container w = (Inr k, w)"
  shows "(\<not> truthy_str permit_number
            \<longrightarrow> query_permit_by_number container permit_number w = (Inr None, w)
                \<and> issued (snd (query_permit_by_number container permit_number w)) = issued w)
       \<and> (\<exists>found. fst (query_permit_by_number container permit_number w) = Inr found)
       \<and> (\<forall>n. permit_number = Some n \<and> n \<noteq> []
                \<and> (\<forall>c\<in>set (docs k). \<forall>p\<in>set (permits c). permitNumber p \<noteq> Some n)
            \<longrightarrow> fst (query_permit_by_number container permit_number w) = Inr None)
       \<and> (\<forall>n cp. permit_number = Some n \<and> n \<noteq> []
                \<and> failure k (Select detail_cols
                        [Compare (P ''permitNumber'') EQ (Param ''@permitNumber'')])
                      [(''@permitNumber'', PStr n)] = None
                \<and> List.find (\<lambda>cp. permitNumber (snd cp) = Some n) (join_permits (docs k)) = Some cp
            \<longrightarrow> fst (query_permit_by_number container permit_number w)
                  = Inr (Some (project detail_cols cp)))"
proof (intro conjI allI impI)
  assume "\<not> truthy_str permit_number"
  with assms show "query_permit_by_number container permit_number w = (Inr None, w)"
    by (rule by_number_short)
  then show "issued (snd (query_permit_by_number container permit_number w)) = issued w"
    by simp
next
  show "\<exists>found. fst (query_permit_by_number container permit_number w) = Inr found"
  proof (cases "truthy_str permit_number")
    case False
    with assms show ?thesis by (simp add: by_number_short)
  next
    case True
    then obtain n where "permit_number = Some n" "n \<noteq> []" by (cases permit_number) auto
    with assms show ?thesis by (simp add: by_number_handle)
  qed
next
  fix n
  assume a: "permit_number = Some n \<and> n \<noteq> []
                \<and> (\<forall>c\<in>set (docs k). \<forall>p\<in>set (permits c). permitNumber p \<noteq> Some n)"
  then have "filter (\<lambda>cp. permitNumber (snd cp) = Some n) (join_permits (docs k)) = []"
    by (auto simp: filter_empty_conv set_join_permits)
  then have "List.find (\<lambda>cp. permitNumber (snd cp) = Some n) (join_permits (docs k)) = None"
    by (simp add: find_filter)
  with a assms show "fst (query_permit_by_number container permit_number w) = Inr None"
    by (simp add: by_number_handle split: option.splits)
next
  fix n cp
  assume "permit_number = Some n \<and> n \<noteq> []
                \<and> failure k (Select detail_cols
                        [Compare (P ''permitNumber'') EQ (Param ''@permitNumber'')])
                      [(''@permitNumber'', PStr n)] = None
                \<and> List.find (\<lambda>cp. permitNumber (snd cp) = Some n) (join_permits (docs k)) = Some cp"
  with assms show "fst (query_permit_by_number container permit_number w)
                  = Inr (Some (project detail_cols cp))"
    by (simp add: by_number_handle)
qed

text \<open>
  Claim C7, as amended. When the container is available (supplied, or built by
  \<open>get_permit_container\<close>), \<open>query_permit_by_number\<close> called with a missing or empty permit
  number returns None and leaves the world as it was: no query is issued. It then always
  returns (it does not raise). With a number that no entry carries it returns None; with a
  number that some entry carries, and no gateway failure, it returns the row of the first
  such entry in the order of the join. When no container is supplied and
  \<open>get_permit_container\<close> raises, the call raises the same exception whatever the permit
  number is: the container is built before the permit number is looked at.
\<close>

theorem C7_permit_by_number:
  "(\<forall>k. auto_initialize container w = (Inr k, w) \<longrightarrow>
      (\<not> truthy_str permit_number
                  \<longrightarrow> query_permit_by_number container permit_number w = (Inr None, w)
                      \<and> issued (snd (query_permit_by_number container permit_number w)) = issued w)
             \<and> (\<exists>found. fst (query_permit_by_number container permit_number w) = Inr found)
             \<and> (\<forall>n. permit_number = Some n \<and> n \<noteq> []
                      \<and> (\<forall>c\<in>set (docs k). \<forall>p\<in>set (permits c). permitNumber p \<noteq> Some n)
                  \<longrightarrow> fst (query_permit_by_number container permit_number w) = Inr None)
             \<and> (\<forall>n cp. permit_number = Some n \<and> n \<noteq> []
                      \<and> failure k (Select detail_cols
                              [Compare (P ''permitNumber'') EQ (Param ''@permitNumber'')])
                            [(''@permitNumber'', PStr n)] = None
                      \<and> List.find (\<lambda>cp. permitNumber (snd cp) = Some n) (join_permits (docs k)) = Some cp
                  \<longrightarrow> fst (query_permit_by_number container permit_number w)
                        = Inr (Some (project detail_cols cp))))
   \<and> (\<forall>e. auto_initialize container w = (Inl e, w)
          \<longrightarrow> query_permit_by_number container permit_number w = (Inl e, w))
   \<and> (\<forall>e. container = None \<and> fst (get_permit_container w) = Inl e
          \<longrightarrow> fst (query_permit_by_number container permit_number w) = Inl e)"
proof (rule conjI [OF _ conjI])
  show "\<forall>e. auto_initialize container w = (Inl e, w)
          \<longrightarrow> query_permit_by_number container permit_number w = (Inl e, w)"
    by (intro allI impI) (rule by_number_raised)
  show "\<forall>e. container = None \<and> fst (get_permit_container w) = Inl e
          \<longrightarrow> fst (query_permit_by_number container permit_number w) = Inl e"
    by (intro allI impI) (simp add: by_number_raised [OF auto_initialize_raised])
qed (intro allI impI, rule by_number_available)

lemma find0_kkpr:
  "List.find (\<lambda>cp. permitNumber (snd cp) = Some ''KKPR-2023-010'') (join_permits (docs store0))
     = Some (docs0 ! 1, hd (permits (docs0 ! 1)))"
  by code_simp

theorem C7_permit_by_number_witness:
  "auto_initialize (Some store0) world0 = (Inr store0, world0)
   \<and> \<not> truthy_str None \<and> \<not> truthy_str (Some [])
   \<and> query_permit_by_number (Some store0) None world0 = (Inr None, world0)
   \<and> query_permit_by_number (Some store0) (Some []) world0 = (Inr None, world0)
   \<and> fst (query_permit_by_number (Some store0) (Some ''PLO-0000'') world0) = Inr None
   \<and> List.find (\<lambda>cp. permitNumber (snd cp) = Some ''KKPR-2023-010'') (join_permits (docs store0))
        = Some (docs0 ! 1, hd (permits (docs0 ! 1)))
   \<and> fst (query_permit_by_number (Some store0) (Some ''KKPR-2023-010'') world0)
        = Inr (Some (project detail_cols (docs0 ! 1, hd (permits (docs0 ! 1)))))
   \<and> (\<exists>e. auto_initialize None world0 = (Inl e, world0)
          \<and> fst (get_permit_container world0) = Inl e
          \<and> query_permit_by_number None (Some ''KKPR-2023-010'') world0 = (Inl e, world0))"
proof -
  have a: "auto_initialize (Some store0) world0 = (Inr store0, world0)" by simp
  have inst: "(\<not> truthy_str permit_number
            \<longrightarrow> query_permit_by_number (Some store0) permit_number world0 = (Inr None, world0)
                \<and> issued (snd (query_permit_by_number (Some store0) permit_number world0))
                    = issued world0)
       \<and> (\<exists>found. fst (query_permit_by_number (Some store0) permit_number world0) = Inr found)
       \<and> (\<forall>n. permit_number = Some n \<and> n \<noteq> []
                \<and> (\<forall>c\<in>set (docs store0). \<forall>p\<in>set (permits c). permitNumber p \<noteq> Some n)
            \<longrightarrow> fst (query_permit_by_number (Some store0) permit_number world0) = Inr None)
       \<and> (\<forall>n cp. permit_number = Some n \<and> n \<noteq> []
                \<and> failure store0 (Select detail_cols
                        [Compare (P ''permitNumber'') EQ (Param ''@permitNumber'')])
                      [(''@permitNumber'', PStr n)] = None
                \<and> List.find (\<lambda>cp. permitNumber (snd cp) = Some n) (join_permits (docs store0))
                     = Some cp
            \<longrightarrow> fst (query_permit_by_number (Some store0) permit_number world0)
                  = Inr (Some (project detail_cols cp)))" for permit_number
    using C7_permit_by_number [of "Some store0" world0 permit_number] a by blast
  have none: "\<forall>c\<in>set (docs store0). \<forall>p\<in>set (permits c). permitNumber p \<noteq> Some ''PLO-0000''"
    by (simp add: store0_def docs0_def)
  have ok: "failure store0 (Select detail_cols
                        [Compare (P ''permitNumber'') EQ (Param ''@permitNumber'')])
                      [(''@permitNumber'', PStr ''KKPR-2023-010'')] = None"
    by (simp add: store0_def)
  note found = find0_kkpr
  from inst [of None] have 1: "query_permit_by_number (Some store0) None world0 = (Inr None, world0)"
    by simp
  from inst [of "Some []"]
  have 2: "query_permit_by_number (Some store0) (Some []) world0 = (Inr None, world0)"
    by simp
  from inst [of "Some ''PLO-0000''"] none
  have 3: "fst (query_permit_by_number (Some store0) (Some ''PLO-0000'') world0) = Inr None"
    by simp
  from inst [of "Some ''KKPR-2023-010''"] ok found
  have 4: "fst (query_permit_by_number (Some store0) (Some ''KKPR-2023-010'') world0)
        = Inr (Some (project detail_cols (docs0 ! 1, hd (permits (docs0 ! 1)))))"
    by simp
  from C7_permit_by_number [of None world0 "Some ''KKPR-2023-010''"] unconfigured0
  have 5: "\<exists>e. auto_initialize None world0 = (Inl e, world0)
          \<and> fst (get_permit_container world0) = Inl e
          \<and> query_permit_by_number None (Some ''KKPR-2023-010'') world0 = (Inl e, world0)"
    by (simp add: auto_initialize_def)
  from a 1 2 3 4 5 found show ?thesis by simp
qed

text \<open>
  The claim as stated in C7 fails when the container is left out in a world without
  configuration: the call raises ValueError, with a missing, an empty and an unknown permit
  number alike, since \<open>get_permit_container\<close> is called before the number is looked at.
\<close>

theorem C7_counterexample:
  "fst (query_permit_by_number None None world0)
     = Inl (ValueError (''Permit Metadata CosmosDB not configured. ''
                    @ ''Set COSMOS_DB_URI, COSMOS_DB_KEY, COSMOS_DB_DATABASE, ''
                    @ ''and COSMOS_DB_CONTAINER in .env''))
   \<and> fst (query_permit_by_number None (Some []) world0)
     = Inl (ValueError (''Permit Metadata CosmosDB not configured. ''
                    @ ''Set COSMOS_DB_URI, COSMOS_DB_KEY, COSMOS_DB_DATABASE, ''
                    @ ''and COSMOS_DB_CONTAINER in .env''))
   \<and> isl (fst (query_permit_by_number None (Some ''PLO-0000'') world0))
   \<and> fst (query_permit_by_number None None world0) \<noteq> Inr None"
  by (simp add: by_number_raised [OF unconfigured0])

subsection \<open>The installation query\<close>

lemma by_installation_raised:
  "auto_initialize container w = (Inl e, w) \<Longrightarrow>
     query_permits_by_installation container installation' permit_type w = (Inl e, w)"
  by (simp add: query_permits_by_installation_def)

lemma by_installation_short:
  "auto_initialize container w = (Inr k, w) \<Longrightarrow> \<not> truthy_str installation' \<Longrightarrow>
     query_permits_by_installation container installation' permit_type w = (Inr [], w)"
  by (cases installation') (simp_all add: query_permits_by_installation_def)

lemma by_installation_handle:
  "auto_initialize container w = (Inr k, w) \<Longrightarrow> n \<noteq> [] \<Longrightarrow>
     query_permits_by_installation container (Some n) permit_type w
       = (Inr (answer k detail_cols (installation_where n permit_type) (\<lambda>items. items)),
          logged w (Select detail_cols (fst (installation_where n permit_type)))
            (snd (installation_where n permit_type)))"
  by (simp add: query_permits_by_installation_def query_items_eq answer_def
      installation_where_def Let_def split: option.splits)

lemma installation_where_holds:
  "list_all (cond_holds (snd (installation_where n pt)) (fst cp) (snd cp))
       (fst (installation_where n pt))
   \<longleftrightarrow> installation_match n pt cp"
  by (cases pt)
     (auto simp: installation_where_def add_permit_type_def installation_match_def
        permit_prop_def doc_prop_def sql_CONTAINS_sublist split: option.splits)

lemma by_installation_available:
  assumes "auto_initialize container w = (Inr k, w)"
  shows "(\<not> truthy_str installation'
            \<longrightarrow> query_permits_by_installation container installation' permit_type w = (Inr [], w)
                \<and> issued (snd (query_permits_by_installation container installation' permit_type w))
                    = issued w)
       \<and> (\<forall>n. installation' = Some n \<and> n \<noteq> [] \<and> (\<forall>q ps. failure k q ps = None)
            \<longrightarrow> fst (query_permits_by_installation container installation' permit_type w)
                  = Inr (map (project detail_cols)
                           (filter (installation_match n permit_type) (join_permits (docs k)))))
       \<and> (\<forall>c p. installation p = Some ''IT Semarang Refinery''
            \<longrightarrow> installation_match ''semarang'' None (c, p))"
proof (intro conjI allI impI)
  assume "\<not> truthy_str installation'"
  with assms
  show "query_permits_by_installation container installation' permit_type w = (Inr [], w)"
    by (rule by_installation_short)
  then show "issued (snd (query_permits_by_installation container installation' permit_type w))
                    = issued w"
    by simp
next
  fix n
  assume "installation' = Some n \<and> n \<noteq> [] \<and> (\<forall>q ps. failure k q ps = None)"
  with assms
  show "fst (query_permits_by_installation container installation' permit_type w)
                  = Inr (map (project detail_cols)
                           (filter (installation_match n permit_type) (join_permits (docs k))))"
    by (simp add: by_installation_handle answer_def run_select_def matching_def
        installation_where_holds)
next
  fix c :: document and p :: permit
  assume i: "installation p = Some ''IT Semarang Refinery''"
  have "sql_CONTAINS (sql_LOWER ''IT Semarang Refinery'') (sql_LOWER ''semarang'')"
    by code_simp
  with i show "installation_match ''semarang'' None (c, p)"
    by (simp add: installation_match_def sql_CONTAINS_sublist)
qed

text \<open>
  Claim C9, as amended. When the container is available (supplied, or built by
  \<open>get_permit_container\<close>), \<open>query_permits_by_installation\<close> called with a missing or empty
  installation returns the empty list and issues no query. With a non-empty installation
  and no gateway failure it returns, in the order of the join, the rows of exactly the
  entries whose installation contains the searched text, letter case ignored (and whose
  document has the requested permit type, when one is given). Searching \<open>semarang\<close>
  matches an entry whose installation is \<open>IT Semarang Refinery\<close>. When no container is
  supplied and \<open>get_permit_container\<close> raises, the call raises the same exception whatever
  the installation is: the container is built before the installation is looked at.
\<close>

theorem C9_installation_lookup:
  "(\<forall>k. auto_initialize container w = (Inr k, w) \<longrightarrow>
      (\<not> truthy_str installation'
                  \<longrightarrow> query_permits_by_installation container installation' permit_type w = (Inr [], w)
                      \<and> issued (snd (query_permits_by_installation container installation' permit_type w))
                          = issued w)
             \<and> (\<forall>n. installation' = Some n \<and> n \<noteq> [] \<and> (\<forall>q ps. failure k q ps = None)
                  \<longrightarrow> fst (query_permits_by_installation container installation' permit_type w)
                        = Inr (map (project detail_cols)
                                 (filter (installation_match n permit_type) (join_permits (docs k)))))
             \<and> (\<forall>c p. installation p = Some ''IT Semarang Refinery''
                  \<longrightarrow> installation_match ''semarang'' None (c, p)))
   \<and> (\<forall>e. auto_initialize container w = (Inl e, w)
          \<longrightarrow> query_permits_by_installation container installation' permit_type w = (Inl e, w))
   \<and> (\<forall>e. container = None \<and> fst (get_permit_container w) = Inl e
          \<longrightarrow> fst (query_permits_by_installation container installation' permit_type w)
                = Inl e)"
proof (rule conjI [OF _ conjI])
  show "\<forall>e. auto_initialize container w = (Inl e, w)
          \<longrightarrow> query_permits_by_installation container installation' permit_type w = (Inl e, w)"
    by (intro allI impI) (rule by_installation_raised)
  show "\<forall>e. container = None \<and> fst (get_permit_container w) = Inl e
          \<longrightarrow> fst (query_permits_by_installation container installation' permit_type w)
                = Inl e"
    by (intro allI impI) (simp add: by_installation_raised [OF auto_initialize_raised])
qed (intro allI impI, rule by_installation_available)

theorem C9_installation_lookup_witness:
  "auto_initialize (Some store0) world0 = (Inr store0, world0)
   \<and> \<not> truthy_str None \<and> \<not> truthy_str (Some [])
   \<and> query_permits_by_installation (Some store0) None None world0 = (Inr [], world0)
   \<and> query_permits_by_installation (Some store0) (Some []) None world0 = (Inr [], world0)
   \<and> (\<forall>q ps. failure store0 q ps = None)
   \<and> installation (hd (permits (hd docs0))) = Some ''IT Semarang Refinery''
   \<and> installation_match ''semarang'' None (hd docs0, hd (permits (hd docs0)))
   \<and> fst (query_permits_by_installation (Some store0) (Some ''semarang'') None world0)
        = Inr (map (project detail_cols)
                 [(hd docs0, hd (permits (hd docs0))), (docs0 ! 1, hd (permits (docs0 ! 1)))])
   \<and> (\<exists>e. auto_initialize None world0 = (Inl e, world0)
          \<and> fst (get_permit_container world0) = Inl e
          \<and> query_permits_by_installation None (Some ''semarang'') None world0 = (Inl e, world0))"
proof -
  have a: "auto_initialize (Some store0) world0 = (Inr store0, world0)" by simp
  have inst: "(\<not> truthy_str installation'
            \<longrightarrow> query_permits_by_installation (Some store0) installation' permit_type world0
                  = (Inr [], world0)
                \<and> issued (snd (query_permits_by_installation (Some store0) installation'
                                  permit_type world0))
                    = issued world0)
       \<and> (\<forall>n. installation' = Some n \<and> n \<noteq> [] \<and> (\<forall>q ps. failure store0 q ps = None)
            \<longrightarrow> fst (query_permits_by_installation (Some store0) installation' permit_type world0)
                  = Inr (map (project detail_cols)
                           (filter (installation_match n permit_type) (join_permits (docs store0)))))
       \<and> (\<forall>c p. installation p = Some ''IT Semarang Refinery''
            \<longrightarrow> installation_match ''semarang'' None (c, p))" for installation' permit_type
    using C9_installation_lookup [of "Some store0" world0 installation' permit_type] a by blast
  have ok: "\<forall>q ps. failure store0 q ps = None" by (simp add: store0_def)
  have i: "installation (hd (permits (hd docs0))) = Some ''IT Semarang Refinery''"
    by (simp add: docs0_def)
  have f: "filter (installation_match ''semarang'' None) (join_permits (docs store0))
            = [(hd docs0, hd (permits (hd docs0))), (docs0 ! 1, hd (permits (docs0 ! 1)))]"
    by code_simp
  from inst [of None None]
  have 1: "query_permits_by_installation (Some store0) None None world0 = (Inr [], world0)"
    by simp
  from inst [of "Some []" None]
  have 2: "query_permits_by_installation (Some store0) (Some []) None world0 = (Inr [], world0)"
    by simp
  from inst [of "Some ''semarang''" None] ok f
  have 3: "fst (query_permits_by_installation (Some store0) (Some ''semarang'') None world0)
        = Inr (map (project detail_cols)
                 [(hd docs0, hd (permits (hd docs0))), (docs0 ! 1, hd (permits (docs0 ! 1)))])"
    by simp
  from inst [of None None] i
  have 4: "installation_match ''semarang'' None (hd docs0, hd (permits (hd docs0)))"
    by blast
  from C9_installation_lookup [of None world0 "Some ''semarang''" None] unconfigured0
  have 5: "\<exists>e. auto_initialize None world0 = (Inl e, world0)
          \<and> fst (get_permit_container world0) = Inl e
          \<and> query_permits_by_installation None (Some ''semarang'') None world0 = (Inl e, world0)"
    by (simp add: auto_initialize_def)
  from a ok i 1 2 3 4 5 show ?thesis by simp
qed

text \<open>
  The claim as stated in C9 fails when the container is left out in a world without
  configuration: with a missing or an empty installation the call raises ValueError and
  returns no list, since \<open>get_permit_container\<close> is called before the installation is
  looked at.
\<close>

theorem C9_counterexample:
  "fst (query_permits_by_installation None None None world0)
     = Inl (ValueError (''Permit Metadata CosmosDB not configured. ''
                    @ ''Set COSMOS_DB_URI, COSMOS_DB_KEY, COSMOS_DB_DATABASE, ''
                    @ ''and COSMOS_DB_CONTAINER in .env''))
   \<and> fst (query_permits_by_installation None (Some []) None world0)
     = Inl (ValueError (''Permit Metadata CosmosDB not configured. ''
                    @ ''Set COSMOS_DB_URI, COSMOS_DB_KEY, COSMOS_DB_DATABASE, ''
                    @ ''and COSMOS_DB_CONTAINER in .env''))
   \<and> fst (query_permits_by_installation None (Some []) None world0) \<noteq> Inr []"
  by (simp add: by_installation_raised [OF unconfigured0])

subsection \<open>Aggregate statistics\<close>

lemma sum_bump: "sum_list (map snd (bump v g)) = sum_list (map snd g) + 1"
  by (induction v g rule: bump.induct) auto

lemma keys_bump: "fst ` set (bump v g) = insert v (fst ` set g)"
  by (induction v g rule: bump.induct) auto

lemma distinct_bump: "distinct (map fst g) \<Longrightarrow> distinct (map fst (bump v g))"
proof (induction v g rule: bump.induct)
  case (1 k)
  then show ?case by simp
next
  case (2 k k' n g)
  then show ?case
    using keys_bump [of k g] by (auto simp: image_iff)
qed

lemma foldl_bump:
  "sum_list (map snd (foldl (\<lambda>g c. bump (h c) g) g0 ds)) = sum_list (map snd g0) + int (length ds)"
  by (induction ds arbitrary: g0) (simp_all add: sum_bump)

lemma foldl_bump_distinct:
  "distinct (map fst g0) \<Longrightarrow> distinct (map fst (foldl (\<lambda>g c. bump (h c) g) g0 ds))"
  by (induction ds arbitrary: g0) (simp_all add: distinct_bump)

lemma sum_run_group: "sum_list (map snd (run_group f ds)) = int (length ds)"
  by (simp add: run_group_def foldl_bump)

lemma distinct_run_group: "distinct (map fst (run_group f ds))"
  by (simp add: run_group_def foldl_bump_distinct)

lemma sum_update_fresh:
  "v \<notin> fst ` set al \<Longrightarrow> sum_list (map snd (AList.update v n al)) = sum_list (map snd al) + n"
  by (induction al) (auto simp: algebra_simps)

lemma sum_dict_of_groups:
  "distinct (map fst items) \<Longrightarrow> (\<forall>v. Some v \<in> fst ` set items \<longrightarrow> v \<notin> fst ` set acc) \<Longrightarrow>
     dict_of_groups key items acc = Inr d \<Longrightarrow>
     sum_list (map snd d) = sum_list (map snd acc) + sum_list (map snd items)"
proof (induction key items acc rule: dict_of_groups.induct)
  case (1 key acc)
  then show ?case by simp
next
  case (2 key n items acc)
  then show ?case by simp
next
  case (3 key v n items acc)
  from "3.prems" have fresh: "v \<notin> fst ` set acc" by auto
  have "\<forall>v'. Some v' \<in> fst ` set items \<longrightarrow> v' \<notin> fst ` set (AList.update v n acc)"
  proof (intro allI impI)
    fix v' assume m: "Some v' \<in> fst ` set items"
    with "3.prems"(1) have "v' \<noteq> v" by (auto simp: image_iff)
    moreover from m "3.prems"(2) have "v' \<notin> fst ` set acc" by auto
    ultimately show "v' \<notin> fst ` set (AList.update v n acc)" by (simp add: dom_update)
  qed
  with "3.IH" "3.prems" have "sum_list (map snd d)
      = sum_list (map snd (AList.update v n acc)) + sum_list (map snd items)"
    by simp
  with fresh show ?case by (simp add: sum_update_fresh)
qed

lemma sum_by_group:
  "dict_of_groups key (run_group f ds) [] = Inr d \<Longrightarrow> sum_list (map snd d) = int (length ds)"
  using sum_dict_of_groups [OF distinct_run_group, of f ds "[]" key d]
  by (simp add: sum_run_group)

lemma length_join_permits: "length (join_permits ds) = sum_list (map (\<lambda>c. length (permits c)) ds)"
  by (simp add: join_permits_def length_concat comp_def)

lemma length_join_permits_single:
  "\<forall>c\<in>set ds. length (permits c) = 1 \<Longrightarrow> length (join_permits ds) = length ds"
  by (induction ds) (simp_all add: join_permits_def)

lemma query_count_eq:
  "query_count k conds ps w =
     (case failure k (CountJoin conds) ps of
        Some e \<Rightarrow> Inl e
      | None \<Rightarrow> Inr (run_count conds ps (docs k)), logged w (CountJoin conds) ps)"
  by (simp add: query_count_def issue_def logged_def split: option.splits)

lemma query_group_eq:
  "query_group k f w =
     (case failure k (GroupCount f) [] of
        Some e \<Rightarrow> Inl e
      | None \<Rightarrow> Inr (run_group f (docs k)), logged w (GroupCount f) [])"
  by (simp add: query_group_def issue_def logged_def split: option.splits)

lemma query_distinct_eq:
  "query_distinct k f w =
     (case failure k (DistinctValue f) [] of
        Some e \<Rightarrow> Inl e
      | None \<Rightarrow> Inr (run_distinct f (docs k)), logged w (DistinctValue f) [])"
  by (simp add: query_distinct_def issue_def logged_def split: option.splits)

lemma statistics_raised:
  "auto_initialize container w = (Inl e, w) \<Longrightarrow> get_permit_statistics container w = (Inl e, w)"
  by (simp add: get_permit_statistics_def)

lemma statistics_succeeds:
  assumes ai: "auto_initialize container w = (Inr k, w)"
    and ok: "\<forall>q ps. failure k q ps = None"
    and bt: "dict_of_groups ''permitType'' (run_group ''permitType'' (docs k)) [] = Inr bt"
    and bo: "dict_of_groups ''organization'' (run_group ''organization'' (docs k)) [] = Inr bo"
  shows "fst (get_permit_statistics container w) =
         Inr \<lparr>total_permits = int (length (join_permits (docs k))),
              expired_count = int (length (matching
                 (fst (expired_where (strftime_ymd (clock w (ticks w)))))
                 (snd (expired_where (strftime_ymd (clock w (ticks w))))) (docs k))),
              active_count = int (length (join_permits (docs k)))
                 - int (length (matching
                     (fst (expired_where (strftime_ymd (clock w (ticks w)))))
                     (snd (expired_where (strftime_ymd (clock w (ticks w))))) (docs k))),
              by_type = bt, by_organization = bo,
              generated_at = Some (isoformat (clock w (Suc (ticks w)))), error = None\<rparr>"
  using assms
  by (simp add: get_permit_statistics_def now_def query_count_def query_group_def issue_def
      Let_def run_count_def next_or_zero_def matching_def)

lemma statistics_cases:
  assumes ai: "auto_initialize container w = (Inr k, w)"
  obtains (failed) e where "fst (get_permit_statistics container w) = Inr (failed_statistics e)"
  | (succeeded) bt bo n where
      "dict_of_groups ''permitType'' (run_group ''permitType'' (docs k)) [] = Inr bt"
      "fst (get_permit_statistics container w) =
         Inr \<lparr>total_permits = int (length (join_permits (docs k))),
              expired_count = n,
              active_count = int (length (join_permits (docs k))) - n,
              by_type = bt, by_organization = bo,
              generated_at = Some (isoformat (clock w (Suc (ticks w)))), error = None\<rparr>"
proof -
  let ?cur = "strftime_ymd (clock w (ticks w))"
  let ?f1 = "failure k (CountJoin []) []"
  let ?f2 = "failure k (CountJoin (fst (expired_where ?cur))) (snd (expired_where ?cur))"
  let ?f3 = "failure k (GroupCount ''permitType'') []"
  let ?d3 = "dict_of_groups ''permitType'' (run_group ''permitType'' (docs k)) []"
  let ?f4 = "failure k (GroupCount ''organization'') []"
  let ?d4 = "dict_of_groups ''organization'' (run_group ''organization'' (docs k)) []"
  note defs = get_permit_statistics_def now_def query_count_def query_group_def issue_def Let_def
  consider (a) e where "?f1 = Some e"
    | (b) e where "?f1 = None" "?f2 = Some e"
    | (c) e where "?f1 = None" "?f2 = None" "?f3 = Some e"
    | (d) e where "?f1 = None" "?f2 = None" "?f3 = None" "?d3 = Inl e"
    | (e) e bt where "?f1 = None" "?f2 = None" "?f3 = None" "?d3 = Inr bt" "?f4 = Some e"
    | (f) e bt where "?f1 = None" "?f2 = None" "?f3 = None" "?d3 = Inr bt" "?f4 = None"
        "?d4 = Inl e"
    | (g) bt bo where "?f1 = None" "?f2 = None" "?f3 = None" "?d3 = Inr bt" "?f4 = None"
        "?d4 = Inr bo"
    by (metis not_None_eq old.sum.exhaust)
  then show thesis
  proof cases
    case a
    with ai have "fst (get_permit_statistics container w) = Inr (failed_statistics e)"
      by (simp add: defs)
    then show ?thesis by (rule failed)
  next
    case b
    with ai have "fst (get_permit_statistics container w) = Inr (failed_statistics e)"
      by (simp add: defs)
    then show ?thesis by (rule failed)
  next
    case c
    with ai have "fst (get_permit_statistics container w) = Inr (failed_statistics e)"
      by (simp add: defs)
    then show ?thesis by (rule failed)
  next
    case d
    with ai have "fst (get_permit_statistics container w) = Inr (failed_statistics e)"
      by (simp add: defs)
    then show ?thesis by (rule failed)
  next
    case e
    with ai have "fst (get_permit_statistics container w) = Inr (failed_statistics e)"
      by (simp add: defs)
    then show ?thesis by (rule failed)
  next
    case f
    with ai have "fst (get_permit_statistics container w) = Inr (failed_statistics e)"
      by (simp add: defs)
    then show ?thesis by (rule failed)
  next
    case g
    with ai have "fst (get_permit_statistics container w) =
         Inr \<lparr>total_permits = int (length (join_permits (docs k))),
              expired_count = int (length (matching (fst (expired_where ?cur))
                                       (snd (expired_where ?cur)) (docs k))),
              active_count = int (length (join_permits (docs k)))
                 - int (length (matching (fst (expired_where ?cur))
                                       (snd (expired_where ?cur)) (docs k))),
              by_type = bt, by_organization = bo,
              generated_at = Some (isoformat (clock w (Suc (ticks w)))), error = None\<rparr>"
      by (simp add: defs run_count_def next_or_zero_def matching_def)
    with g(4) show ?thesis by (rule succeeded)
  qed
qed

lemma by_type0:
  "dict_of_groups ''permitType'' (run_group ''permitType'' (docs store0)) []
     = Inr [(''PLO'', 1), (''KKPR/KKPRL'', 1)]"
  by code_simp

lemma by_organization0:
  "dict_of_groups ''organization'' (run_group ''organization'' (docs store0)) []
     = Inr [(''PPN'', 1), (''PGN'', 1)]"
  by code_simp

lemma entries0: "length (join_permits (docs store0)) = 3"
  by code_simp

lemma store0_answers: "\<forall>q ps. failure store0 q ps = None"
  by (simp add: store0_def)

lemma by_type2:
  "dict_of_groups ''permitType'' (run_group ''permitType'' (docs store2)) []
     = Inr [(''KKPR/KKPRL'', 1)]"
  by code_simp

lemma by_organization2:
  "dict_of_groups ''organization'' (run_group ''organization'' (docs store2)) []
     = Inr [(''PGN'', 1)]"
  by code_simp

lemma store2_answers: "\<forall>q ps. failure store2 q ps = None"
  by (simp add: store2_def)

text \<open>
  Claim C1, as amended. Whenever \<open>get_permit_statistics\<close> returns a dictionary,
  \<open>active_count = total_permits - expired_count\<close>. In a dictionary without \<open>error\<close>,
  \<open>total_permits\<close> is the number of permit entries of the store, and the values of
  \<open>by_type\<close> add up to the number of documents of the store: the grouping query counts
  documents, not entries. The sum of \<open>by_type\<close> therefore equals \<open>total_permits\<close> when
  every document holds exactly one permit entry.
\<close>

theorem C1_statistics:
  assumes "fst (get_permit_statistics container w) = Inr s"
  shows "active_count s = total_permits s - expired_count s
       \<and> (\<forall>k. auto_initialize container w = (Inr k, w) \<and> error s = None
             \<longrightarrow> total_permits s = int (length (join_permits (docs k)))
                 \<and> sum_list (map snd (by_type s)) = int (length (docs k)))
       \<and> (\<forall>k. auto_initialize container w = (Inr k, w)
                \<and> (\<forall>c\<in>set (docs k). length (permits c) = 1)
             \<longrightarrow> sum_list (map snd (by_type s)) = total_permits s)"
proof (cases container w rule: auto_initialize_cases)
  case (raised e)
  with assms show ?thesis by (simp add: statistics_raised)
next
  case (handle k)
  then show ?thesis
  proof (cases rule: statistics_cases)
    case (failed e)
    with assms handle show ?thesis by (auto simp: failed_statistics_def)
  next
    case (succeeded bt bo n)
    from succeeded(1) have "sum_list (map snd bt) = int (length (docs k))" by (rule sum_by_group)
    with succeeded(2) assms handle show ?thesis
      by (auto simp: length_join_permits_single)
  qed
qed


theorem C1_statistics_witness:
  "(\<exists>s. fst (get_permit_statistics (Some store0) world0) = Inr s
      \<and> auto_initialize (Some store0) world0 = (Inr store0, world0)
      \<and> error s = None
      \<and> active_count s = total_permits s - expired_count s
      \<and> total_permits s = 3
      \<and> sum_list (map snd (by_type s)) = 2)
   \<and> (\<exists>s. fst (get_permit_statistics (Some store2) world0) = Inr s
      \<and> auto_initialize (Some store2) world0 = (Inr store2, world0)
      \<and> list_all (\<lambda>c. length (permits c) = 1) (docs store2)
      \<and> sum_list (map snd (by_type s)) = total_permits s)"
proof -
  from statistics_succeeds [OF auto_initialize_Some store0_answers by_type0 by_organization0,
      of world0]
  obtain s where s: "fst (get_permit_statistics (Some store0) world0) = Inr s"
    and e: "error s = None" by simp
  have n: "int (length (join_permits (docs store0))) = 3" "int (length (docs store0)) = 2"
    by (simp_all add: entries0) (simp add: store0_def docs0_def)
  from C1_statistics [OF s] e n s
  have first: "\<exists>s. fst (get_permit_statistics (Some store0) world0) = Inr s
      \<and> auto_initialize (Some store0) world0 = (Inr store0, world0)
      \<and> error s = None
      \<and> active_count s = total_permits s - expired_count s
      \<and> total_permits s = 3
      \<and> sum_list (map snd (by_type s)) = 2"
    by auto
  from statistics_succeeds [OF auto_initialize_Some store2_answers by_type2 by_organization2,
      of world0]
  obtain s2 where s2: "fst (get_permit_statistics (Some store2) world0) = Inr s2" by simp
  have single: "\<forall>c\<in>set (docs store2). length (permits c) = 1"
    by (simp add: store2_def docs0_def)
  then have single': "list_all (\<lambda>c. length (permits c) = 1) (docs store2)"
    by (simp add: list_all_iff)
  from C1_statistics [OF s2] single
  have "sum_list (map snd (by_type s2)) = total_permits s2" by simp
  with s2 single' have second: "\<exists>s. fst (get_permit_statistics (Some store2) world0) = Inr s
      \<and> auto_initialize (Some store2) world0 = (Inr store2, world0)
      \<and> list_all (\<lambda>c. length (permits c) = 1) (docs store2)
      \<and> sum_list (map snd (by_type s)) = total_permits s"
    by auto
  from first second show ?thesis by blast
qed

text \<open>
  The claim as stated in C1 fails on a store whose first document bundles two entries:
  three entries in all, two documents, so \<open>total_permits\<close> is 3 and \<open>by_type\<close> adds up
  to 2.
\<close>

theorem C1_counterexample:
  "\<not> isl (fst (get_permit_statistics (Some store0) world0))
   \<and> total_permits (projr (fst (get_permit_statistics (Some store0) world0))) = 3
   \<and> sum_list (map snd (by_type (projr (fst (get_permit_statistics (Some store0) world0))))) = 2"
  using statistics_succeeds [OF auto_initialize_Some store0_answers by_type0 by_organization0,
      of world0]
  by (simp add: entries0)

subsection \<open>Failures of the gateway\<close>

lemma issued_by_logged: "issued w0 = issued w \<Longrightarrow> issued_by w (logged w0 q ps) = [(q, ps)]"
  by (simp add: issued_by_def logged_def)

lemma issued_by_same: "issued w0 = issued w \<Longrightarrow> issued_by w w0 = []"
  by (simp add: issued_by_def)

lemma answer_failed: "failure k (Select cols (fst cp)) (snd cp) = Some e \<Longrightarrow> answer k cols cp f = []"
  by (simp add: answer_def)

lemma organizations_raised:
  "auto_initialize container w = (Inl e, w) \<Longrightarrow> get_all_organizations container w = (Inl e, w)"
  by (simp add: get_all_organizations_def)

lemma organizations_handle:
  "auto_initialize container w = (Inr k, w) \<Longrightarrow>
     get_all_organizations container w
       = (Inr (case failure k (DistinctValue ''organization'') [] of
                 Some e \<Rightarrow> []
               | None \<Rightarrow> sort (run_distinct ''organization'' (docs k))),
          logged w (DistinctValue ''organization'') [])"
  by (simp add: get_all_organizations_def query_distinct_eq split: option.splits)

text \<open>What the statement of containment says of one call.\<close>

lemma contained_single:
  assumes "call container op w = (Inr r, logged w0 q ps)" and "issued w0 = issued w"
    and "\<And>e. failure k q ps = Some e \<Longrightarrow> r = fallback op e"
  shows "\<exists>r. fst (call container op w) = Inr r
           \<and> (\<forall>q ps e. (q, ps) \<in> set (issued_by w (snd (call container op w)))
                    \<and> failure k q ps = Some e \<longrightarrow> r = fallback op e)"
  using assms by (auto simp: issued_by_logged)

lemma contained_none:
  assumes "call container op w = (Inr r, w)"
  shows "\<exists>r. fst (call container op w) = Inr r
           \<and> (\<forall>q ps e. (q, ps) \<in> set (issued_by w (snd (call container op w)))
                    \<and> failure k q ps = Some e \<longrightarrow> r = fallback op e)"
  using assms by (auto simp: issued_by_same)

lemma statistics_contained:
  assumes ai: "auto_initialize container w = (Inr k, w)"
  shows "\<exists>s. fst (get_permit_statistics container w) = Inr s
           \<and> (\<forall>q ps e. (q, ps) \<in> set (issued_by w (snd (get_permit_statistics container w)))
                    \<and> failure k q ps = Some e \<longrightarrow> s = failed_statistics e)"
proof -
  let ?cur = "strftime_ymd (clock w (ticks w))"
  let ?f1 = "failure k (CountJoin []) []"
  let ?f2 = "failure k (CountJoin (fst (expired_where ?cur))) (snd (expired_where ?cur))"
  let ?f3 = "failure k (GroupCount ''permitType'') []"
  let ?d3 = "dict_of_groups ''permitType'' (run_group ''permitType'' (docs k)) []"
  let ?f4 = "failure k (GroupCount ''organization'') []"
  let ?d4 = "dict_of_groups ''organization'' (run_group ''organization'' (docs k)) []"
  note defs = get_permit_statistics_def now_def query_count_def query_group_def issue_def Let_def
    issued_by_def
  consider (a) e where "?f1 = Some e"
    | (b) e where "?f1 = None" "?f2 = Some e"
    | (c) e where "?f1 = None" "?f2 = None" "?f3 = Some e"
    | (d) "?f1 = None" "?f2 = None" "?f3 = None" "?f4 = None"
    | (e) e where "?f1 = None" "?f2 = None" "?f3 = None" "?f4 = Some e"
    by (metis not_None_eq)
  then show ?thesis
  proof cases
    case a
    with ai show ?thesis by (auto simp: defs)
  next
    case b
    with ai show ?thesis by (auto simp: defs)
  next
    case c
    with ai show ?thesis by (auto simp: defs)
  next
    case d
    with ai show ?thesis by (cases ?d3; cases ?d4) (auto simp: defs)
  next
    case e
    with ai show ?thesis by (cases ?d3) (auto simp: defs)
  qed
qed

lemma call_raised:
  "auto_initialize container w = (Inl e, w) \<Longrightarrow> call container op w = (Inl e, w)"
  by (cases op)
     (simp_all add: issue_year_raised expiration_year_raised expired_raised expiring_soon_raised
        by_number_raised by_installation_raised organizations_raised statistics_raised)

lemma call_contained:
  assumes ai: "auto_initialize container w = (Inr k, w)"
    and dw: "date_window_error op w = None"
  shows "\<exists>r. fst (call container op w) = Inr r
           \<and> (\<forall>q ps e. (q, ps) \<in> set (issued_by w (snd (call container op w)))
                    \<and> failure k q ps = Some e \<longrightarrow> r = fallback op e)"
proof (cases op)
  case (ByIssueYear pt y org oper ob)
  let ?cp = "add_organization org (add_year ''issueDate'' oper y (add_permit_type pt ([], [])))"
  have "call container op w
          = (Inr (Rows (answer k issue_year_cols ?cp (sort_by_date ''issueDate'' ob))),
             logged w (Select issue_year_cols (fst ?cp)) (snd ?cp))"
    by (simp add: ByIssueYear issue_year_handle [OF ai] Let_def)
  then show ?thesis
    by (auto simp: issued_by_logged answer_failed ByIssueYear)
next
  case (ByExpirationYear pt y org oper ob)
  let ?cp = "add_organization org
               (add_year ''expirationDate'' oper y (add_permit_type pt ([], [])))"
  have "call container op w
          = (Inr (Rows (answer k expiration_year_cols ?cp (sort_by_date ''expirationDate'' ob))),
             logged w (Select expiration_year_cols (fst ?cp)) (snd ?cp))"
    by (simp add: ByExpirationYear expiration_year_handle [OF ai] Let_def)
  then show ?thesis
    by (auto simp: issued_by_logged answer_failed ByExpirationYear)
next
  case (Expired org ob)
  let ?cp = "add_organization org (expired_where (strftime_ymd (clock w (ticks w))))"
  have "call container op w
          = (Inr (Rows (answer k expiry_cols ?cp (sort_by_date ''expirationDate'' ob))),
             logged (w\<lparr>ticks := Suc (ticks w)\<rparr>) (Select expiry_cols (fst ?cp)) (snd ?cp))"
    by (simp add: Expired expired_handle [OF ai] Let_def)
  then show ?thesis
    by (auto simp: issued_by_logged answer_failed Expired)
next
  case (ExpiringSoon days org ob)
  with dw obtain future where f: "add_days (clock w (ticks w)) days = Inr future"
    by (auto split: sum.splits)
  let ?cp = "add_organization org
               (expiring_where (strftime_ymd (clock w (ticks w))) (strftime_ymd future))"
  have "call container op w
          = (Inr (Rows (answer k expiry_cols ?cp (sort_by_date ''expirationDate'' ob))),
             logged (w\<lparr>ticks := Suc (Suc (ticks w))\<rparr>) (Select expiry_cols (fst ?cp))
               (snd ?cp))"
    by (simp add: ExpiringSoon expiring_soon_handle [OF ai f] Let_def)
  then show ?thesis
    by (auto simp: issued_by_logged answer_failed ExpiringSoon)
next
  case (ByNumber pn)
  show ?thesis
  proof (cases "truthy_str pn")
    case False
    have "call container op w = (Inr (Found None), w)"
      by (simp add: ByNumber by_number_short [OF ai False])
    then show ?thesis by (auto simp: issued_by_same)
  next
    case True
    then obtain n where n: "pn = Some n" "n \<noteq> []" by (cases pn) auto
    let ?q = "Select detail_cols [Compare (P ''permitNumber'') EQ (Param ''@permitNumber'')]"
    let ?ps = "[(''@permitNumber'', PStr n)]"
    have "call container op w
            = (Inr (Found (case failure k ?q ?ps of
                             Some e \<Rightarrow> None
                           | None \<Rightarrow> map_option (project detail_cols)
                               (List.find (\<lambda>cp. permitNumber (snd cp) = Some n)
                                  (join_permits (docs k))))),
               logged w ?q ?ps)"
      by (simp add: ByNumber n by_number_handle [OF ai n(2)])
    then show ?thesis
      by (auto simp: issued_by_logged ByNumber)
  qed
next
  case (ByInstallation inst pt)
  show ?thesis
  proof (cases "truthy_str inst")
    case False
    have "call container op w = (Inr (Rows []), w)"
      by (simp add: ByInstallation by_installation_short [OF ai False])
    then show ?thesis by (auto simp: issued_by_same)
  next
    case True
    then obtain n where n: "inst = Some n" "n \<noteq> []" by (cases inst) auto
    let ?cp = "installation_where n pt"
    have "call container op w
            = (Inr (Rows (answer k detail_cols ?cp (\<lambda>items. items))),
               logged w (Select detail_cols (fst ?cp)) (snd ?cp))"
      by (simp add: ByInstallation n by_installation_handle [OF ai n(2)])
    then show ?thesis
      by (auto simp: issued_by_logged answer_failed ByInstallation)
  qed
next
  case AllOrganizations
  have "call container op w
          = (Inr (Names (case failure k (DistinctValue ''organization'') [] of
                           Some e \<Rightarrow> []
                         | None \<Rightarrow> sort (run_distinct ''organization'' (docs k)))),
             logged w (DistinctValue ''organization'') [])"
    by (simp add: AllOrganizations organizations_handle [OF ai])
  then show ?thesis
    by (auto simp: issued_by_logged AllOrganizations)
next
  case Statistics
  from statistics_contained [OF ai] obtain s where
    s: "fst (get_permit_statistics container w) = Inr s"
    and c: "\<forall>q ps e. (q, ps) \<in> set (issued_by w (snd (get_permit_statistics container w)))
                    \<and> failure k q ps = Some e \<longrightarrow> s = failed_statistics e"
    by blast
  obtain r w' where rw: "get_permit_statistics container w = (r, w')"
    by (cases "get_permit_statistics container w")
  with s c show ?thesis by (auto simp: Statistics)
qed

text \<open>
  Claim C2, as amended. Take any operation of the query builder. When the container is
  available (supplied, or built by \<open>get_permit_container\<close>) and the date arithmetic of the
  expiring-soon query does not overflow, the operation returns, and if the gateway raised
  \<open>e\<close> on a query the operation issued, what it returns is its fallback: the empty list,
  None for \<open>query_permit_by_number\<close>, the zeroed statistics carrying \<open>str(e)\<close> under
  \<open>error\<close> for \<open>get_permit_statistics\<close>. When no container is supplied and
  \<open>get_permit_container\<close> raises, the operation raises the same exception: that call
  stands before the \<open>try\<close>.
\<close>

theorem C2_failures_contained:
  "(\<forall>k. auto_initialize container w = (Inr k, w) \<and> date_window_error op w = None
       \<longrightarrow> (\<exists>r. fst (call container op w) = Inr r
              \<and> (\<forall>q ps e. (q, ps) \<in> set (issued_by w (snd (call container op w)))
                       \<and> failure k q ps = Some e \<longrightarrow> r = fallback op e)))
   \<and> (\<forall>e. auto_initialize container w = (Inl e, w) \<longrightarrow> call container op w = (Inl e, w))
   \<and> (\<forall>e. container = None \<and> fst (get_permit_container w) = Inl e
          \<longrightarrow> fst (call container op w) = Inl e)"
proof (intro conjI allI impI)
  fix k
  assume "auto_initialize container w = (Inr k, w) \<and> date_window_error op w = None"
  then show "\<exists>r. fst (call container op w) = Inr r
              \<and> (\<forall>q ps e. (q, ps) \<in> set (issued_by w (snd (call container op w)))
                       \<and> failure k q ps = Some e \<longrightarrow> r = fallback op e)"
    using call_contained by blast
next
  fix e
  assume "auto_initialize container w = (Inl e, w)"
  then show "call container op w = (Inl e, w)" by (rule call_raised)
next
  fix e
  assume a: "container = None \<and> fst (get_permit_container w) = Inl e"
  then have "fst (auto_initialize container w) = Inl e" by (simp add: auto_initialize_def)
  then have "auto_initialize container w = (Inl e, w)"
    by (metis prod.collapse snd_auto_initialize)
  then show "fst (call container op w) = Inl e" by (simp add: call_raised)
qed

lemma broken0_fails: "failure broken0 q ps = Some (ServiceError ''Service Unavailable'')"
  by (simp add: broken0_def)

theorem C2_failures_contained_witness:
  "auto_initialize (Some broken0) world0 = (Inr broken0, world0)
   \<and> date_window_error (Expired None ''latest'') world0 = None
   \<and> (\<exists>r q ps e. fst (call (Some broken0) (Expired None ''latest'') world0) = Inr r
         \<and> (q, ps) \<in> set (issued_by world0 (snd (call (Some broken0) (Expired None ''latest'') world0)))
         \<and> failure broken0 q ps = Some e
         \<and> r = fallback (Expired None ''latest'') e \<and> r = Rows [])
   \<and> (\<exists>e. auto_initialize None world0 = (Inl e, world0)
         \<and> call None Statistics world0 = (Inl e, world0))"
proof -
  let ?op = "Expired None ''latest''"
  let ?cp = "add_organization None (expired_where (strftime_ymd (clock world0 (ticks world0))))"
  let ?q = "Select expiry_cols (fst ?cp)"
  have a: "auto_initialize (Some broken0) world0 = (Inr broken0, world0)" by simp
  have d: "date_window_error ?op world0 = None" by simp
  have "snd (call (Some broken0) ?op world0)
          = logged (world0\<lparr>ticks := Suc (ticks world0)\<rparr>) ?q (snd ?cp)"
    by (simp add: expired_handle [OF a] Let_def)
  then have i: "(?q, snd ?cp) \<in> set (issued_by world0 (snd (call (Some broken0) ?op world0)))"
    by (simp add: issued_by_logged)
  note inst = C2_failures_contained [of "Some broken0" world0 ?op]
  from inst a d obtain r where r: "fst (call (Some broken0) ?op world0) = Inr r"
    and c: "\<forall>q ps e. (q, ps) \<in> set (issued_by world0 (snd (call (Some broken0) ?op world0)))
                       \<and> failure broken0 q ps = Some e \<longrightarrow> r = fallback ?op e"
    by blast
  from c i broken0_fails [of ?q "snd ?cp"]
  have f: "r = fallback ?op (ServiceError ''Service Unavailable'')" by blast
  then have e: "r = Rows []" by simp
  from C2_failures_contained [of None world0 Statistics] unconfigured0
  have p: "\<exists>e. auto_initialize None world0 = (Inl e, world0)
         \<and> call None Statistics world0 = (Inl e, world0)"
    by blast
  from a d r i f e p broken0_fails [of ?q "snd ?cp"] show ?thesis by blast
qed

text \<open>
  The claim as stated in C2 fails in two ways: on a gateway failure
  \<open>query_permit_by_number\<close> returns None, which is not an empty list; and without a
  container, in a world without configuration, the operations raise ValueError.
\<close>

theorem C2_counterexample:
  "fst (call (Some broken0) (ByNumber (Some ''PLO-2024-001'')) world0) = Inr (Found None)
   \<and> \<not> is_empty_list (Found None)
   \<and> isl (fst (call None (Expired None ''latest'') world0))
   \<and> isl (fst (call None Statistics world0))"
proof -
  have a: "auto_initialize (Some broken0) world0 = (Inr broken0, world0)" by simp
  have "fst (call (Some broken0) (ByNumber (Some ''PLO-2024-001'')) world0) = Inr (Found None)"
    by (simp add: by_number_handle [OF a] broken0_fails)
  moreover have "isl (fst (call None (Expired None ''latest'') world0))"
    by (simp add: expired_raised [OF unconfigured0])
  moreover have "isl (fst (call None Statistics world0))"
    by (simp add: statistics_raised [OF unconfigured0])
  ultimately show ?thesis by simp
qed

text \<open>The date arithmetic of the expiring-soon query overflows for ten million days.\<close>

lemma expiring_soon_overflow0:
  "fst (query_documents_expiring_soon (Some store0) 10000000 None ''earliest'' world0)
     = Inl (OverflowError ''date value out of range'')"
proof -
  have "add_days (clock world0 (ticks world0)) 10000000
          = Inl (OverflowError ''date value out of range'')"
    by code_simp
  then show ?thesis
    by (simp add: expiring_soon_overflow [OF auto_initialize_Some])
qed

subsection \<open>The permit-details tool\<close>

lemma py_strip_keeps:
  assumes sp: "\<forall>c\<in>set lead. is_space c" and a: "\<not> is_space a" and b: "\<not> is_space b"
  shows "\<exists>z. py_strip (lead @ a # mid @ b # tail) = a # mid @ b # z"
proof -
  from sp a have 1: "dropWhile is_space (lead @ a # mid @ b # tail) = a # mid @ b # tail"
    by (simp add: dropWhile_append2)
  have 2: "rev (a # mid @ b # tail) = rev tail @ b # rev mid @ [a]" by simp
  show ?thesis
  proof (cases "\<forall>c\<in>set (rev tail). is_space c")
    case True
    then have "dropWhile is_space (rev tail @ b # rev mid @ [a])
                 = dropWhile is_space (b # rev mid @ [a])"
      by (intro dropWhile_append2) blast
    with b have "dropWhile is_space (rev tail @ b # rev mid @ [a]) = b # rev mid @ [a]"
      by simp
    with 1 2 have "py_strip (lead @ a # mid @ b # tail) = a # mid @ b # []"
      by (simp add: py_strip_def)
    then show ?thesis by blast
  next
    case False
    then obtain x where "x \<in> set (rev tail)" "\<not> is_space x" by blast
    then have "dropWhile is_space (rev tail @ b # rev mid @ [a])
                 = dropWhile is_space (rev tail) @ b # rev mid @ [a]"
      by (rule dropWhile_append1)
    with 1 2 have "py_strip (lead @ a # mid @ b # tail)
                     = a # mid @ b # rev (dropWhile is_space (rev tail))"
      by (simp add: py_strip_def)
    then show ?thesis by blast
  qed
qed

lemma details_text_shape:
  "\<exists>z. py_strip (details_text n permit expiry status info)
      = details_head n permit
        @ ''Expiration Date: ''
        @ (case expiry of Some e \<Rightarrow> if e \<noteq> [] then e else ''N/A'' | None \<Rightarrow> ''N/A'') @ nl
        @ ''Status: '' @ status @ '' '' @ info @ nl @ nl @ ''Summary:'' @ z"
proof -
  let ?mid = "''ermit Details for '' @ n @ '':'' @ nl
     @ nl
     @ ''Document Title: '' @ get_or permit ''documentTitle'' ''N/A'' @ nl
     @ ''Permit Type: '' @ get_or permit ''permitType'' ''N/A'' @ nl
     @ ''Organization: '' @ get_or permit ''organization'' ''N/A'' @ nl
     @ ''Installation: '' @ get_or permit ''installation'' ''N/A'' @ nl
     @ nl
     @ ''Issue Date: '' @ get_or permit ''issueDate'' ''N/A'' @ nl
     @ ''Expiration Date: ''
       @ (case expiry of Some e \<Rightarrow> if e \<noteq> [] then e else ''N/A'' | None \<Rightarrow> ''N/A'') @ nl
     @ ''Status: '' @ status @ '' '' @ info @ nl
     @ nl
     @ ''Summary''"
  let ?tail = "nl @ get_or permit ''permitSummary'' ''No summary available'' @ nl
     @ nl
     @ ''Document Path: '' @ get_or permit ''filepath'' ''N/A'' @ nl"
  have shape: "details_text n permit expiry status info
                 = nl @ CHR ''P'' # ?mid @ CHR '':'' # ?tail"
    by (simp add: details_text_def)
  have "\<forall>c\<in>set nl. is_space c" "\<not> is_space CHR ''P''" "\<not> is_space CHR '':''"
    by (simp_all add: nl_def is_space_def)
  from py_strip_keeps [OF this, of ?mid ?tail] shape
  obtain z where "py_strip (details_text n permit expiry status info)
                    = CHR ''P'' # ?mid @ CHR '':'' # z"
    by auto
  then show ?thesis by (auto simp: details_head_def)
qed

lemma by_number_world:
  assumes "fst (query_permit_by_number (Some k) (Some n) w) = Inr (Some permit)"
  shows "\<exists>q ps. query_permit_by_number (Some k) (Some n) w = (Inr (Some permit), logged w q ps)"
proof (cases "n = []")
  case True
  with assms show ?thesis by (simp add: by_number_short)
next
  case False
  with assms show ?thesis
    using by_number_handle [OF auto_initialize_Some False, of k w] by auto
qed

lemma derived_status_meaning:
  "(d < 0 \<longrightarrow> fst (derived_status d) = ''Expired'')
   \<and> (0 \<le> d \<and> d \<le> 30 \<longrightarrow> fst (derived_status d) = ''Expiring Soon'')
   \<and> (30 < d \<longrightarrow> fst (derived_status d) = ''Active'')"
  by (simp add: derived_status_def)

text \<open>
  Claim C10. Let \<open>get_permit_details\<close> find a permit record. When the record has no
  expiration date, or an empty one, the text is rendered with the status \<open>Active\<close> and an
  empty days phrase: after the line \<open>Expiration Date: N/A\<close> comes the line
  \<open>Status: Active\<close> followed by a blank and nothing else. When the record has an expiration
  date that parses, the status comes from the days between that date and now: Expired
  below 0, Expiring Soon from 0 to 30, Active above 30.
\<close>

theorem C10_status_without_expiration:
  assumes found: "fst (query_permit_by_number (Some cosmos_container) (Some permit_number) w)
                    = Inr (Some permit)"
    and ne: "permit \<noteq> []"
  shows "(\<not> truthy_str (row_get permit ''expirationDate'')
           \<longrightarrow> fst (get_permit_details cosmos_container permit_number w)
                 = py_strip (details_text permit_number permit (row_get permit ''expirationDate'')
                               ''Active'' [])
               \<and> (\<exists>z. fst (get_permit_details cosmos_container permit_number w)
                      = details_head permit_number permit
                        @ ''Expiration Date: N/A'' @ nl
                        @ ''Status: Active '' @ nl @ nl @ ''Summary:'' @ z))
       \<and> (\<forall>e t. row_get permit ''expirationDate'' = Some e \<and> e \<noteq> [] \<and> strptime_ymd e = Inr t
           \<longrightarrow> fst (get_permit_details cosmos_container permit_number w)
                 = py_strip (details_text permit_number permit (Some e)
                      (fst (derived_status (days_between t (clock w (ticks w)))))
                      (snd (derived_status (days_between t (clock w (ticks w)))))))
       \<and> (\<forall>d. (d < 0 \<longrightarrow> fst (derived_status d) = ''Expired'')
              \<and> (0 \<le> d \<and> d \<le> 30 \<longrightarrow> fst (derived_status d) = ''Expiring Soon'')
              \<and> (30 < d \<longrightarrow> fst (derived_status d) = ''Active''))"
proof -
  from by_number_world [OF found] obtain q ps where
    eq: "query_permit_by_number (Some cosmos_container) (Some permit_number) w
           = (Inr (Some permit), logged w q ps)"
    by blast
  have clk: "clock (logged w q ps) (ticks (logged w q ps)) = clock w (ticks w)"
    by (simp add: logged_def)
  have A: "fst (get_permit_details cosmos_container permit_number w)
                 = py_strip (details_text permit_number permit (row_get permit ''expirationDate'')
                               ''Active'' [])"
    if "\<not> truthy_str (row_get permit ''expirationDate'')"
    using that ne
    by (cases "row_get permit ''expirationDate''")
       (simp_all add: get_permit_details_def eq now_def Let_def)
  have B: "\<exists>z. fst (get_permit_details cosmos_container permit_number w)
                      = details_head permit_number permit
                        @ ''Expiration Date: N/A'' @ nl
                        @ ''Status: Active '' @ nl @ nl @ ''Summary:'' @ z"
    if "\<not> truthy_str (row_get permit ''expirationDate'')"
    using details_text_shape [of permit_number permit "row_get permit ''expirationDate''"
        "''Active''" "[]"] that A [OF that]
    by (cases "row_get permit ''expirationDate''") auto
  have C: "fst (get_permit_details cosmos_container permit_number w)
                 = py_strip (details_text permit_number permit (Some e)
                      (fst (derived_status (days_between t (clock w (ticks w)))))
                      (snd (derived_status (days_between t (clock w (ticks w))))))"
    if "row_get permit ''expirationDate'' = Some e \<and> e \<noteq> [] \<and> strptime_ymd e = Inr t" for e t
    using that ne
    by (simp add: get_permit_details_def eq now_def Let_def clk)
  from A B C derived_status_meaning show ?thesis by blast
qed

lemma find0_plo:
  "List.find (\<lambda>cp. permitNumber (snd cp) = Some ''PLO-2024-001'') (join_permits (docs store0))
     = Some (hd docs0, hd (permits (hd docs0)))"
  by code_simp

lemma row0_kkpr:
  "project detail_cols (docs0 ! 1, hd (permits (docs0 ! 1)))
     = [(''documentTitle'', ''Site B''), (''permitType'', ''KKPR/KKPRL''),
        (''organization'', ''PGN''), (''filepath'', ''kkpr/b.pdf''),
        (''issueDate'', ''2023-09-09''), (''permitSummary'', ''Site use''),
        (''permitNumber'', ''KKPR-2023-010''), (''installation'', ''IT Semarang'')]"
  by code_simp

lemma row0_plo:
  "project detail_cols (hd docs0, hd (permits (hd docs0)))
     = [(''documentTitle'', ''Pipeline A''), (''permitType'', ''PLO''),
        (''organization'', ''PPN''), (''filepath'', ''plo/a.pdf''),
        (''issueDate'', ''2024-03-01''), (''expirationDate'', ''2025-12-05''),
        (''permitSummary'', ''Pipe one''), (''permitNumber'', ''PLO-2024-001''),
        (''installation'', ''IT Semarang Refinery'')]"
  by code_simp

lemma expiry0_plo: "strptime_ymd ''2025-12-05'' = Inr (midnight 2025 12 5)"
  by code_simp

lemma remaining0_plo:
  "derived_status (days_between (midnight 2025 12 5) (clock world0 (ticks world0)))
     = (''Expiring Soon'', ''Expires in 14 days'')"
  by code_simp

theorem C10_status_without_expiration_witness:
  "fst (query_permit_by_number (Some store0) (Some ''KKPR-2023-010'') world0)
     = Inr (Some (project detail_cols (docs0 ! 1, hd (permits (docs0 ! 1)))))
   \<and> project detail_cols (docs0 ! 1, hd (permits (docs0 ! 1))) \<noteq> []
   \<and> \<not> truthy_str (row_get (project detail_cols (docs0 ! 1, hd (permits (docs0 ! 1))))
                        ''expirationDate'')
   \<and> fst (get_permit_details store0 ''KKPR-2023-010'' world0)
       = py_strip (details_text ''KKPR-2023-010''
                     (project detail_cols (docs0 ! 1, hd (permits (docs0 ! 1)))) None
                     ''Active'' [])
   \<and> (\<exists>z. fst (get_permit_details store0 ''KKPR-2023-010'' world0)
            = details_head ''KKPR-2023-010''
                (project detail_cols (docs0 ! 1, hd (permits (docs0 ! 1))))
              @ ''Expiration Date: N/A'' @ nl
              @ ''Status: Active '' @ nl @ nl @ ''Summary:'' @ z)
   \<and> fst (query_permit_by_number (Some store0) (Some ''PLO-2024-001'') world0)
       = Inr (Some (project detail_cols (hd docs0, hd (permits (hd docs0)))))
   \<and> row_get (project detail_cols (hd docs0, hd (permits (hd docs0)))) ''expirationDate''
       = Some ''2025-12-05''
   \<and> strptime_ymd ''2025-12-05'' = Inr (midnight 2025 12 5)
   \<and> fst (get_permit_details store0 ''PLO-2024-001'' world0)
       = py_strip (details_text ''PLO-2024-001''
                     (project detail_cols (hd docs0, hd (permits (hd docs0))))
                     (Some ''2025-12-05'') ''Expiring Soon'' ''Expires in 14 days'')"
proof -
  let ?kkpr = "project detail_cols (docs0 ! 1, hd (permits (docs0 ! 1)))"
  let ?plo = "project detail_cols (hd docs0, hd (permits (hd docs0)))"
  have q1: "fst (query_permit_by_number (Some store0) (Some ''KKPR-2023-010'') world0)
              = Inr (Some ?kkpr)"
    by (simp add: by_number_handle [OF auto_initialize_Some] store0_answers find0_kkpr)
  have ne1: "?kkpr \<noteq> []" unfolding row0_kkpr by simp
  have x1: "row_get ?kkpr ''expirationDate'' = None"
    unfolding row0_kkpr by (simp add: row_get_def)
  have q2: "fst (query_permit_by_number (Some store0) (Some ''PLO-2024-001'') world0)
              = Inr (Some ?plo)"
    by (simp add: by_number_handle [OF auto_initialize_Some] store0_answers find0_plo)
  have ne2: "?plo \<noteq> []" unfolding row0_plo by simp
  have x2: "row_get ?plo ''expirationDate'' = Some ''2025-12-05''"
    unfolding row0_plo by (simp add: row_get_def)
  have nt: "\<not> truthy_str (row_get ?kkpr ''expirationDate'')" unfolding x1 by simp
  from C10_status_without_expiration [OF q1 ne1] nt
  have a0: "fst (get_permit_details store0 ''KKPR-2023-010'' world0)
       = py_strip (details_text ''KKPR-2023-010'' ?kkpr (row_get ?kkpr ''expirationDate'')
                     ''Active'' [])"
    and b: "\<exists>z. fst (get_permit_details store0 ''KKPR-2023-010'' world0)
            = details_head ''KKPR-2023-010'' ?kkpr
              @ ''Expiration Date: N/A'' @ nl
              @ ''Status: Active '' @ nl @ nl @ ''Summary:'' @ z"
    by blast+
  from a0 have a: "fst (get_permit_details store0 ''KKPR-2023-010'' world0)
       = py_strip (details_text ''KKPR-2023-010'' ?kkpr None ''Active'' [])"
    unfolding x1 .
  from C10_status_without_expiration [OF q2 ne2] x2 expiry0_plo
  have c: "fst (get_permit_details store0 ''PLO-2024-001'' world0)
       = py_strip (details_text ''PLO-2024-001'' ?plo (Some ''2025-12-05'')
            (fst (derived_status (days_between (midnight 2025 12 5)
                                    (clock world0 (ticks world0)))))
            (snd (derived_status (days_between (midnight 2025 12 5)
                                    (clock world0 (ticks world0))))))"
    by blast
  from c have d: "fst (get_permit_details store0 ''PLO-2024-001'' world0)
       = py_strip (details_text ''PLO-2024-001'' ?plo (Some ''2025-12-05'')
            ''Expiring Soon'' ''Expires in 14 days'')"
    unfolding remaining0_plo by simp
  from q1 ne1 nt a b q2 x2 expiry0_plo d show ?thesis
    by blast
qed

end
